theory Spec2Isabelle
  imports
    Main
    "HOL-Library.Char_ord"
    "HOL-Library.List_Lexorder"
    "HOL-Library.Option_ord"
    "HOL-Library.Sublist"
    "HOL-Library.Multiset"
begin

section \<open>The message store of \<^verbatim>\<open>src/index.ts\<close>\<close>

text \<open>
  The server keeps ten SQLite tables and answers HTTP requests over them. The embedding
  passes the database around as a value of type \<open>store\<close>; every handler is a function
  of the store and the request, and the one handler that writes returns the statements
  it has issued, which change the store when they run.

  Request bodies are taken as typed JSON: a text field is a \<open>string option\<close>, a numeric
  field an \<open>int option\<close>, a flag a \<open>bool option\<close>, where \<open>None\<close> stands for a field that
  is absent (\<^verbatim>\<open>undefined\<close>) or \<^verbatim>\<open>null\<close>; node-sqlite3 binds both as SQL NULL. Nested
  objects that the code only passes to \<^verbatim>\<open>JSON.stringify\<close> have the type variable \<open>'j\<close>,
  and \<^verbatim>\<open>JSON.stringify\<close> itself is a parameter of the handler.

  A statement can fail: the fault oracle \<open>stmt \<Rightarrow> string option\<close> gives the error message
  of a failing statement, and a failing statement leaves the store as it was. The
  statements of \<^verbatim>\<open>POST /messages\<close> are issued and run later, in any order, also after later
  requests; the queries of the other handlers are taken to run when the request arrives.
\<close>

subsection \<open>JavaScript values and SQL cells\<close>

type_synonym ntext = "string option"
type_synonym nint = "int option"

text \<open>Truthiness: \<^verbatim>\<open>undefined\<close>, \<^verbatim>\<open>null\<close>, the empty string, \<^verbatim>\<open>0\<close> and \<^verbatim>\<open>false\<close> are falsy.\<close>

fun truthy_text :: "ntext \<Rightarrow> bool" where
  "truthy_text None = False"
| "truthy_text (Some s) = (s \<noteq> [])"

fun truthy_integer :: "nint \<Rightarrow> bool" where
  "truthy_integer None = False"
| "truthy_integer (Some n) = (n \<noteq> 0)"

fun truthy_bool :: "bool option \<Rightarrow> bool" where
  "truthy_bool None = False"
| "truthy_bool (Some b) = b"

datatype cell = SqlNull | SqlInt int | SqlText string

text \<open>\<^verbatim>\<open>x\<close> bound as it is; \<^verbatim>\<open>x || null\<close>; \<^verbatim>\<open>x ? 1 : 0\<close>; \<^verbatim>\<open>x ? JSON.stringify(x) : null\<close>.\<close>

fun bind_text :: "ntext \<Rightarrow> cell" where
  "bind_text None = SqlNull"
| "bind_text (Some s) = SqlText s"

fun bind_integer :: "nint \<Rightarrow> cell" where
  "bind_integer None = SqlNull"
| "bind_integer (Some n) = SqlInt n"

definition text_or_null :: "ntext \<Rightarrow> cell" where
  "text_or_null x = (if truthy_text x then bind_text x else SqlNull)"

definition integer_or_null :: "nint \<Rightarrow> cell" where
  "integer_or_null x = (if truthy_integer x then bind_integer x else SqlNull)"

definition one_or_zero :: "bool option \<Rightarrow> int" where
  "one_or_zero x = (if truthy_bool x then 1 else 0)"

fun json_or_null :: "('j \<Rightarrow> string) \<Rightarrow> 'j option \<Rightarrow> cell" where
  "json_or_null stringify None = SqlNull"
| "json_or_null stringify (Some v) = SqlText (stringify v)"

text \<open>SQL equality: a comparison with NULL is never true.\<close>

fun sql_eq :: "'a option \<Rightarrow> 'a option \<Rightarrow> bool" where
  "sql_eq (Some a) (Some b) = (a = b)"
| "sql_eq _ _ = False"

subsection \<open>Request payloads\<close>

record author_in =
  au_id :: ntext
  au_avatar :: ntext
  au_clan :: ntext
  au_discriminator :: ntext
  au_primary_guild :: ntext
  au_username :: ntext
  au_publicFlags :: nint
  au_avatarDecorationData :: ntext
  au_globalName :: ntext

record attachment_in =
  att_id :: ntext
  att_filename :: ntext
  att_size :: nint
  att_url :: ntext
  att_proxy_url :: ntext
  att_height :: nint
  att_width :: nint

record 'j embed_in =
  embed_title :: ntext
  embed_type :: ntext
  embed_description :: ntext
  embed_url :: ntext
  embed_timestamp :: ntext
  embed_color :: nint
  embed_footer :: "'j option"
  embed_image :: "'j option"
  embed_thumbnail :: "'j option"
  embed_video :: "'j option"
  embed_provider :: "'j option"
  embed_fields :: "'j option"

record 'j component_in =
  comp_type :: nint
  comp_label :: ntext
  comp_style :: nint
  comp_custom_id :: ntext
  comp_url :: ntext
  comp_disabled :: "bool option"
  comp_emoji :: "'j option"

record 'j member_in =
  mem_avatar :: ntext
  mem_banner :: ntext
  mem_communication_disabled_until :: ntext
  mem_deaf :: "bool option"
  mem_flags :: nint
  mem_joined_at :: ntext
  mem_mute :: "bool option"
  mem_nick :: ntext
  mem_pending :: "bool option"
  mem_premium_since :: ntext
  mem_roles :: "'j option"

record mention_in =
  mention_id :: ntext
  mention_username :: ntext
  mention_discriminator :: ntext
  mention_avatar :: ntext
  mention_globalName :: ntext

record reference_in =
  ref_channel_id :: ntext
  ref_guild_id :: ntext
  ref_message_id :: ntext
  ref_type :: nint

record referenced_in =
  refMsg_id :: ntext
  refMsg_channel_id :: ntext
  refMsg_content :: ntext
  refMsg_edited_timestamp :: ntext
  refMsg_flags :: nint
  refMsg_mention_everyone :: "bool option"
  refMsg_pinned :: "bool option"
  refMsg_timestamp :: ntext
  refMsg_tts :: "bool option"
  refMsg_type :: nint

record 'j message_in =
  msg_id :: ntext
  msg_guild_id :: ntext
  msg_author :: "author_in option"
  msg_content :: ntext
  msg_edited_timestamp :: ntext
  msg_flags :: nint
  msg_nonce :: ntext
  msg_pinned :: "bool option"
  msg_timestamp :: ntext
  msg_tts :: "bool option"
  msg_type :: nint
  msg_attachments :: "attachment_in list option"
  msg_embeds :: "'j embed_in list option"
  msg_components :: "'j component_in list option"
  msg_member :: "'j member_in option"
  msg_mentions :: "mention_in list option"
  msg_message_reference :: "reference_in option"
  msg_referenced_message :: "referenced_in option"

text \<open>The body of \<^verbatim>\<open>POST /messages\<close>, destructured in the first line of the handler.\<close>

record 'j envelope =
  env_type :: ntext
  env_guildId :: ntext
  env_channelId :: ntext
  env_message :: "'j message_in option"
  env_optimistic :: "bool option"
  env_isPushNotification :: "bool option"

subsection \<open>Tables\<close>

text \<open>
  A row of \<^verbatim>\<open>messages\<close>. \<open>created_at\<close> is never bound by the INSERT statement, so it takes
  the column default \<^verbatim>\<open>CURRENT_TIMESTAMP\<close>: the clock reading \<open>now\<close> of the insertion.
\<close>

record message_row =
  m_id :: string
  event_type :: ntext
  guildId :: ntext
  channelId :: ntext
  message_guild_id :: ntext
  author_id :: ntext
  content :: ntext
  edited_timestamp :: ntext
  flags :: nint
  nonce :: ntext
  pinned :: int
  message_timestamp :: ntext
  tts :: int
  message_type :: nint
  optimistic :: int
  isPushNotification :: int
  created_at :: ntext

record author_row =
  a_id :: string
  a_avatar :: ntext
  a_clan :: ntext
  a_discriminator :: ntext
  a_primary_guild :: ntext
  a_username :: ntext
  a_publicFlags :: nint
  a_avatarDecorationData :: ntext
  a_globalName :: ntext

text \<open>
  A row of a child table is the parameter array bound to its INSERT statement, in the
  column order of that statement. A table with \<^verbatim>\<open>INTEGER PRIMARY KEY AUTOINCREMENT\<close> pairs
  each row with its key and remembers the largest key it has given out.
\<close>

type_synonym row = "cell list"

record autotable =
  rows :: "(nat \<times> row) list"
  seq :: nat

definition auto_insert :: "row \<Rightarrow> autotable \<Rightarrow> autotable" where
  "auto_insert r t = \<lparr>rows = rows t @ [(Suc (seq t), r)], seq = Suc (seq t)\<rparr>"

text \<open>
  \<^verbatim>\<open>INSERT OR REPLACE\<close>: the rows whose primary key equals that of the new row are deleted,
  then the new row is added. A NULL key conflicts with nothing.
\<close>

definition replace_into :: "('r \<Rightarrow> 'k option) \<Rightarrow> 'r \<Rightarrow> 'r list \<Rightarrow> 'r list" where
  "replace_into key r t = filter (\<lambda>x. \<not> sql_eq (key x) (key r)) t @ [r]"

fun cell_text :: "cell \<Rightarrow> ntext" where
  "cell_text (SqlText s) = Some s"
| "cell_text _ = None"

text \<open>The column at position \<open>n\<close> of a child row, as text (NULL when it is not text).\<close>

definition column :: "nat \<Rightarrow> row \<Rightarrow> ntext" where
  "column n r = (if n < length r then cell_text (r ! n) else None)"

record store =
  messages :: "message_row list"
  authors :: "author_row list"
  attachments :: autotable
  embeds :: autotable
  components :: autotable
  members :: "row list"
  mentions :: autotable
  message_references :: "row list"
  referenced_messages :: "row list"
  user_insights :: autotable

definition empty_table :: autotable where
  "empty_table = \<lparr>rows = [], seq = 0\<rparr>"

text \<open>The database after the \<^verbatim>\<open>CREATE TABLE IF NOT EXISTS\<close> block has run on a new file.\<close>

definition empty_store :: store where
  "empty_store = \<lparr>messages = [], authors = [], attachments = empty_table,
     embeds = empty_table, components = empty_table, members = [],
     mentions = empty_table, message_references = [], referenced_messages = [],
     user_insights = empty_table\<rparr>"

subsection \<open>\<^verbatim>\<open>POST /messages\<close>: ingestion\<close>

text \<open>
  The statements the handler issues with \<^verbatim>\<open>db.run\<close>. The list inserts carry the position
  of the item in its list.
\<close>

datatype stmt =
  AuthorUpsert | MessageUpsert
| AttachmentInsert nat | EmbedInsert nat | ComponentInsert nat | MemberUpsert
| MentionInsert nat | ReferenceUpsert | ReferencedUpsert

type_synonym faults = "stmt \<Rightarrow> string option"

text \<open>\<^verbatim>\<open>res.json({success: true})\<close>, or \<^verbatim>\<open>res.status(n).json({success: false, error})\<close>.\<close>

datatype ingest_response = Json_success | Json_failure nat string

definition authorValues :: "string \<Rightarrow> author_in \<Rightarrow> author_row" where
  "authorValues aid a =
     \<lparr>a_id = aid, a_avatar = au_avatar a, a_clan = au_clan a,
      a_discriminator = au_discriminator a, a_primary_guild = au_primary_guild a,
      a_username = au_username a, a_publicFlags = au_publicFlags a,
      a_avatarDecorationData = au_avatarDecorationData a, a_globalName = au_globalName a\<rparr>"

text \<open>\<^verbatim>\<open>message.author && message.author.id ? message.author.id : null\<close>\<close>

definition author_id_of :: "'j message_in \<Rightarrow> ntext" where
  "author_id_of message =
     (case msg_author message of
        None \<Rightarrow> None
      | Some a \<Rightarrow> if truthy_text (au_id a) then au_id a else None)"

definition msgValues :: "string \<Rightarrow> 'j envelope \<Rightarrow> 'j message_in \<Rightarrow> string \<Rightarrow> message_row" where
  "msgValues now body message mid =
     \<lparr>m_id = mid, event_type = env_type body, guildId = env_guildId body,
      channelId = env_channelId body, message_guild_id = msg_guild_id message,
      author_id = author_id_of message, content = msg_content message,
      edited_timestamp = msg_edited_timestamp message, flags = msg_flags message,
      nonce = msg_nonce message, pinned = one_or_zero (msg_pinned message),
      message_timestamp = msg_timestamp message, tts = one_or_zero (msg_tts message),
      message_type = msg_type message, optimistic = one_or_zero (env_optimistic body),
      isPushNotification = one_or_zero (env_isPushNotification body),
      created_at = Some now\<rparr>"

definition attachment_params :: "string \<Rightarrow> attachment_in \<Rightarrow> row" where
  "attachment_params mid att =
     [SqlText mid, text_or_null (att_id att), text_or_null (att_filename att),
      integer_or_null (att_size att), text_or_null (att_url att),
      text_or_null (att_proxy_url att), integer_or_null (att_height att),
      integer_or_null (att_width att)]"

definition embed_params :: "('j \<Rightarrow> string) \<Rightarrow> string \<Rightarrow> 'j embed_in \<Rightarrow> row" where
  "embed_params stringify mid e =
     [SqlText mid, text_or_null (embed_title e), text_or_null (embed_type e),
      text_or_null (embed_description e), text_or_null (embed_url e),
      text_or_null (embed_timestamp e), integer_or_null (embed_color e),
      json_or_null stringify (embed_footer e), json_or_null stringify (embed_image e),
      json_or_null stringify (embed_thumbnail e), json_or_null stringify (embed_video e),
      json_or_null stringify (embed_provider e), json_or_null stringify (embed_fields e)]"

definition component_params :: "('j \<Rightarrow> string) \<Rightarrow> string \<Rightarrow> 'j component_in \<Rightarrow> row" where
  "component_params stringify mid c =
     [SqlText mid, integer_or_null (comp_type c), text_or_null (comp_label c),
      integer_or_null (comp_style c), text_or_null (comp_custom_id c),
      text_or_null (comp_url c), SqlInt (one_or_zero (comp_disabled c)),
      json_or_null stringify (comp_emoji c)]"

definition member_params :: "('j \<Rightarrow> string) \<Rightarrow> string \<Rightarrow> 'j member_in \<Rightarrow> row" where
  "member_params stringify mid m =
     [SqlText mid, text_or_null (mem_avatar m), text_or_null (mem_banner m),
      text_or_null (mem_communication_disabled_until m),
      SqlInt (one_or_zero (mem_deaf m)), integer_or_null (mem_flags m),
      text_or_null (mem_joined_at m), SqlInt (one_or_zero (mem_mute m)),
      text_or_null (mem_nick m), SqlInt (one_or_zero (mem_pending m)),
      text_or_null (mem_premium_since m), json_or_null stringify (mem_roles m)]"

definition mention_params :: "string \<Rightarrow> mention_in \<Rightarrow> row" where
  "mention_params mid m =
     [SqlText mid, text_or_null (mention_id m), text_or_null (mention_username m),
      text_or_null (mention_discriminator m), text_or_null (mention_avatar m),
      text_or_null (mention_globalName m)]"

definition reference_params :: "string \<Rightarrow> reference_in \<Rightarrow> row" where
  "reference_params mid r =
     [SqlText mid, text_or_null (ref_channel_id r), text_or_null (ref_guild_id r),
      text_or_null (ref_message_id r), integer_or_null (ref_type r)]"

definition referenced_params :: "string \<Rightarrow> referenced_in \<Rightarrow> row" where
  "referenced_params mid r =
     [text_or_null (refMsg_id r), SqlText mid, text_or_null (refMsg_channel_id r),
      text_or_null (refMsg_content r), text_or_null (refMsg_edited_timestamp r),
      integer_or_null (refMsg_flags r),
      SqlInt (one_or_zero (refMsg_mention_everyone r)),
      SqlInt (one_or_zero (refMsg_pinned r)), text_or_null (refMsg_timestamp r),
      SqlInt (one_or_zero (refMsg_tts r)), integer_or_null (refMsg_type r)]"

text \<open>
  The database is used outside \<^verbatim>\<open>db.serialize\<close>: a statement given to \<^verbatim>\<open>db.run\<close> runs at
  some later moment, in no particular order with the other statements that are waiting,
  and its callback is called when it has run. The statements whose callback only prints
  are the author upsert and the statements issued for the children of a message. A \<open>job\<close>
  is such a statement, with its bound parameters and with the error it is going to meet,
  if any.
\<close>

datatype statement =
  Author_upsert author_row
| Attachment_insert row | Embed_insert row | Component_insert row | Member_upsert row
| Mention_insert row | Reference_upsert row | Referenced_upsert row

type_synonym job = "statement \<times> string option"

text \<open>
  What a statement does to the store when it runs without error. An \<^verbatim>\<open>INSERT\<close> into a table
  with an auto-increment key takes the next key at that moment.
\<close>

fun execute :: "statement \<Rightarrow> store \<Rightarrow> store" where
  "execute (Author_upsert r) db =
     db\<lparr>authors := replace_into (\<lambda>x. Some (a_id x)) r (authors db)\<rparr>"
| "execute (Attachment_insert r) db = db\<lparr>attachments := auto_insert r (attachments db)\<rparr>"
| "execute (Embed_insert r) db = db\<lparr>embeds := auto_insert r (embeds db)\<rparr>"
| "execute (Component_insert r) db = db\<lparr>components := auto_insert r (components db)\<rparr>"
| "execute (Member_upsert r) db = db\<lparr>members := replace_into (column 0) r (members db)\<rparr>"
| "execute (Mention_insert r) db = db\<lparr>mentions := auto_insert r (mentions db)\<rparr>"
| "execute (Reference_upsert r) db =
     db\<lparr>message_references := replace_into (column 0) r (message_references db)\<rparr>"
| "execute (Referenced_upsert r) db =
     db\<lparr>referenced_messages := replace_into (column 0) r (referenced_messages db)\<rparr>"

text \<open>The first argument of \<^verbatim>\<open>console.error\<close> in the callback of each statement.\<close>

fun error_prefix :: "statement \<Rightarrow> string" where
  "error_prefix (Author_upsert r) = ''Failed to insert/update author: ''"
| "error_prefix (Attachment_insert r) = ''Failed to insert attachment: ''"
| "error_prefix (Embed_insert r) = ''Failed to insert embed: ''"
| "error_prefix (Component_insert r) = ''Failed to insert component: ''"
| "error_prefix (Member_upsert r) = ''Failed to insert member: ''"
| "error_prefix (Mention_insert r) = ''Failed to insert mention: ''"
| "error_prefix (Reference_upsert r) = ''Failed to insert message reference: ''"
| "error_prefix (Referenced_upsert r) = ''Failed to insert referenced message: ''"

text \<open>
  What the callback prints when the statement has run without error: only the callback
  of the author upsert has an \<^verbatim>\<open>else\<close> branch.
\<close>

fun success_lines :: "statement \<Rightarrow> string list" where
  "success_lines (Author_upsert r) = [''Author record updated: '' @ a_id r]"
| "success_lines (Attachment_insert r) = []"
| "success_lines (Embed_insert r) = []"
| "success_lines (Component_insert r) = []"
| "success_lines (Member_upsert r) = []"
| "success_lines (Mention_insert r) = []"
| "success_lines (Reference_upsert r) = []"
| "success_lines (Referenced_upsert r) = []"

text \<open>\<^verbatim>\<open>if (message.author && message.author.id) db.run(INSERT OR REPLACE INTO authors ...)\<close>\<close>

definition author_jobs :: "faults \<Rightarrow> 'j message_in \<Rightarrow> job list" where
  "author_jobs fault message =
     (case msg_author message of
        None \<Rightarrow> []
      | Some a \<Rightarrow>
          (case au_id a of
             None \<Rightarrow> []
           | Some aid \<Rightarrow>
               if aid = [] then []
               else [(Author_upsert (authorValues aid a), fault AuthorUpsert)]))"

text \<open>
  \<^verbatim>\<open>if (Array.isArray(list)) list.forEach(item => db.run(INSERT ..., params, callback))\<close>:
  one statement per item, each with the fate of its own position in the list.
\<close>

definition each_job ::
  "(row \<Rightarrow> statement) \<Rightarrow> (nat \<Rightarrow> string option) \<Rightarrow> row list option \<Rightarrow> job list"
where
  "each_job mk fault list =
     (case list of
        None \<Rightarrow> []
      | Some rs \<Rightarrow> map (\<lambda>ir. (mk (snd ir), fault (fst ir))) (enumerate 0 rs))"

text \<open>\<^verbatim>\<open>if (x) db.run(INSERT OR REPLACE ..., params, callback)\<close>\<close>

definition one_job :: "(row \<Rightarrow> statement) \<Rightarrow> string option \<Rightarrow> row option \<Rightarrow> job list" where
  "one_job mk fault item = (case item of None \<Rightarrow> [] | Some r \<Rightarrow> [(mk r, fault)])"

text \<open>
  The statements that the callback of the message upsert issues after its error check, in
  the order in which it issues them.
\<close>

definition child_jobs :: "('j \<Rightarrow> string) \<Rightarrow> faults \<Rightarrow> string \<Rightarrow> 'j message_in \<Rightarrow> job list" where
  "child_jobs stringify fault mid message =
     each_job Attachment_insert (\<lambda>i. fault (AttachmentInsert i))
       (map_option (map (attachment_params mid)) (msg_attachments message))
     @ each_job Embed_insert (\<lambda>i. fault (EmbedInsert i))
         (map_option (map (embed_params stringify mid)) (msg_embeds message))
     @ each_job Component_insert (\<lambda>i. fault (ComponentInsert i))
         (map_option (map (component_params stringify mid)) (msg_components message))
     @ one_job Member_upsert (fault MemberUpsert)
         (map_option (member_params stringify mid) (msg_member message))
     @ each_job Mention_insert (\<lambda>i. fault (MentionInsert i))
         (map_option (map (mention_params mid)) (msg_mentions message))
     @ one_job Reference_upsert (fault ReferenceUpsert)
         (map_option (reference_params mid) (msg_message_reference message))
     @ one_job Referenced_upsert (fault ReferencedUpsert)
         (map_option (referenced_params mid) (msg_referenced_message message))"

text \<open>
  A statement that has been issued and has not run yet: a job, or the message upsert of a
  request, whose callback answers the request. The message upsert carries the row it
  writes, the error it is going to meet, and the jobs its callback issues when there is
  no error.
\<close>

datatype waiting =
  Background job
| Message_upsert message_row "string option" "job list"

text \<open>
  A statement that is waiting runs, and its callback is called. The result is the store,
  the lines printed, the response sent, and the jobs issued by the callback. A failing
  statement leaves the store as it is. The callback of the message upsert sends
  \<^verbatim>\<open>{success: true}\<close> once the statements of the children are issued, not once they have
  run.
\<close>

fun complete :: "waiting \<Rightarrow> store \<Rightarrow> store \<times> string list \<times> ingest_response option \<times> job list" where
  "complete (Background (s, Some e)) db = (db, [error_prefix s @ e], None, [])"
| "complete (Background (s, None)) db = (execute s db, success_lines s, None, [])"
| "complete (Message_upsert r (Some e) children) db =
     (db, [''Failed to insert message: '' @ e], Some (Json_failure 500 e), [])"
| "complete (Message_upsert r None children) db =
     (db\<lparr>messages := replace_into (\<lambda>x. Some (m_id x)) r (messages db)\<rparr>,
      [''Message record inserted: '' @ m_id r], Some Json_success, children)"

text \<open>
  The handler of \<^verbatim>\<open>POST /messages\<close>, up to its return: either it answers 400, or it issues
  the author upsert, if the message has an author with an id, and the message upsert.
  \<open>now\<close> is the reading of \<^verbatim>\<open>CURRENT_TIMESTAMP\<close> when the message row is written.
\<close>

definition post_messages ::
  "('j \<Rightarrow> string) \<Rightarrow> string \<Rightarrow> faults \<Rightarrow> 'j envelope \<Rightarrow> ingest_response option \<times> waiting list"
where
  "post_messages stringify now fault body =
     (case env_message body of
        None \<Rightarrow> (Some (Json_failure 400 ''Message object must contain an id''), [])
      | Some message \<Rightarrow>
          (case msg_id message of
             None \<Rightarrow> (Some (Json_failure 400 ''Message object must contain an id''), [])
           | Some mid \<Rightarrow>
               if mid = []
               then (Some (Json_failure 400 ''Message object must contain an id''), [])
               else
                 (None,
                  map Background (author_jobs fault message)
                  @ [Message_upsert (msgValues now body message mid) (fault MessageUpsert)
                       (child_jobs stringify fault mid message)])))"

subsection \<open>Queries\<close>

text \<open>
  The functions of the JavaScript runtime and the two services the server calls are
  parameters of the model: \<^verbatim>\<open>JSON.stringify\<close> (on a nested payload object, and on the
  list of transcript lines), \<^verbatim>\<open>new Date(s).getTime()\<close> (\<open>None\<close> for an invalid date),
  \<^verbatim>\<open>new Date(t).toISOString()\<close> (\<open>None\<close> where it throws a RangeError), the order in which
  \<^verbatim>\<open>Array.prototype.sort\<close> leaves an array when its comparator returns NaN (see \<open>js_sort\<close>
  below), the classifier behind \<^verbatim>\<open>axios.post\<close>, \<^verbatim>\<open>ollama.chat\<close> and
  \<^verbatim>\<open>JSON.parse(reply).tone\<close> (\<open>None\<close> where the call throws).
\<close>

record 'j externals =
  JSON_stringify :: "'j \<Rightarrow> string"
  JSON_stringify_lines :: "string list \<Rightarrow> string"
  Date_parse :: "string \<Rightarrow> int option"
  toISOString :: "int \<Rightarrow> string option"
  Array_sort :: "int option list \<Rightarrow> nat list"
  predict :: "string \<Rightarrow> string option"
  ollama_chat :: "string \<Rightarrow> string option"
  parse_tone :: "string \<Rightarrow> string option"

text \<open>The rows of \<^verbatim>\<open>SELECT m.*, a.username, a.avatar, a.globalName\<close>.\<close>

record joined_row = message_row +
  username :: ntext
  avatar :: ntext
  globalName :: ntext

text \<open>
  \<^verbatim>\<open>FROM messages m LEFT JOIN authors a ON m.author_id = a.id\<close>: a message row with every
  author row that matches it, or once with NULL author columns when none does.
\<close>

definition left_join :: "author_row list \<Rightarrow> message_row \<Rightarrow> joined_row list" where
  "left_join as m =
     (let matches = filter (\<lambda>a. sql_eq (author_id m) (Some (a_id a))) as
      in if matches = [] then [message_row.extend m (joined_row.fields None None None)]
         else map (\<lambda>a. message_row.extend m
                    (joined_row.fields (a_username a) (a_avatar a) (a_globalName a))) matches)"

definition select_joined :: "store \<Rightarrow> (message_row \<Rightarrow> bool) \<Rightarrow> joined_row list" where
  "select_joined db p = concat (map (left_join (authors db)) (filter p (messages db)))"

text \<open>
  \<^verbatim>\<open>db.all\<close> passes all the rows to its callback, \<^verbatim>\<open>db.get\<close> the first row or \<^verbatim>\<open>undefined\<close>;
  both pass the error of a failing query instead.
\<close>

datatype 'r rowset = Many "'r list" | First "'r option"

definition db_all :: "string option \<Rightarrow> 'r list \<Rightarrow> string + 'r list" where
  "db_all err rs = (case err of Some e \<Rightarrow> Inl e | None \<Rightarrow> Inr rs)"

definition db_get :: "string option \<Rightarrow> 'r list \<Rightarrow> string + 'r option" where
  "db_get err rs =
     (case err of Some e \<Rightarrow> Inl e | None \<Rightarrow> Inr (case rs of [] \<Rightarrow> None | r # _ \<Rightarrow> Some r))"

text \<open>
  \<^verbatim>\<open>ORDER BY c\<close> and \<^verbatim>\<open>ORDER BY c DESC\<close> on a text column: NULL sorts before every text,
  texts compare byte by byte. Rows with equal keys stay in table order.
\<close>

definition order_by :: "('r \<Rightarrow> ntext) \<Rightarrow> 'r list \<Rightarrow> 'r list" where
  "order_by c rs = sort_key c rs"

definition order_by_desc :: "('r \<Rightarrow> ntext) \<Rightarrow> 'r list \<Rightarrow> 'r list" where
  "order_by_desc c rs = rev (sort_key c (rev rs))"

text \<open>A failing read query of a handler is given by its position among the queries it issues.\<close>

type_synonym read_faults = "nat \<Rightarrow> string option"

subsection \<open>Context assembly: \<^verbatim>\<open>getMessageContext\<close> and \<^verbatim>\<open>getChatLog\<close>\<close>

record MessageContext =
  message :: joined_row
  channel_id :: ntext
  context_messages :: "joined_row list"
  context_message_count :: nat

definition getMessageContext :: "read_faults \<Rightarrow> store \<Rightarrow> string \<Rightarrow> string + MessageContext" where
  "getMessageContext err db messageId =
     (case db_get (err 0) (select_joined db (\<lambda>m. m_id m = messageId)) of
        Inl e \<Rightarrow> Inl (''Database error: '' @ e)
      | Inr None \<Rightarrow> Inl ''Message not found''
      | Inr (Some target) \<Rightarrow>
          (case db_all (err 1)
                  (take 20 (order_by message_timestamp
                     (select_joined db
                        (\<lambda>m. sql_eq (channelId m) (channelId target) \<and> m_id m \<noteq> messageId))))
           of
             Inl e \<Rightarrow> Inl (''Error fetching context messages: '' @ e)
           | Inr contextMessages \<Rightarrow>
               Inr \<lparr>message = target, channel_id = channelId target,
                    context_messages = contextMessages,
                    context_message_count = length contextMessages\<rparr>))"

text \<open>\<^verbatim>\<open>new Date(x).getTime()\<close> for a column value: \<^verbatim>\<open>null\<close> is the epoch, \<open>None\<close> is NaN.\<close>

definition getTime :: "'j externals \<Rightarrow> ntext \<Rightarrow> int option" where
  "getTime X ts = (case ts of None \<Rightarrow> Some 0 | Some s \<Rightarrow> Date_parse X s)"

text \<open>
  The comparator of the sort in \<^verbatim>\<open>getChatLog\<close> is negative exactly when both times are
  numbers and the first is smaller; a NaN difference counts as zero.
\<close>

definition earlier :: "'j externals \<Rightarrow> joined_row \<Rightarrow> joined_row \<Rightarrow> bool" where
  "earlier X a b =
     (case (getTime X (message_timestamp a), getTime X (message_timestamp b)) of
        (Some x, Some y) \<Rightarrow> x - y < 0
      | _ \<Rightarrow> False)"

text \<open>
  \<^verbatim>\<open>Array.prototype.sort\<close> with this comparator. The sort is stable, and when the comparator
  is a consistent comparator for the elements, the result is the array in ascending order,
  equal elements in their former order: the result of an insertion sort. A comparator
  that returns NaN for some pair is not a consistent comparator, and the difference of two
  times is NaN as soon as one of them is. So when the time of some element is NaN,
  ECMAScript leaves the order to the implementation: the result is some rearrangement of
  the array, which the runtime chooses from the times. The runtime gives it as a list of
  positions, one for each element: the elements are placed from the last to the first,
  each at its position among the elements already placed, counted from the left and
  modulo the number of places there are; an element that has no position is placed in
  front. Every rearrangement is given by some list of positions, and the empty list
  leaves the array as it is.
\<close>

fun insert_before :: "('a \<Rightarrow> 'a \<Rightarrow> bool) \<Rightarrow> 'a \<Rightarrow> 'a list \<Rightarrow> 'a list" where
  "insert_before lt x [] = [x]"
| "insert_before lt x (y # ys) = (if lt y x then y # insert_before lt x ys else x # y # ys)"

fun arrange :: "nat list \<Rightarrow> 'a list \<Rightarrow> 'a list" where
  "arrange ns [] = []"
| "arrange [] (x # xs) = x # arrange [] xs"
| "arrange (n # ns) (x # xs) =
     (let placed = arrange ns xs; k = n mod Suc (length placed)
      in take k placed @ x # drop k placed)"

definition js_sort :: "'j externals \<Rightarrow> joined_row list \<Rightarrow> joined_row list" where
  "js_sort X xs =
     (let times = map (\<lambda>msg. getTime X (message_timestamp msg)) xs in
      if list_all (\<lambda>t. t \<noteq> None) times then foldr (insert_before (earlier X)) xs []
      else arrange (Array_sort X times) xs)"

definition slice :: "nat \<Rightarrow> nat \<Rightarrow> string \<Rightarrow> string" where
  "slice a b s = take (b - a) (drop a s)"

definition substr :: "nat \<Rightarrow> nat \<Rightarrow> string \<Rightarrow> string" where
  "substr a n s = take n (drop a s)"

text \<open>A column value inside a template literal: \<^verbatim>\<open>null\<close> prints as \<^verbatim>\<open>null\<close>.\<close>

fun template :: "ntext \<Rightarrow> string" where
  "template None = ''null''"
| "template (Some s) = s"

text \<open>
  \<^verbatim>\<open>msg.created_at ? msg.created_at.slice(11, 16) : new Date(msg.message_timestamp).toISOString().substr(11, 5)\<close>;
  \<open>None\<close> when \<^verbatim>\<open>toISOString\<close> throws.
\<close>

definition timeString :: "'j externals \<Rightarrow> joined_row \<Rightarrow> string option" where
  "timeString X msg =
     (case created_at msg of
        Some c \<Rightarrow>
          if c \<noteq> [] then Some (slice 11 16 c)
          else map_option (substr 11 5)
                 (Option.bind (getTime X (message_timestamp msg)) (toISOString X))
      | None \<Rightarrow>
          map_option (substr 11 5)
            (Option.bind (getTime X (message_timestamp msg)) (toISOString X)))"

text \<open>\<^verbatim>\<open>msg.globalName || msg.username\<close>\<close>

definition display_name :: "joined_row \<Rightarrow> ntext" where
  "display_name msg = (if truthy_text (globalName msg) then globalName msg else username msg)"

definition log_line :: "'j externals \<Rightarrow> joined_row \<Rightarrow> string option" where
  "log_line X msg =
     map_option (\<lambda>t. ''['' @ t @ ''] '' @ template (display_name msg) @ '': ''
                       @ template (content msg))
       (timeString X msg)"

text \<open>
  \<^verbatim>\<open>getChatLog\<close>: anything thrown inside the \<^verbatim>\<open>try\<close> block (the rejection of
  \<^verbatim>\<open>getMessageContext\<close>, a RangeError while a line is rendered) ends in \<^verbatim>\<open>return []\<close>.
\<close>

definition getChatLog :: "'j externals \<Rightarrow> read_faults \<Rightarrow> store \<Rightarrow> string \<Rightarrow> string list" where
  "getChatLog X err db messageId =
     (case getMessageContext err db messageId of
        Inl ex \<Rightarrow> []
      | Inr ctx \<Rightarrow>
          (case those (map (log_line X) (js_sort X (context_messages ctx))) of
             None \<Rightarrow> []
           | Some logLines \<Rightarrow> logLines))"

subsection \<open>The read endpoints, numbered 1 to 12 in the source\<close>

text \<open>\<^verbatim>\<open>res.json(body)\<close>, or \<^verbatim>\<open>res.status(n).json({error})\<close>.\<close>

datatype 'a reply = Json 'a | Json_error nat string

definition respond_all :: "string option \<Rightarrow> 'r list \<Rightarrow> 'r rowset reply" where
  "respond_all err rs =
     (case db_all err rs of Inl e \<Rightarrow> Json_error 500 e | Inr found \<Rightarrow> Json (Many found))"

definition respond_get :: "string option \<Rightarrow> 'r list \<Rightarrow> 'r rowset reply" where
  "respond_get err rs =
     (case db_get err rs of Inl e \<Rightarrow> Json_error 500 e | Inr found \<Rightarrow> Json (First found))"

text \<open>\<^verbatim>\<open>SELECT * FROM t WHERE message_id = ?\<close> on a child table; the column is at position \<open>n\<close>.\<close>

definition of_message :: "nat \<Rightarrow> string \<Rightarrow> row \<Rightarrow> bool" where
  "of_message n messageId r = sql_eq (column n r) (Some messageId)"

definition select_auto :: "autotable \<Rightarrow> string \<Rightarrow> (nat \<times> row) list" where
  "select_auto t messageId = filter (\<lambda>kr. of_message 0 messageId (snd kr)) (rows t)"

definition get_messages :: "read_faults \<Rightarrow> store \<Rightarrow> joined_row rowset reply" where
  "get_messages err db =
     respond_all (err 0) (order_by_desc created_at (select_joined db (\<lambda>m. True)))"

datatype 'r slot = Slot_rows "'r list" | Slot_error string

definition slot :: "string option \<Rightarrow> 'r list \<Rightarrow> 'r slot" where
  "slot err rs = (case db_all err rs of Inl e \<Rightarrow> Slot_error e | Inr found \<Rightarrow> Slot_rows found)"

record message_detail =
  detail_message :: joined_row
  detail_attachments :: "(nat \<times> row) slot"
  detail_embeds :: "(nat \<times> row) slot"
  detail_components :: "(nat \<times> row) slot"
  detail_member :: "row slot"
  detail_mentions :: "(nat \<times> row) slot"
  detail_message_reference :: "row slot"
  detail_referenced_message :: "row slot"

definition get_message :: "read_faults \<Rightarrow> store \<Rightarrow> string \<Rightarrow> message_detail reply" where
  "get_message err db messageId =
     (case db_get (err 0) (select_joined db (\<lambda>m. m_id m = messageId)) of
        Inl e \<Rightarrow> Json_error 500 e
      | Inr None \<Rightarrow> Json_error 404 ''Message not found''
      | Inr (Some found) \<Rightarrow>
          Json \<lparr>detail_message = found,
                detail_attachments = slot (err 1) (select_auto (attachments db) messageId),
                detail_embeds = slot (err 2) (select_auto (embeds db) messageId),
                detail_components = slot (err 3) (select_auto (components db) messageId),
                detail_member = slot (err 4) (filter (of_message 0 messageId) (members db)),
                detail_mentions = slot (err 5) (select_auto (mentions db) messageId),
                detail_message_reference =
                  slot (err 6) (filter (of_message 0 messageId) (message_references db)),
                detail_referenced_message =
                  slot (err 7) (filter (of_message 1 messageId) (referenced_messages db))\<rparr>)"

definition get_messages_by_user :: "read_faults \<Rightarrow> store \<Rightarrow> string \<Rightarrow> joined_row rowset reply" where
  "get_messages_by_user err db userId =
     respond_all (err 0)
       (order_by_desc created_at (select_joined db (\<lambda>m. sql_eq (author_id m) (Some userId))))"

definition get_authors :: "read_faults \<Rightarrow> store \<Rightarrow> author_row rowset reply" where
  "get_authors err db = respond_all (err 0) (order_by a_username (authors db))"

definition get_author :: "read_faults \<Rightarrow> store \<Rightarrow> string \<Rightarrow> author_row reply" where
  "get_author err db authorId =
     (case db_get (err 0) (filter (\<lambda>a. a_id a = authorId) (authors db)) of
        Inl e \<Rightarrow> Json_error 500 e
      | Inr None \<Rightarrow> Json_error 404 ''Author not found''
      | Inr (Some found) \<Rightarrow> Json found)"

definition get_attachments :: "read_faults \<Rightarrow> store \<Rightarrow> string \<Rightarrow> (nat \<times> row) rowset reply" where
  "get_attachments err db messageId = respond_all (err 0) (select_auto (attachments db) messageId)"

definition get_embeds :: "read_faults \<Rightarrow> store \<Rightarrow> string \<Rightarrow> (nat \<times> row) rowset reply" where
  "get_embeds err db messageId = respond_all (err 0) (select_auto (embeds db) messageId)"

definition get_components :: "read_faults \<Rightarrow> store \<Rightarrow> string \<Rightarrow> (nat \<times> row) rowset reply" where
  "get_components err db messageId = respond_all (err 0) (select_auto (components db) messageId)"

definition get_member :: "read_faults \<Rightarrow> store \<Rightarrow> string \<Rightarrow> row rowset reply" where
  "get_member err db messageId =
     respond_get (err 0) (filter (of_message 0 messageId) (members db))"

definition get_mentions :: "read_faults \<Rightarrow> store \<Rightarrow> string \<Rightarrow> (nat \<times> row) rowset reply" where
  "get_mentions err db messageId = respond_all (err 0) (select_auto (mentions db) messageId)"

definition get_message_reference :: "read_faults \<Rightarrow> store \<Rightarrow> string \<Rightarrow> row rowset reply" where
  "get_message_reference err db messageId =
     respond_get (err 0) (filter (of_message 0 messageId) (message_references db))"

definition get_referenced_message :: "read_faults \<Rightarrow> store \<Rightarrow> string \<Rightarrow> row rowset reply" where
  "get_referenced_message err db messageId =
     respond_get (err 0) (filter (of_message 1 messageId) (referenced_messages db))"

subsection \<open>\<^verbatim>\<open>GET /messages/log/:messageId\<close> and \<^verbatim>\<open>GET /message-context/:messageId\<close>\<close>

definition get_log :: "'j externals \<Rightarrow> read_faults \<Rightarrow> store \<Rightarrow> string \<Rightarrow> string list" where
  "get_log X err db messageId = getChatLog X err db messageId"

definition get_message_context :: "read_faults \<Rightarrow> store \<Rightarrow> string \<Rightarrow> MessageContext reply" where
  "get_message_context err db messageId =
     (case getMessageContext err db messageId of
        Inl e \<Rightarrow> Json_error 500 e
      | Inr ctx \<Rightarrow> Json ctx)"

subsection \<open>The annotation bridges\<close>

text \<open>
  \<^verbatim>\<open>Array.prototype.join\<close> on an array of strings. The separator of the classifier bridge
  is \<^verbatim>\<open>"\n"\<close>, the string of the one character with code 10.
\<close>

fun join :: "string \<Rightarrow> string list \<Rightarrow> string" where
  "join sep [] = []"
| "join sep [x] = x"
| "join sep (x # y # ys) = x @ sep @ join sep (y # ys)"

text \<open>
  \<^verbatim>\<open>POST /messages/classifier\<close>, for a body whose \<^verbatim>\<open>text\<close> is an array of strings. The
  result is the \<^verbatim>\<open>text\<close> posted to the classifier and the response: the classifier's
  answer, or none when \<^verbatim>\<open>axios.post\<close> rejects (nothing catches the rejection).
\<close>

definition post_classifier :: "'j externals \<Rightarrow> string list \<Rightarrow> string \<times> string option" where
  "post_classifier X texts =
     (let splitMessages = join [CHR 0x0A] texts in (splitMessages, predict X splitMessages))"

definition tone_prompt :: "'j externals \<Rightarrow> string list \<Rightarrow> string" where
  "tone_prompt X chatLog =
     [CHR 0x0A, CHR 0x0A] @ replicate 12 (CHR '' '')
     @ ''Here is the context for the chat log for the conversation. ''
     @ ''Please return the tone for the last message in the chat log.''
     @ [CHR 0x0A] @ replicate 12 (CHR '' '') @ JSON_stringify_lines X chatLog
     @ [CHR 0x0A] @ replicate 8 (CHR '' '')"

text \<open>\<^verbatim>\<open>res.json({tone: JSON.parse(response.message.content).tone})\<close>, or \<^verbatim>\<open>res.json({tone: ""})\<close>.\<close>

datatype tone_response = Tone_value string | Tone_empty

text \<open>
  \<^verbatim>\<open>POST /messages/tone\<close>. \<open>queryMessage\<close> is the \<^verbatim>\<open>content\<close> of the message sent to the model.
  Without \<^verbatim>\<open>message\<close> in the body, \<^verbatim>\<open>message.message.id\<close> throws a TypeError inside the \<^verbatim>\<open>try\<close>
  block and nothing is sent. An id that is \<^verbatim>\<open>undefined\<close> or \<^verbatim>\<open>null\<close> matches no row, so
  \<^verbatim>\<open>getMessageContext\<close> rejects and the chat log is empty.
\<close>

definition queryMessage :: "'j externals \<Rightarrow> read_faults \<Rightarrow> store \<Rightarrow> 'j envelope \<Rightarrow> string option" where
  "queryMessage X err db body =
     (case env_message body of
        None \<Rightarrow> None
      | Some m \<Rightarrow>
          Some (tone_prompt X
                  (case msg_id m of None \<Rightarrow> [] | Some mid \<Rightarrow> getChatLog X err db mid)))"

definition post_tone :: "'j externals \<Rightarrow> read_faults \<Rightarrow> store \<Rightarrow> 'j envelope \<Rightarrow> tone_response" where
  "post_tone X err db body =
     (case queryMessage X err db body of
        None \<Rightarrow> Tone_empty
      | Some prompt \<Rightarrow>
          (case ollama_chat X prompt of
             None \<Rightarrow> Tone_empty
           | Some reply \<Rightarrow>
               (case parse_tone X reply of
                  None \<Rightarrow> Tone_empty
                | Some tone \<Rightarrow> Tone_value tone)))"

subsection \<open>User insights\<close>

text \<open>The rows of \<^verbatim>\<open>SELECT m.*, a.username, a.globalName\<close>.\<close>

record related_row = message_row +
  related_username :: ntext
  related_globalName :: ntext

definition left_join_names :: "author_row list \<Rightarrow> message_row \<Rightarrow> related_row list" where
  "left_join_names as m =
     (let matches = filter (\<lambda>a. sql_eq (author_id m) (Some (a_id a))) as
      in if matches = [] then [message_row.extend m (related_row.fields None None)]
         else map (\<lambda>a. message_row.extend m
                    (related_row.fields (a_username a) (a_globalName a))) matches)"

record context_bundle =
  bundle_message :: message_row
  related_messages :: "related_row list"

text \<open>\<^verbatim>\<open>n.toString()\<close> for a length.\<close>

fun toString :: "nat \<Rightarrow> string" where
  "toString n =
     (if n < 10 then [''0123456789'' ! n]
      else toString (n div 10) @ [''0123456789'' ! (n mod 10)])"

text \<open>
  \<^verbatim>\<open>fiveMinBefore\<close> and \<^verbatim>\<open>fiveMinAfter\<close>; \<open>None\<close> when \<^verbatim>\<open>toISOString\<close> throws, which it does
  on an invalid date.
\<close>

definition window :: "'j externals \<Rightarrow> message_row \<Rightarrow> (string \<times> string) option" where
  "window X msg =
     (case getTime X (message_timestamp msg) of
        None \<Rightarrow> None
      | Some t \<Rightarrow>
          (case toISOString X (t - 5 * 60 * 1000) of
             None \<Rightarrow> None
           | Some fiveMinBefore \<Rightarrow>
               (case toISOString X (t + 5 * 60 * 1000) of
                  None \<Rightarrow> None
                | Some fiveMinAfter \<Rightarrow> Some (fiveMinBefore, fiveMinAfter))))"

text \<open>\<^verbatim>\<open>c BETWEEN lo AND hi\<close> on a text column.\<close>

definition between :: "ntext \<Rightarrow> string \<Rightarrow> string \<Rightarrow> bool" where
  "between c lo hi = (case c of None \<Rightarrow> False | Some t \<Rightarrow> lo \<le> t \<and> t \<le> hi)"

definition related_query :: "store \<Rightarrow> message_row \<Rightarrow> string \<Rightarrow> string \<Rightarrow> related_row list" where
  "related_query db msg lo hi =
     order_by message_timestamp
       (concat (map (left_join_names (authors db))
          (filter (\<lambda>m. sql_eq (channelId m) (channelId msg)
                        \<and> between (message_timestamp m) lo hi \<and> m_id m \<noteq> m_id msg)
             (messages db))))"

text \<open>
  The \<^verbatim>\<open>for\<close> loop over the user's messages; query \<open>i\<close> of the handler is the window query
  of the message at position \<open>i - 1\<close>. The first exception ends the loop.
\<close>

fun related_loop ::
  "'j externals \<Rightarrow> read_faults \<Rightarrow> store \<Rightarrow> nat \<Rightarrow> message_row list \<Rightarrow> string + context_bundle list"
where
  "related_loop X err db i [] = Inr []"
| "related_loop X err db i (msg # rest) =
     (case window X msg of
        None \<Rightarrow> Inl ''Invalid time value''
      | Some (lo, hi) \<Rightarrow>
          (case db_all (err i) (related_query db msg lo hi) of
             Inl e \<Rightarrow> Inl e
           | Inr relatedMessages \<Rightarrow>
               (case related_loop X err db (Suc i) rest of
                  Inl e \<Rightarrow> Inl e
                | Inr bundles \<Rightarrow>
                    Inr (\<lparr>bundle_message = msg, related_messages = relatedMessages\<rparr>
                         # bundles))))"

text \<open>
  The two bodies of \<^verbatim>\<open>POST /user_insights/generate/:user_id\<close>: the zero-count answer, and
  \<^verbatim>\<open>{user_id, message_count, insights, messages}\<close>.
\<close>

datatype generated =
  No_messages string
| Generated string nat "(string \<times> string) list" "context_bundle list"

definition post_user_insights ::
  "'j externals \<Rightarrow> read_faults \<Rightarrow> store \<Rightarrow> string \<Rightarrow> generated reply"
where
  "post_user_insights X err db userId =
     (case db_all (err 0) (filter (\<lambda>m. sql_eq (author_id m) (Some userId)) (messages db)) of
        Inl e \<Rightarrow> Json_error 500 e
      | Inr userMessages \<Rightarrow>
          if length userMessages = 0 then Json (No_messages userId)
          else
            (case related_loop X err db 1 userMessages of
               Inl e \<Rightarrow> Json_error 500 e
             | Inr messageWithContext \<Rightarrow>
                 Json (Generated userId (length userMessages)
                   [(''message_count'', toString (length userMessages)),
                    (''channels_posted_in'',
                       toString (length (remdups (map channelId userMessages))))]
                   (take 20 messageWithContext))))"

text \<open>
  The two bodies of \<^verbatim>\<open>GET /user_insights/generate/:user_id\<close>: \<^verbatim>\<open>{user_id, insights: [], message}\<close>
  and \<^verbatim>\<open>{user_id, insights: rows}\<close>. A row of \<^verbatim>\<open>user_insights\<close> holds \<^verbatim>\<open>user_id\<close>,
  \<^verbatim>\<open>insight_name\<close> and \<^verbatim>\<open>insight_value\<close>, in this order.
\<close>

datatype stored = No_insights string | Stored string "(nat \<times> row) list"

definition get_user_insights :: "read_faults \<Rightarrow> store \<Rightarrow> string \<Rightarrow> stored reply" where
  "get_user_insights err db userId =
     (case db_all (err 0)
             (order_by (\<lambda>kr. column 1 (snd kr)) (select_auto (user_insights db) userId)) of
        Inl e \<Rightarrow> Json_error 500 e
      | Inr found \<Rightarrow>
          if length found = 0 then Json (No_insights userId) else Json (Stored userId found))"

subsection \<open>The server as a whole\<close>

datatype 'j request =
  POST_messages "'j envelope"
| GET_messages
| GET_message string
| GET_log string
| GET_messages_by_user string
| GET_authors
| GET_author string
| GET_attachments string
| GET_embeds string
| GET_components string
| GET_member string
| GET_mentions string
| GET_message_reference string
| GET_referenced_message string
| GET_message_context string
| POST_classifier "string list"
| POST_tone "'j envelope"
| POST_user_insights string
| GET_user_insights string

datatype response =
  Ingested ingest_response
| Joined_rows "joined_row rowset reply"
| Detail "message_detail reply"
| Lines "string list"
| Author_rows "author_row rowset reply"
| Author "author_row reply"
| Keyed_rows "(nat \<times> row) rowset reply"
| Plain_rows "row rowset reply"
| Context "MessageContext reply"
| Classified string "string option"
| Tone tone_response
| Insights_generated "generated reply"
| Insights_stored "stored reply"

text \<open>
  What the handler of a request answers and which statements it leaves to run. Besides
  the request, a handler takes what it cannot choose: the clock reading and the statements
  that fail. \<^verbatim>\<open>POST /messages\<close> is the only handler that issues a statement other than
  SELECT; when its body is valid, its answer is sent by the callback of the message upsert.
\<close>

record circumstances =
  clock :: string
  write_faults :: faults
  query_faults :: read_faults

definition handle ::
  "'j externals \<Rightarrow> circumstances \<Rightarrow> store \<Rightarrow> 'j request \<Rightarrow> response option \<times> waiting list"
where
  "handle X c db req =
     (let err = query_faults c in
      case req of
        POST_messages body \<Rightarrow>
          (case post_messages (JSON_stringify X) (clock c) (write_faults c) body of
             (res, issued) \<Rightarrow> (map_option Ingested res, issued))
      | GET_messages \<Rightarrow> (Some (Joined_rows (get_messages err db)), [])
      | GET_message i \<Rightarrow> (Some (Detail (get_message err db i)), [])
      | GET_log i \<Rightarrow> (Some (Lines (get_log X err db i)), [])
      | GET_messages_by_user u \<Rightarrow> (Some (Joined_rows (get_messages_by_user err db u)), [])
      | GET_authors \<Rightarrow> (Some (Author_rows (get_authors err db)), [])
      | GET_author a \<Rightarrow> (Some (Author (get_author err db a)), [])
      | GET_attachments i \<Rightarrow> (Some (Keyed_rows (get_attachments err db i)), [])
      | GET_embeds i \<Rightarrow> (Some (Keyed_rows (get_embeds err db i)), [])
      | GET_components i \<Rightarrow> (Some (Keyed_rows (get_components err db i)), [])
      | GET_member i \<Rightarrow> (Some (Plain_rows (get_member err db i)), [])
      | GET_mentions i \<Rightarrow> (Some (Keyed_rows (get_mentions err db i)), [])
      | GET_message_reference i \<Rightarrow> (Some (Plain_rows (get_message_reference err db i)), [])
      | GET_referenced_message i \<Rightarrow> (Some (Plain_rows (get_referenced_message err db i)), [])
      | GET_message_context i \<Rightarrow> (Some (Context (get_message_context err db i)), [])
      | POST_classifier texts \<Rightarrow>
          (case post_classifier X texts of (sent, res) \<Rightarrow> (Some (Classified sent res), []))
      | POST_tone body \<Rightarrow> (Some (Tone (post_tone X err db body)), [])
      | POST_user_insights u \<Rightarrow> (Some (Insights_generated (post_user_insights X err db u)), [])
      | GET_user_insights u \<Rightarrow> (Some (Insights_stored (get_user_insights err db u)), []))"

text \<open>
  The server between two events: the database, the statements that are issued and have
  not run, in the order of their issue, and the lines that the callbacks of the statements
  of \<^verbatim>\<open>POST /messages\<close> have printed. An event is a request that arrives, or the completion
  of the statement at some position among those waiting: the statement runs, its callback
  prints, answers if it is a message upsert, and issues the statements of the children. A
  new server starts on an empty database.
\<close>

record server =
  database :: store
  queue :: "waiting list"
  printed :: "string list"

datatype 'j event = Request circumstances "'j request" | Completion nat

definition start :: server where
  "start = \<lparr>database = empty_store, queue = [], printed = []\<rparr>"

definition step :: "'j externals \<Rightarrow> server \<Rightarrow> 'j event \<Rightarrow> server \<times> response option" where
  "step X S ev =
     (case ev of
        Request c req \<Rightarrow>
          (case handle X c (database S) req of
             (res, issued) \<Rightarrow> (S\<lparr>queue := queue S @ issued\<rparr>, res))
      | Completion n \<Rightarrow>
          if n < length (queue S)
          then
            (case complete (queue S ! n) (database S) of
               (db', lines, res, issued) \<Rightarrow>
                 (\<lparr>database = db',
                   queue = take n (queue S) @ drop (Suc n) (queue S) @ map Background issued,
                   printed = printed S @ lines\<rparr>,
                  map_option Ingested res))
          else (S, None))"

text \<open>The server after a sequence of events.\<close>

fun serve :: "'j externals \<Rightarrow> server \<Rightarrow> 'j event list \<Rightarrow> server" where
  "serve X S [] = S"
| "serve X S (ev # rest) = serve X (fst (step X S ev)) rest"

subsection \<open>Notions used to state the properties\<close>

text \<open>
  The items of a list whose INSERT does not fail; positions are counted from \<open>i\<close>. \<open>items\<close>
  reads a list field of a payload: a field that is not an array contributes nothing.
\<close>

fun succeeding :: "(nat \<Rightarrow> string option) \<Rightarrow> nat \<Rightarrow> 'a list \<Rightarrow> 'a list" where
  "succeeding fault i [] = []"
| "succeeding fault i (x # xs) =
     (if fault i = None then x # succeeding fault (Suc i) xs else succeeding fault (Suc i) xs)"

fun items :: "'a list option \<Rightarrow> 'a list" where
  "items None = []"
| "items (Some xs) = xs"

text \<open>
  The four child tables with an auto-increment key. For each of them: the table in the
  store, the row that a statement inserts into it, the fate of the INSERT of the item at a
  position, and the rows that the handler binds for the items of a message.
\<close>

datatype child_table = Attachments | Embeds | Components | Mentions

fun table_of :: "child_table \<Rightarrow> store \<Rightarrow> autotable" where
  "table_of Attachments db = attachments db"
| "table_of Embeds db = embeds db"
| "table_of Components db = components db"
| "table_of Mentions db = mentions db"

fun inserted :: "child_table \<Rightarrow> statement \<Rightarrow> row option" where
  "inserted Attachments (Attachment_insert r) = Some r"
| "inserted Embeds (Embed_insert r) = Some r"
| "inserted Components (Component_insert r) = Some r"
| "inserted Mentions (Mention_insert r) = Some r"
| "inserted T s = None"

fun fault_at :: "faults \<Rightarrow> child_table \<Rightarrow> nat \<Rightarrow> string option" where
  "fault_at fault Attachments i = fault (AttachmentInsert i)"
| "fault_at fault Embeds i = fault (EmbedInsert i)"
| "fault_at fault Components i = fault (ComponentInsert i)"
| "fault_at fault Mentions i = fault (MentionInsert i)"

fun child_rows :: "('j \<Rightarrow> string) \<Rightarrow> string \<Rightarrow> 'j message_in \<Rightarrow> child_table \<Rightarrow> row list" where
  "child_rows stringify mid m Attachments =
     map (attachment_params mid) (items (msg_attachments m))"
| "child_rows stringify mid m Embeds =
     map (embed_params stringify mid) (items (msg_embeds m))"
| "child_rows stringify mid m Components =
     map (component_params stringify mid) (items (msg_components m))"
| "child_rows stringify mid m Mentions =
     map (mention_params mid) (items (msg_mentions m))"

text \<open>The rows of a table with an auto-increment key, without their keys and in any order.\<close>

definition payloads :: "autotable \<Rightarrow> row multiset" where
  "payloads t = mset (map snd (rows t))"

text \<open>
  The rows that the statements waiting are going to add to a child table: the row of every
  job on this table that is not going to fail, also of the jobs that a message upsert
  waiting is going to issue. \<open>rows_due\<close> counts the rows that are in the table together with
  the rows that are going to be added.
\<close>

fun owed_by :: "child_table \<Rightarrow> job \<Rightarrow> row multiset" where
  "owed_by T (s, Some e) = {#}"
| "owed_by T (s, None) = (case inserted T s of None \<Rightarrow> {#} | Some r \<Rightarrow> {#r#})"

fun owed_of :: "child_table \<Rightarrow> waiting \<Rightarrow> row multiset" where
  "owed_of T (Background j) = owed_by T j"
| "owed_of T (Message_upsert r (Some e) children) = {#}"
| "owed_of T (Message_upsert r None children) = sum_list (map (owed_by T) children)"

definition owed :: "child_table \<Rightarrow> waiting list \<Rightarrow> row multiset" where
  "owed T q = sum_list (map (owed_of T) q)"

definition rows_due :: "child_table \<Rightarrow> server \<Rightarrow> row multiset" where
  "rows_due T S = payloads (table_of T (database S)) + owed T (queue S)"

text \<open>
  The lines that the callbacks of the statements waiting are going to print. \<open>lines_due\<close>
  counts the lines that are printed together with the lines that are going to be.
\<close>

fun job_lines :: "job \<Rightarrow> string list" where
  "job_lines (s, Some e) = [error_prefix s @ e]"
| "job_lines (s, None) = success_lines s"

fun waiting_lines :: "waiting \<Rightarrow> string list" where
  "waiting_lines (Background j) = job_lines j"
| "waiting_lines (Message_upsert r (Some e) children) = [''Failed to insert message: '' @ e]"
| "waiting_lines (Message_upsert r None children) =
     (''Message record inserted: '' @ m_id r) # concat (map job_lines children)"

definition to_print :: "waiting list \<Rightarrow> string multiset" where
  "to_print q = mset (concat (map waiting_lines q))"

definition lines_due :: "server \<Rightarrow> string multiset" where
  "lines_due S = mset (printed S) + to_print (queue S)"

text \<open>Every request so far has been answered: no message upsert is waiting.\<close>

fun is_job :: "waiting \<Rightarrow> bool" where
  "is_job (Background j) = True"
| "is_job (Message_upsert r e children) = False"

definition answered :: "server \<Rightarrow> bool" where
  "answered S = list_all is_job (queue S)"

text \<open>Payloads for the examples: JSON objects without any field, and an oracle without faults.\<close>

definition blank_attachment :: attachment_in where
  "blank_attachment = \<lparr>att_id = None, att_filename = None, att_size = None, att_url = None,
     att_proxy_url = None, att_height = None, att_width = None\<rparr>"

definition blank_message :: "unit message_in" where
  "blank_message = \<lparr>msg_id = None, msg_guild_id = None, msg_author = None, msg_content = None,
     msg_edited_timestamp = None, msg_flags = None, msg_nonce = None, msg_pinned = None,
     msg_timestamp = None, msg_tts = None, msg_type = None, msg_attachments = None,
     msg_embeds = None, msg_components = None, msg_member = None, msg_mentions = None,
     msg_message_reference = None, msg_referenced_message = None\<rparr>"

definition blank_envelope :: "unit envelope" where
  "blank_envelope = \<lparr>env_type = None, env_guildId = None, env_channelId = None,
     env_message = None, env_optimistic = None, env_isPushNotification = None\<rparr>"

definition no_fault :: "'a \<Rightarrow> string option" where
  "no_fault x = None"

definition stringify_unit :: "unit \<Rightarrow> string" where
  "stringify_unit j = ''{}''"

text \<open>
  A runtime whose dates are all invalid and whose services do not answer, and the
  circumstances of a request at a given moment, without faults.
\<close>

definition plain_runtime :: "unit externals" where
  "plain_runtime = \<lparr>JSON_stringify = stringify_unit, JSON_stringify_lines = concat,
     Date_parse = (\<lambda>s. None), toISOString = (\<lambda>t. None), Array_sort = (\<lambda>ts. []),
     predict = (\<lambda>s. None), ollama_chat = (\<lambda>s. None), parse_tone = (\<lambda>s. None)\<rparr>"

definition at_time :: "string \<Rightarrow> circumstances" where
  "at_time now = \<lparr>clock = now, write_faults = no_fault, query_faults = no_fault\<rparr>"

definition first_message :: "unit message_in" where
  "first_message = blank_message\<lparr>msg_id := Some ''m1'', msg_content := Some ''first'',
     msg_attachments := Some [blank_attachment\<lparr>att_filename := Some ''a.png''\<rparr>]\<rparr>"

definition second_message :: "unit message_in" where
  "second_message = blank_message\<lparr>msg_id := Some ''m1'', msg_content := Some ''second'',
     msg_attachments := Some [blank_attachment\<lparr>att_filename := Some ''b.png''\<rparr>]\<rparr>"

definition first_post :: "unit envelope" where
  "first_post = blank_envelope\<lparr>env_channelId := Some ''c1'', env_message := Some first_message\<rparr>"

definition second_post :: "unit envelope" where
  "second_post = blank_envelope\<lparr>env_channelId := Some ''c1'', env_message := Some second_message\<rparr>"

text \<open>
  The message \<open>m1\<close> is ingested twice. The first request is answered and its attachment
  statement is still waiting when the second request arrives; then the message upsert of
  the second request runs, then its attachment statement, then the one of the first
  request.
\<close>

definition first_ingestion :: "unit event list" where
  "first_ingestion =
     Request (at_time ''2025-01-01 10:00:00'') (POST_messages first_post) # map Completion [0]"

definition second_ingestion :: "unit event list" where
  "second_ingestion =
     Request (at_time ''2025-01-01 10:05:00'') (POST_messages second_post)
     # map Completion [1, 1, 0]"

text \<open>Circumstances in which every statement fails.\<close>

definition always_failing :: circumstances where
  "always_failing = \<lparr>clock = ''2025-01-01 10:00:00'',
     write_faults = (\<lambda>s. Some ''disk I/O error''), query_faults = (\<lambda>n. Some ''disk I/O error'')\<rparr>"

text \<open>A message with two attachments, and an oracle that fails the INSERT of the first.\<close>

definition two_attachments :: "unit message_in" where
  "two_attachments = blank_message\<lparr>msg_id := Some ''m2'',
     msg_attachments := Some [blank_attachment\<lparr>att_filename := Some ''a.png''\<rparr>,
                              blank_attachment\<lparr>att_filename := Some ''b.png''\<rparr>]\<rparr>"

definition first_attachment_fails :: faults where
  "first_attachment_fails s = (if s = AttachmentInsert 0 then Some ''disk I/O error'' else None)"

definition two_attachments_post :: "unit envelope" where
  "two_attachments_post = blank_envelope\<lparr>env_message := Some two_attachments\<rparr>"

definition attachment_fails :: circumstances where
  "attachment_fails = \<lparr>clock = ''2025-01-01 10:00:00'', write_faults = first_attachment_fails,
     query_faults = no_fault\<rparr>"

text \<open>
  The request arrives and its message upsert runs; then the INSERT of the second
  attachment runs, then the INSERT of the first, which fails.
\<close>

definition failing_ingestion :: "unit event list" where
  "failing_ingestion =
     Request attachment_fails (POST_messages two_attachments_post) # map Completion [0, 1, 0]"

text \<open>
  A channel with three messages, ingested out of order: the message of 10:10 first, then
  the message of 10:00, then the message of 10:01; the author upsert and the message
  upsert of each request run before the next request arrives. Ann has a global display
  name, Bob has none.
\<close>

definition blank_author :: author_in where
  "blank_author = \<lparr>au_id = None, au_avatar = None, au_clan = None, au_discriminator = None,
     au_primary_guild = None, au_username = None, au_publicFlags = None,
     au_avatarDecorationData = None, au_globalName = None\<rparr>"

definition ann :: author_in where
  "ann = blank_author\<lparr>au_id := Some ''A1'', au_avatar := Some ''ann.png'',
     au_username := Some ''ann'', au_globalName := Some ''Ann''\<rparr>"

definition bob :: author_in where
  "bob = blank_author\<lparr>au_id := Some ''B1'', au_username := Some ''bob''\<rparr>"

definition chat_message :: "string \<Rightarrow> string \<Rightarrow> author_in \<Rightarrow> string \<Rightarrow> unit message_in" where
  "chat_message i t a c = blank_message\<lparr>msg_id := Some i, msg_timestamp := Some t,
     msg_author := Some a, msg_content := Some c\<rparr>"

definition chat_post :: "string \<Rightarrow> string \<Rightarrow> author_in \<Rightarrow> string \<Rightarrow> unit envelope" where
  "chat_post i t a c = blank_envelope\<lparr>env_channelId := Some ''C'',
     env_message := Some (chat_message i t a c)\<rparr>"

definition late_post :: "unit envelope" where
  "late_post = chat_post ''late'' ''2025-01-01T10:10:00.000Z'' ann ''bye''"

definition early_post :: "unit envelope" where
  "early_post = chat_post ''early'' ''2025-01-01T10:00:00.000Z'' bob ''hi''"

definition mid_post :: "unit envelope" where
  "mid_post = chat_post ''mid'' ''2025-01-01T10:01:00.000Z'' ann ''hello''"

definition channel_store :: store where
  "channel_store =
     database (serve plain_runtime start
       [Request (at_time ''2025-01-01 10:12:01'') (POST_messages late_post),
        Completion 0, Completion 0,
        Request (at_time ''2025-01-01 10:12:02'') (POST_messages early_post),
        Completion 0, Completion 0,
        Request (at_time ''2025-01-01 10:12:03'') (POST_messages mid_post),
        Completion 0, Completion 0])"

definition late_row :: message_row where
  "late_row = msgValues ''2025-01-01 10:12:01'' late_post
     (chat_message ''late'' ''2025-01-01T10:10:00.000Z'' ann ''bye'') ''late''"

definition early_row :: message_row where
  "early_row = msgValues ''2025-01-01 10:12:02'' early_post
     (chat_message ''early'' ''2025-01-01T10:00:00.000Z'' bob ''hi'') ''early''"

definition mid_row :: message_row where
  "mid_row = msgValues ''2025-01-01 10:12:03'' mid_post
     (chat_message ''mid'' ''2025-01-01T10:01:00.000Z'' ann ''hello'') ''mid''"

text \<open>
  The store in which the rows with id \<open>i\<close> have the content \<open>c\<close>, or the timestamp \<open>t\<close>,
  and nothing else differs.
\<close>

definition with_timestamp :: "string \<Rightarrow> ntext \<Rightarrow> store \<Rightarrow> store" where
  "with_timestamp i t db =
     db\<lparr>messages :=
          map (\<lambda>m. if m_id m = i then m\<lparr>message_timestamp := t\<rparr> else m) (messages db)\<rparr>"

definition with_content :: "string \<Rightarrow> ntext \<Rightarrow> store \<Rightarrow> store" where
  "with_content i c db =
     db\<lparr>messages := map (\<lambda>m. if m_id m = i then m\<lparr>content := c\<rparr> else m) (messages db)\<rparr>"

text \<open>
  The same channel with rows that have no \<^verbatim>\<open>created_at\<close>, and a runtime that reads and
  prints the three timestamps of the channel, and prints the moments five minutes before
  and after the last of them.
\<close>

definition legacy_store :: store where
  "legacy_store =
     channel_store\<lparr>messages := map (\<lambda>m. m\<lparr>created_at := None\<rparr>) (messages channel_store)\<rparr>"

definition iso_runtime :: "unit externals" where
  "iso_runtime = plain_runtime\<lparr>
     Date_parse := (\<lambda>s.
       if s = ''2025-01-01T10:00:00.000Z'' then Some 1735725600000
       else if s = ''2025-01-01T10:01:00.000Z'' then Some 1735725660000
       else if s = ''2025-01-01T10:10:00.000Z'' then Some 1735726200000
       else None),
     toISOString := (\<lambda>t.
       if t = 1735725600000 then Some ''2025-01-01T10:00:00.000Z''
       else if t = 1735725660000 then Some ''2025-01-01T10:01:00.000Z''
       else if t = 1735726200000 then Some ''2025-01-01T10:10:00.000Z''
       else if t = 1735725900000 then Some ''2025-01-01T10:05:00.000Z''
       else if t = 1735726500000 then Some ''2025-01-01T10:15:00.000Z''
       else None)\<rparr>"

text \<open>A store with one message and its attachment.\<close>

definition lonely_store :: store where
  "lonely_store =
     database (serve plain_runtime start
       [Request (at_time ''2025-01-01 10:00:00'') (POST_messages first_post),
        Completion 0, Completion 0])"

text \<open>
  A sequence of events without faults: an ingestion whose statements run, then the two
  insight endpoints.
\<close>

definition calm :: circumstances where
  "calm = \<lparr>clock = ''2025-01-01 10:12:01'', write_faults = no_fault, query_faults = no_fault\<rparr>"

definition busy_day :: "unit event list" where
  "busy_day = [Request calm (POST_messages late_post), Completion 0, Completion 0,
     Request calm (POST_user_insights ''A1''), Request calm (GET_user_insights ''A1'')]"

section \<open>Properties\<close>

subsection \<open>Ingestion\<close>

lemma rows_auto_insert: "rows (auto_insert r t) = rows t @ [(Suc (seq t), r)]"
  by (simp add: auto_insert_def)

lemma execute_messages: "messages (execute s db) = messages db"
  by (cases s) simp_all

lemma execute_user_insights: "user_insights (execute s db) = user_insights db"
  by (cases s) simp_all

lemma execute_prefix: "prefix (rows (table_of T db)) (rows (table_of T (execute s db)))"
  by (cases s; cases T) (simp_all add: rows_auto_insert)

lemma execute_payloads:
  "payloads (table_of T (execute s db)) = payloads (table_of T db) + owed_by T (s, None)"
  by (cases s; cases T) (simp_all add: payloads_def rows_auto_insert)

lemma complete_user_insights: "user_insights (fst (complete t db)) = user_insights db"
  by (induction t db rule: complete.induct) (simp_all add: execute_user_insights)

lemma complete_prefix:
  "prefix (rows (table_of T db)) (rows (table_of T (fst (complete t db))))"
  by (induction t db rule: complete.induct) (simp_all add: execute_prefix, (cases T; simp)+)

lemma complete_job_messages: "is_job t \<Longrightarrow> messages (fst (complete t db)) = messages db"
  by (induction t db rule: complete.induct) (simp_all add: execute_messages)

lemma complete_job_issues: "is_job t \<Longrightarrow> snd (snd (snd (complete t db))) = []"
  by (induction t db rule: complete.induct) simp_all

lemma owed_Background: "owed T (map Background js) = sum_list (map (owed_by T) js)"
  by (simp add: owed_def comp_def)

lemma to_print_Background: "to_print (map Background js) = mset (concat (map job_lines js))"
  by (simp add: to_print_def comp_def)

lemma complete_rows_due:
  "payloads (table_of T (fst (complete t db)))
     + owed T (map Background (snd (snd (snd (complete t db)))))
   = payloads (table_of T db) + owed_of T t"
  by (induction t db rule: complete.induct)
     (simp_all add: execute_payloads owed_Background, (cases T; simp add: owed_def)+)

lemma complete_lines_due:
  "mset (fst (snd (complete t db))) + to_print (map Background (snd (snd (snd (complete t db)))))
   = mset (waiting_lines t)"
  by (induction t db rule: complete.induct) (simp_all add: to_print_Background, simp_all add: to_print_def)

lemma sum_list_without_nth:
  fixes f :: "'a \<Rightarrow> 'b multiset"
  assumes "n < length q"
  shows "sum_list (map f (take n q @ drop (Suc n) q)) + f (q ! n) = sum_list (map f q)"
proof -
  have "sum_list (map f q) = sum_list (map f (take n q @ q ! n # drop (Suc n) q))"
    using assms by (simp only: id_take_nth_drop [symmetric])
  then show ?thesis
    by (simp add: ac_simps)
qed

lemma step_Request:
  "step X S (Request c req) =
     (S\<lparr>queue := queue S @ snd (handle X c (database S) req)\<rparr>, fst (handle X c (database S) req))"
  by (simp add: step_def split_beta)

lemma step_Completion:
  "n < length (queue S) \<Longrightarrow>
   step X S (Completion n) =
     (\<lparr>database = fst (complete (queue S ! n) (database S)),
       queue = take n (queue S) @ drop (Suc n) (queue S)
                 @ map Background (snd (snd (snd (complete (queue S ! n) (database S))))),
       printed = printed S @ fst (snd (complete (queue S ! n) (database S)))\<rparr>,
      map_option Ingested (fst (snd (snd (complete (queue S ! n) (database S))))))"
  by (simp add: step_def split_beta)

lemma step_Completion_late: "\<not> n < length (queue S) \<Longrightarrow> step X S (Completion n) = (S, None)"
  by (simp add: step_def)

lemma owed_append: "owed T (p @ q) = owed T p + owed T q"
  by (simp add: owed_def)

lemma to_print_append: "to_print (p @ q) = to_print p + to_print q"
  by (simp add: to_print_def)

lemma owed_without_nth:
  "n < length q \<Longrightarrow> owed T (take n q @ drop (Suc n) q) + owed_of T (q ! n) = owed T q"
  unfolding owed_def by (rule sum_list_without_nth)

lemma to_print_without_nth:
  assumes "n < length q"
  shows "to_print (take n q @ drop (Suc n) q) + mset (waiting_lines (q ! n)) = to_print q"
proof -
  have "to_print q = to_print (take n q @ q ! n # drop (Suc n) q)"
    using assms by (simp only: id_take_nth_drop [symmetric])
  then show ?thesis
    by (simp add: to_print_def ac_simps)
qed

lemma step_Completion_rows_due: "rows_due T (fst (step X S (Completion n))) = rows_due T S"
proof (cases "n < length (queue S)")
  case True
  let ?r = "complete (queue S ! n) (database S)"
  have "rows_due T (fst (step X S (Completion n)))
        = payloads (table_of T (fst ?r)) + owed T (map Background (snd (snd (snd ?r))))
          + owed T (take n (queue S) @ drop (Suc n) (queue S))"
    using True by (simp add: step_Completion rows_due_def owed_append ac_simps)
  also have "\<dots> = payloads (table_of T (database S)) + owed_of T (queue S ! n)
          + owed T (take n (queue S) @ drop (Suc n) (queue S))"
    by (simp only: complete_rows_due)
  also have "\<dots> = rows_due T S"
    using owed_without_nth [OF True, of T] by (simp add: rows_due_def ac_simps)
  finally show ?thesis .
next
  case False
  then show ?thesis by (simp add: step_Completion_late)
qed

lemma step_Completion_lines_due: "lines_due (fst (step X S (Completion n))) = lines_due S"
proof (cases "n < length (queue S)")
  case True
  let ?r = "complete (queue S ! n) (database S)"
  have "lines_due (fst (step X S (Completion n)))
        = mset (printed S)
          + (mset (fst (snd ?r)) + to_print (map Background (snd (snd (snd ?r)))))
          + to_print (take n (queue S) @ drop (Suc n) (queue S))"
    using True by (simp add: step_Completion lines_due_def to_print_append ac_simps)
  also have "\<dots> = mset (printed S) + mset (waiting_lines (queue S ! n))
          + to_print (take n (queue S) @ drop (Suc n) (queue S))"
    by (simp only: complete_lines_due)
  also have "\<dots> = lines_due S"
    using to_print_without_nth [OF True] by (simp add: lines_due_def ac_simps)
  finally show ?thesis .
next
  case False
  then show ?thesis by (simp add: step_Completion_late)
qed

lemma step_Request_rows_due:
  "rows_due T (fst (step X S (Request c req)))
     = rows_due T S + owed T (snd (handle X c (database S) req))"
  by (simp add: step_Request rows_due_def owed_append)

lemma step_Request_lines_due:
  "lines_due (fst (step X S (Request c req)))
     = lines_due S + to_print (snd (handle X c (database S) req))"
  by (simp add: step_Request lines_due_def to_print_append)

lemma serve_Completions_rows_due: "rows_due T (serve X S (map Completion ns)) = rows_due T S"
  by (induction ns arbitrary: S) (simp_all add: step_Completion_rows_due)

lemma serve_Completions_lines_due: "lines_due (serve X S (map Completion ns)) = lines_due S"
  by (induction ns arbitrary: S) (simp_all add: step_Completion_lines_due)

lemma step_prefix:
  "prefix (rows (table_of T (database S))) (rows (table_of T (database (fst (step X S ev)))))"
proof (cases ev)
  case (Request c req)
  then show ?thesis by (simp add: step_Request)
next
  case (Completion n)
  then show ?thesis
    by (cases "n < length (queue S)")
       (simp_all add: step_Completion step_Completion_late complete_prefix)
qed

lemma serve_prefix:
  "prefix (rows (table_of T (database S))) (rows (table_of T (database (serve X S evs))))"
proof (induction evs arbitrary: S)
  case Nil
  then show ?case by simp
next
  case (Cons ev evs)
  have "prefix (rows (table_of T (database S)))
          (rows (table_of T (database (fst (step X S ev)))))"
    by (rule step_prefix)
  also have "prefix \<dots> (rows (table_of T (database (serve X (fst (step X S ev)) evs))))"
    by (rule Cons.IH)
  finally show ?case by simp
qed

lemma step_user_insights:
  "user_insights (database (fst (step X S ev))) = user_insights (database S)"
proof (cases ev)
  case (Request c req)
  then show ?thesis by (simp add: step_Request)
next
  case (Completion n)
  then show ?thesis
    by (cases "n < length (queue S)")
       (simp_all add: step_Completion step_Completion_late complete_user_insights)
qed

lemma serve_user_insights:
  "user_insights (database (serve X S evs)) = user_insights (database S)"
  by (induction evs arbitrary: S) (simp_all add: step_user_insights)

lemma items_map_option: "items (map_option (map f) xs) = map f (items xs)"
  by (cases xs) simp_all

lemma post_messages_valid:
  "env_message body = Some m \<Longrightarrow> msg_id m = Some mid \<Longrightarrow> mid \<noteq> [] \<Longrightarrow>
   post_messages js now fault body =
     (None,
      map Background (author_jobs fault m)
      @ [Message_upsert (msgValues now body m mid) (fault MessageUpsert)
           (child_jobs js fault mid m)])"
  by (simp add: post_messages_def)

lemma handle_POST_messages:
  "env_message body = Some m \<Longrightarrow> msg_id m = Some mid \<Longrightarrow> mid \<noteq> [] \<Longrightarrow>
   handle X c db (POST_messages body) =
     (None,
      map Background (author_jobs (write_faults c) m)
      @ [Message_upsert (msgValues (clock c) body m mid) (write_faults c MessageUpsert)
           (child_jobs (JSON_stringify X) (write_faults c) mid m)])"
  by (simp add: handle_def post_messages_valid)

lemma handle_reads:
  "(\<forall>body. req \<noteq> POST_messages body) \<Longrightarrow> snd (handle X c db req) = []"
  by (cases req) (simp_all add: handle_def split_beta)

lemma owed_by_author_jobs: "sum_list (map (owed_by T) (author_jobs fault m)) = {#}"
  by (cases T) (simp_all add: author_jobs_def split: option.splits, (cases "fault AuthorUpsert"; simp)+)

lemma owed_by_enumerate:
  "sum_list (map (\<lambda>ir. owed_by T (mk (snd ir), fault (fst ir))) (enumerate i rs))
     = mset (List.map_filter (\<lambda>r. inserted T (mk r)) (succeeding fault i rs))"
proof (induction rs arbitrary: i)
  case Nil
  then show ?case by simp
next
  case (Cons r rs)
  show ?case
    by (cases "fault i"; cases "inserted T (mk r)") (simp_all add: Cons.IH)
qed

lemma owed_by_each_job:
  "sum_list (map (owed_by T) (each_job mk fault list))
     = mset (List.map_filter (\<lambda>r. inserted T (mk r)) (succeeding fault 0 (items list)))"
  by (cases list) (simp_all add: each_job_def owed_by_enumerate comp_def)

lemma owed_by_one_job:
  "(\<And>r. inserted T (mk r) = None) \<Longrightarrow> sum_list (map (owed_by T) (one_job mk fault item)) = {#}"
  by (cases item; cases fault) (simp_all add: one_job_def)

lemma map_filter_Some: "List.map_filter Some xs = xs"
  by (induction xs) simp_all

lemma map_filter_None: "List.map_filter (\<lambda>x. None) xs = []"
  by (induction xs) simp_all

lemma fault_at_fun:
  "fault_at fault Attachments = (\<lambda>i. fault (AttachmentInsert i))"
  "fault_at fault Embeds = (\<lambda>i. fault (EmbedInsert i))"
  "fault_at fault Components = (\<lambda>i. fault (ComponentInsert i))"
  "fault_at fault Mentions = (\<lambda>i. fault (MentionInsert i))"
  by (rule ext, simp)+

lemma owed_by_child_jobs:
  "sum_list (map (owed_by T) (child_jobs js fault mid m))
     = mset (succeeding (fault_at fault T) 0 (child_rows js mid m T))"
  by (cases T)
     (simp_all add: child_jobs_def owed_by_each_job owed_by_one_job items_map_option
        map_filter_Some map_filter_None fault_at_fun)

lemma owed_issued:
  assumes "env_message body = Some m" and "msg_id m = Some mid" and "mid \<noteq> []"
    and "write_faults c MessageUpsert = None"
  shows "owed T (snd (handle X c db (POST_messages body)))
           = mset (succeeding (fault_at (write_faults c) T) 0
                     (child_rows (JSON_stringify X) mid m T))"
proof -
  have "owed T [Message_upsert (msgValues (clock c) body m mid) None
                  (child_jobs (JSON_stringify X) (write_faults c) mid m)]
          = mset (succeeding (fault_at (write_faults c) T) 0
                    (child_rows (JSON_stringify X) mid m T))"
    by (simp add: owed_def owed_by_child_jobs)
  then show ?thesis
    using assms
    by (simp add: handle_POST_messages owed_append owed_Background owed_by_author_jobs)
qed

lemma serve_ingestion_rows_due:
  assumes "env_message body = Some m" and "msg_id m = Some mid" and "mid \<noteq> []"
    and "write_faults c MessageUpsert = None"
  shows "rows_due T (serve X S (Request c (POST_messages body) # map Completion ns))
           = rows_due T S
             + mset (succeeding (fault_at (write_faults c) T) 0
                       (child_rows (JSON_stringify X) mid m T))"
  using assms
  by (simp add: serve_Completions_rows_due step_Request_rows_due owed_issued)

lemma replace_into_one:
  "filter (\<lambda>r. m_id r = mid) (replace_into (\<lambda>r. Some (m_id r)) (msgValues now body m mid) t)
     = [msgValues now body m mid]"
proof -
  have "filter (\<lambda>r. m_id r = mid) (filter (\<lambda>x. m_id x \<noteq> mid) t) = []"
    by (induction t) auto
  then show ?thesis
    by (simp add: replace_into_def msgValues_def)
qed

lemma filter_without_nth:
  assumes "n < length q"
  shows "filter P q = filter P (take n q) @ (if P (q ! n) then [q ! n] else [])
                        @ filter P (drop (Suc n) q)"
proof -
  have "filter P q = filter P (take n q @ q ! n # drop (Suc n) q)"
    using assms by (simp only: id_take_nth_drop [symmetric])
  then show ?thesis by simp
qed

lemma answered_filter: "answered S = (filter (\<lambda>t. \<not> is_job t) (queue S) = [])"
  by (simp add: answered_def list_all_iff filter_empty_conv)

lemma upsert_runs:
  fixes U :: waiting
  assumes U: "U = Message_upsert (msgValues now body m mid) None children"
    and inv: "filter (\<lambda>t. \<not> is_job t) (queue S) = [U]
              \<or> (answered S \<and> filter (\<lambda>r. m_id r = mid) (messages (database S))
                                 = [msgValues now body m mid])"
  shows "filter (\<lambda>t. \<not> is_job t) (queue (fst (step X S (Completion n)))) = [U]
         \<or> (answered (fst (step X S (Completion n)))
            \<and> filter (\<lambda>r. m_id r = mid) (messages (database (fst (step X S (Completion n)))))
                = [msgValues now body m mid])"
proof (cases "n < length (queue S)")
  case False
  then show ?thesis using inv by (simp add: step_Completion_late)
next
  case True
  let ?q = "queue S"
  let ?S' = "fst (step X S (Completion n))"
  have split: "filter (\<lambda>t. \<not> is_job t) ?q =
          filter (\<lambda>t. \<not> is_job t) (take n ?q) @ (if \<not> is_job (?q ! n) then [?q ! n] else [])
            @ filter (\<lambda>t. \<not> is_job t) (drop (Suc n) ?q)"
    by (rule filter_without_nth [OF True])
  show ?thesis
  proof (cases "is_job (?q ! n)")
    case job: True
    have q': "filter (\<lambda>t. \<not> is_job t) (queue ?S') = filter (\<lambda>t. \<not> is_job t) ?q"
      using True job split by (simp add: step_Completion complete_job_issues)
    have m': "messages (database ?S') = messages (database S)"
      using True job by (simp add: step_Completion complete_job_messages)
    have a': "answered ?S' = answered S"
      by (simp only: answered_filter q')
    show ?thesis
      using inv by (simp only: q' m' a')
  next
    case upsert: False
    have "\<not> answered S"
      using True upsert by (auto simp: answered_def list_all_length)
    with inv have one: "filter (\<lambda>t. \<not> is_job t) ?q = [U]"
      by simp
    have "filter (\<lambda>t. \<not> is_job t) (take n ?q) @ [?q ! n] @ filter (\<lambda>t. \<not> is_job t) (drop (Suc n) ?q)
            = [U]"
      using split upsert one by simp
    then have parts: "filter (\<lambda>t. \<not> is_job t) (take n ?q) = []" "?q ! n = U"
        "filter (\<lambda>t. \<not> is_job t) (drop (Suc n) ?q) = []"
      by (simp_all add: append_eq_Cons_conv)
    have "filter (\<lambda>t. \<not> is_job t) (queue ?S') = []"
      using True parts by (simp add: step_Completion U comp_def)
    then have "answered ?S'"
      by (simp only: answered_filter)
    moreover have "filter (\<lambda>r. m_id r = mid) (messages (database ?S')) = [msgValues now body m mid]"
      using True parts(2) by (simp add: step_Completion U replace_into_one)
    ultimately show ?thesis by simp
  qed
qed

lemma serve_upsert_runs:
  fixes U :: waiting
  assumes "U = Message_upsert (msgValues now body m mid) None children"
    and "filter (\<lambda>t. \<not> is_job t) (queue S) = [U]
         \<or> (answered S \<and> filter (\<lambda>r. m_id r = mid) (messages (database S))
                            = [msgValues now body m mid])"
  shows "filter (\<lambda>t. \<not> is_job t) (queue (serve X S (map Completion ns))) = [U]
         \<or> (answered (serve X S (map Completion ns))
            \<and> filter (\<lambda>r. m_id r = mid) (messages (database (serve X S (map Completion ns))))
                = [msgValues now body m mid])"
  using assms(2)
proof (induction ns arbitrary: S)
  case Nil
  then show ?case by simp
next
  case (Cons n ns)
  show ?case
    using Cons.IH [OF upsert_runs [OF assms(1) Cons.prems]] by simp
qed

lemma is_job_author_jobs: "filter (\<lambda>t. \<not> is_job t) (map Background js) = []"
  by (induction js) simp_all

lemma ingested_row:
  assumes valid: "env_message body = Some m" "msg_id m = Some mid" "mid \<noteq> []"
    and ok: "write_faults c MessageUpsert = None"
    and before: "answered S"
    and after: "answered (serve X S (Request c (POST_messages body) # map Completion ns))"
  shows "filter (\<lambda>r. m_id r = mid)
           (messages (database (serve X S (Request c (POST_messages body) # map Completion ns))))
         = [msgValues (clock c) body m mid]"
proof -
  let ?U = "Message_upsert (msgValues (clock c) body m mid) None
              (child_jobs (JSON_stringify X) (write_faults c) mid m)"
  let ?S = "fst (step X S (Request c (POST_messages body)))"
  have "filter (\<lambda>t. \<not> is_job t) (queue ?S) = [?U]"
    using before ok
    by (simp add: step_Request handle_POST_messages [OF valid] is_job_author_jobs
          answered_filter)
  then have "filter (\<lambda>t. \<not> is_job t) (queue (serve X ?S (map Completion ns))) = [?U]
         \<or> (answered (serve X ?S (map Completion ns))
            \<and> filter (\<lambda>r. m_id r = mid) (messages (database (serve X ?S (map Completion ns))))
                = [msgValues (clock c) body m mid])"
    by (intro serve_upsert_runs [OF refl] disjI1)
  moreover have "filter (\<lambda>t. \<not> is_job t) (queue (serve X ?S (map Completion ns))) = []"
    using after by (simp add: answered_filter)
  ultimately show ?thesis
    by simp
qed

lemmas example_defs =
  start_def step_def handle_def post_messages_def at_time_def
  first_post_def second_post_def first_message_def second_message_def
  blank_envelope_def blank_message_def plain_runtime_def author_jobs_def child_jobs_def
  each_job_def one_job_def no_fault_def empty_store_def empty_table_def replace_into_def
  auto_insert_def

lemma first_state:
  "serve plain_runtime start first_ingestion =
     \<lparr>database = empty_store\<lparr>messages :=
         [msgValues ''2025-01-01 10:00:00'' first_post first_message ''m1'']\<rparr>,
      queue = [Background (Attachment_insert
                 (attachment_params ''m1'' (blank_attachment\<lparr>att_filename := Some ''a.png''\<rparr>)), None)],
      printed = [''Message record inserted: m1'']\<rparr>"
  by (simp add: first_ingestion_def example_defs msgValues_def)

lemma second_state:
  "serve plain_runtime (serve plain_runtime start first_ingestion) second_ingestion =
     \<lparr>database = empty_store\<lparr>messages :=
         [msgValues ''2025-01-01 10:05:00'' second_post second_message ''m1''],
         attachments := \<lparr>rows =
           [(1, attachment_params ''m1'' (blank_attachment\<lparr>att_filename := Some ''b.png''\<rparr>)),
            (2, attachment_params ''m1'' (blank_attachment\<lparr>att_filename := Some ''a.png''\<rparr>))],
           seq = 2\<rparr>\<rparr>,
      queue = [],
      printed = [''Message record inserted: m1'', ''Message record inserted: m1'']\<rparr>"
  unfolding first_state
  by (simp add: second_ingestion_def example_defs msgValues_def)

lemma child_jobs_statements:
  "map fst (child_jobs js fault mid m) = map fst (child_jobs js fault' mid m)"
  by (simp add: child_jobs_def each_job_def one_job_def comp_def split: option.splits)

lemma each_job_statements: "map fst (each_job mk fault list) = map mk (items list)"
proof (cases list)
  case None
  then show ?thesis by (simp add: each_job_def)
next
  case (Some rs)
  have "map (\<lambda>ir. mk (snd ir)) (enumerate 0 rs) = map mk (map snd (enumerate 0 rs))"
    by (simp only: map_map comp_def)
  then show ?thesis
    using Some by (simp add: each_job_def comp_def)
qed

lemma one_job_statements:
  "map fst (one_job mk fault (map_option f item)) = (case item of None \<Rightarrow> [] | Some x \<Rightarrow> [mk (f x)])"
  by (cases item) (simp_all add: one_job_def)

lemma one_job_fates:
  "map snd (one_job mk fault (map_option f item)) = (case item of None \<Rightarrow> [] | Some x \<Rightarrow> [fault])"
  by (cases item) (simp_all add: one_job_def)

lemma each_job_fates: "map snd (each_job mk fault list) = map fault [0 ..< length (items list)]"
proof (cases list)
  case None
  then show ?thesis by (simp add: each_job_def)
next
  case (Some rs)
  have "map (\<lambda>ir. fault (fst ir)) (enumerate 0 rs) = map fault (map fst (enumerate 0 rs))"
    by (simp only: map_map comp_def)
  then show ?thesis
    using Some by (simp add: each_job_def comp_def)
qed

lemma child_jobs_issued:
  "map fst (child_jobs js fault mid m) =
     map Attachment_insert (child_rows js mid m Attachments)
     @ map Embed_insert (child_rows js mid m Embeds)
     @ map Component_insert (child_rows js mid m Components)
     @ (case msg_member m of None \<Rightarrow> [] | Some x \<Rightarrow> [Member_upsert (member_params js mid x)])
     @ map Mention_insert (child_rows js mid m Mentions)
     @ (case msg_message_reference m of
          None \<Rightarrow> [] | Some x \<Rightarrow> [Reference_upsert (reference_params mid x)])
     @ (case msg_referenced_message m of
          None \<Rightarrow> [] | Some x \<Rightarrow> [Referenced_upsert (referenced_params mid x)])"
  by (simp add: child_jobs_def each_job_statements one_job_statements items_map_option)

lemma child_jobs_fates:
  "map snd (child_jobs js fault mid m) =
     map (fault_at fault Attachments) [0 ..< length (child_rows js mid m Attachments)]
     @ map (fault_at fault Embeds) [0 ..< length (child_rows js mid m Embeds)]
     @ map (fault_at fault Components) [0 ..< length (child_rows js mid m Components)]
     @ (case msg_member m of None \<Rightarrow> [] | Some x \<Rightarrow> [fault MemberUpsert])
     @ map (fault_at fault Mentions) [0 ..< length (child_rows js mid m Mentions)]
     @ (case msg_message_reference m of None \<Rightarrow> [] | Some x \<Rightarrow> [fault ReferenceUpsert])
     @ (case msg_referenced_message m of None \<Rightarrow> [] | Some x \<Rightarrow> [fault ReferencedUpsert])"
  by (simp add: child_jobs_def each_job_fates one_job_fates items_map_option fault_at_fun)

lemma to_print_issued:
  assumes "env_message body = Some m" and "msg_id m = Some mid" and "mid \<noteq> []"
    and "write_faults c MessageUpsert = None"
  shows "to_print (snd (handle X c db (POST_messages body)))
           = mset (concat (map job_lines (author_jobs (write_faults c) m)))
             + {#''Message record inserted: '' @ mid#}
             + mset (concat (map job_lines
                        (child_jobs (JSON_stringify X) (write_faults c) mid m)))"
  using assms
  by (simp add: handle_POST_messages to_print_append to_print_Background)
     (simp add: to_print_def msgValues_def)

lemma failing_state:
  "serve plain_runtime start failing_ingestion =
     \<lparr>database = empty_store\<lparr>messages :=
         [msgValues ''2025-01-01 10:00:00'' two_attachments_post two_attachments ''m2''],
         attachments := \<lparr>rows =
           [(1, attachment_params ''m2'' (blank_attachment\<lparr>att_filename := Some ''b.png''\<rparr>))],
           seq = 1\<rparr>\<rparr>,
      queue = [],
      printed = [''Message record inserted: m2'', ''Failed to insert attachment: disk I/O error'']\<rparr>"
  by (simp add: failing_ingestion_def attachment_fails_def first_attachment_fails_def
        two_attachments_post_def two_attachments_def example_defs msgValues_def)

lemma failing_answer:
  "snd (step plain_runtime
         (fst (step plain_runtime start (Request attachment_fails (POST_messages two_attachments_post))))
         (Completion 0))
     = Some (Ingested Json_success)"
  by (simp add: attachment_fails_def first_attachment_fails_def
        two_attachments_post_def two_attachments_def example_defs msgValues_def)

text \<open>
  C3. A body of \<^verbatim>\<open>POST /messages\<close> without \<^verbatim>\<open>message\<close>, or whose \<^verbatim>\<open>message\<close> has no \<^verbatim>\<open>id\<close>, is
  answered with status 400 and \<^verbatim>\<open>{success: false, error}\<close>, and the handler issues no
  statement, whatever the fault oracle says: it returns before its first \<^verbatim>\<open>db.run\<close>. The
  server after the request is the server before it: the same database, the same
  statements waiting, and nothing printed.
\<close>

theorem post_messages_without_id:
  "env_message body = None \<or> (\<exists>m. env_message body = Some m \<and> msg_id m = None) \<Longrightarrow>
   post_messages js now fault body
     = (Some (Json_failure 400 ''Message object must contain an id''), [])
   \<and> step X S (Request c (POST_messages body))
     = (S, Some (Ingested (Json_failure 400 ''Message object must contain an id'')))"
  by (auto simp: post_messages_def step_def handle_def)

theorem post_messages_without_id_witness:
  "(env_message (blank_envelope\<lparr>env_message := Some blank_message\<rparr>) = None
      \<or> (\<exists>m. env_message (blank_envelope\<lparr>env_message := Some blank_message\<rparr>) = Some m
              \<and> msg_id m = None))
   \<and> post_messages stringify_unit ''2025-01-01 10:00:00'' (\<lambda>s. Some ''disk I/O error'')
        (blank_envelope\<lparr>env_message := Some blank_message\<rparr>)
      = (Some (Json_failure 400 ''Message object must contain an id''), [])
   \<and> step plain_runtime start
        (Request always_failing (POST_messages (blank_envelope\<lparr>env_message := Some blank_message\<rparr>)))
      = (start, Some (Ingested (Json_failure 400 ''Message object must contain an id'')))"
proof -
  have h: "env_message (blank_envelope\<lparr>env_message := Some blank_message\<rparr>) = None
      \<or> (\<exists>m. env_message (blank_envelope\<lparr>env_message := Some blank_message\<rparr>) = Some m
              \<and> msg_id m = None)"
    by (simp add: blank_envelope_def blank_message_def)
  show ?thesis
    using h post_messages_without_id [OF h] by blast
qed

text \<open>
  C1. A message id \<open>M\<close> is ingested twice: the first request is answered before the second
  arrives (\<open>answered S1\<close>), and the second is answered (\<open>answered S2\<close>); both message upserts
  succeed. The statements waiting run in any order (\<open>ns1\<close>, \<open>ns2\<close>), and some may still be
  waiting at the end. Then \<^verbatim>\<open>messages\<close> holds exactly one row with id \<open>M\<close>, the row of the
  second ingestion, with the second content. In each of the tables \<^verbatim>\<open>attachments\<close>,
  \<^verbatim>\<open>embeds\<close>, \<^verbatim>\<open>components\<close> and \<^verbatim>\<open>mentions\<close> (\<open>T\<close>) the rows present before the second request
  are all still there afterwards, with their keys, and they stay whatever happens later:
  the table only grows at its end. Nothing is replaced: counted without keys and without
  order, the rows of the table and the rows that statements waiting are going to insert
  are those there were at the beginning, those of the items of the first ingestion whose
  INSERT does not fail, and those of the second. When no statement is waiting at the
  beginning and none at the end, these are the rows of the table.
\<close>

theorem reingestion_replaces_row_and_appends_children:
  assumes "env_message b1 = Some m1" and "msg_id m1 = Some M"
    and "env_message b2 = Some m2" and "msg_id m2 = Some M" and "M \<noteq> []"
    and "write_faults c1 MessageUpsert = None" and "write_faults c2 MessageUpsert = None"
    and "S1 = serve X S0 (Request c1 (POST_messages b1) # map Completion ns1)"
    and "S2 = serve X S1 (Request c2 (POST_messages b2) # map Completion ns2)"
    and "answered S1" and "answered S2"
  shows "filter (\<lambda>r. m_id r = M) (messages (database S2)) = [msgValues (clock c2) b2 m2 M]
       \<and> content (msgValues (clock c2) b2 m2 M) = msg_content m2
       \<and> prefix (rows (table_of T (database S1))) (rows (table_of T (database S2)))
       \<and> prefix (rows (table_of T (database S2))) (rows (table_of T (database (serve X S2 later))))
       \<and> rows_due T S2 =
           rows_due T S0
           + mset (succeeding (fault_at (write_faults c1) T) 0
                     (child_rows (JSON_stringify X) M m1 T))
           + mset (succeeding (fault_at (write_faults c2) T) 0
                     (child_rows (JSON_stringify X) M m2 T))
       \<and> (queue S0 = [] \<and> queue S2 = [] \<longrightarrow>
             payloads (table_of T (database S2)) =
               payloads (table_of T (database S0))
               + mset (succeeding (fault_at (write_faults c1) T) 0
                         (child_rows (JSON_stringify X) M m1 T))
               + mset (succeeding (fault_at (write_faults c2) T) 0
                         (child_rows (JSON_stringify X) M m2 T)))"
proof (intro conjI impI)
  show "filter (\<lambda>r. m_id r = M) (messages (database S2)) = [msgValues (clock c2) b2 m2 M]"
    using assms(10,11) unfolding assms(9)
    by (rule ingested_row [OF assms(3,4,5,7)])
  show "content (msgValues (clock c2) b2 m2 M) = msg_content m2"
    by (simp add: msgValues_def)
  show "prefix (rows (table_of T (database S1))) (rows (table_of T (database S2)))"
    unfolding assms(9) by (rule serve_prefix)
  show "prefix (rows (table_of T (database S2))) (rows (table_of T (database (serve X S2 later))))"
    by (rule serve_prefix)
  have "rows_due T S1 = rows_due T S0
           + mset (succeeding (fault_at (write_faults c1) T) 0
                     (child_rows (JSON_stringify X) M m1 T))"
    unfolding assms(8) by (rule serve_ingestion_rows_due [OF assms(1,2,5,6)])
  moreover have "rows_due T S2 = rows_due T S1
           + mset (succeeding (fault_at (write_faults c2) T) 0
                     (child_rows (JSON_stringify X) M m2 T))"
    unfolding assms(9) by (rule serve_ingestion_rows_due [OF assms(3,4,5,7)])
  ultimately show due: "rows_due T S2 =
           rows_due T S0
           + mset (succeeding (fault_at (write_faults c1) T) 0
                     (child_rows (JSON_stringify X) M m1 T))
           + mset (succeeding (fault_at (write_faults c2) T) 0
                     (child_rows (JSON_stringify X) M m2 T))"
    by simp
  assume "queue S0 = [] \<and> queue S2 = []"
  then show "payloads (table_of T (database S2)) =
               payloads (table_of T (database S0))
               + mset (succeeding (fault_at (write_faults c1) T) 0
                         (child_rows (JSON_stringify X) M m1 T))
               + mset (succeeding (fault_at (write_faults c2) T) 0
                         (child_rows (JSON_stringify X) M m2 T))"
    using due by (simp add: rows_due_def owed_def)
qed

theorem reingestion_witness:
  "env_message first_post = Some first_message \<and> msg_id first_message = Some ''m1''
   \<and> env_message second_post = Some second_message \<and> msg_id second_message = Some ''m1''
   \<and> ''m1'' \<noteq> []
   \<and> write_faults (at_time ''2025-01-01 10:00:00'') MessageUpsert = None
   \<and> write_faults (at_time ''2025-01-01 10:05:00'') MessageUpsert = None
   \<and> (let S1 = serve plain_runtime start first_ingestion;
            S2 = serve plain_runtime S1 second_ingestion
        in answered S1 \<and> answered S2
         \<and> rows (attachments (database S1)) = []
         \<and> queue S1 =
             [Background (Attachment_insert
                (attachment_params ''m1'' (blank_attachment\<lparr>att_filename := Some ''a.png''\<rparr>)), None)]
         \<and> map content (filter (\<lambda>r. m_id r = ''m1'') (messages (database S2))) = [Some ''second'']
         \<and> rows (attachments (database S2)) =
             [(1, attachment_params ''m1'' (blank_attachment\<lparr>att_filename := Some ''b.png''\<rparr>)),
              (2, attachment_params ''m1'' (blank_attachment\<lparr>att_filename := Some ''a.png''\<rparr>))]
         \<and> queue S2 = []
         \<and> rows_due Attachments S2 =
             {#attachment_params ''m1'' (blank_attachment\<lparr>att_filename := Some ''a.png''\<rparr>),
               attachment_params ''m1'' (blank_attachment\<lparr>att_filename := Some ''b.png''\<rparr>)#})"
proof -
  let ?S1 = "serve plain_runtime start first_ingestion"
  let ?S2 = "serve plain_runtime ?S1 second_ingestion"
  have h1: "env_message first_post = Some first_message"
    by (simp add: first_post_def blank_envelope_def)
  have h2: "msg_id first_message = Some ''m1''"
    by (simp add: first_message_def blank_message_def)
  have h3: "env_message second_post = Some second_message"
    by (simp add: second_post_def blank_envelope_def)
  have h4: "msg_id second_message = Some ''m1''"
    by (simp add: second_message_def blank_message_def)
  have h5: "''m1'' \<noteq> []"
    by simp
  have h6: "write_faults (at_time ''2025-01-01 10:00:00'') MessageUpsert = None"
    by (simp add: at_time_def no_fault_def)
  have h7: "write_faults (at_time ''2025-01-01 10:05:00'') MessageUpsert = None"
    by (simp add: at_time_def no_fault_def)
  have h8: "?S1 = serve plain_runtime start
               (Request (at_time ''2025-01-01 10:00:00'') (POST_messages first_post)
                # map Completion [0])"
    by (simp only: first_ingestion_def)
  have h9: "?S2 = serve plain_runtime ?S1
               (Request (at_time ''2025-01-01 10:05:00'') (POST_messages second_post)
                # map Completion [1, 1, 0])"
    by (simp only: second_ingestion_def)
  have h10: "answered ?S1"
    by (simp add: first_state answered_def)
  have h11: "answered ?S2"
    by (simp add: second_state answered_def)
  have a1: "items (msg_attachments first_message) = [blank_attachment\<lparr>att_filename := Some ''a.png''\<rparr>]"
    by (simp add: first_message_def blank_message_def)
  have a2: "items (msg_attachments second_message) = [blank_attachment\<lparr>att_filename := Some ''b.png''\<rparr>]"
    by (simp add: second_message_def blank_message_def)
  have c2: "msg_content second_message = Some ''second''"
    by (simp add: second_message_def blank_message_def)
  have e: "rows_due Attachments start = {#}"
    by (simp add: rows_due_def start_def payloads_def owed_def empty_store_def empty_table_def)
  have r1: "rows (attachments (database ?S1)) = []"
    by (simp add: first_state empty_store_def empty_table_def)
  have q1: "queue ?S1 =
             [Background (Attachment_insert
                (attachment_params ''m1'' (blank_attachment\<lparr>att_filename := Some ''a.png''\<rparr>)), None)]"
    by (simp add: first_state)
  have r2: "rows (attachments (database ?S2)) =
             [(1, attachment_params ''m1'' (blank_attachment\<lparr>att_filename := Some ''b.png''\<rparr>)),
              (2, attachment_params ''m1'' (blank_attachment\<lparr>att_filename := Some ''a.png''\<rparr>))]"
    by (simp add: second_state)
  have q2: "queue ?S2 = []"
    by (simp add: second_state)
  note T = reingestion_replaces_row_and_appends_children
    [where T = Attachments and later = "[]", OF h1 h2 h3 h4 h5 h6 h7 h8 h9 h10 h11]
  have row: "map content (filter (\<lambda>r. m_id r = ''m1'') (messages (database ?S2))) = [Some ''second'']"
    using T by (simp add: c2)
  have due: "rows_due Attachments ?S2 =
             {#attachment_params ''m1'' (blank_attachment\<lparr>att_filename := Some ''a.png''\<rparr>),
               attachment_params ''m1'' (blank_attachment\<lparr>att_filename := Some ''b.png''\<rparr>)#}"
    using T by (simp add: e a1 a2 no_fault_def at_time_def)
  show ?thesis
    unfolding Let_def
    by (intro conjI h1 h2 h3 h4 h5 h6 h7 h10 h11 r1 q1 r2 q2 row due)
qed

text \<open>
  C4. A body passes validation and its message upsert succeeds. The handler issues the
  author upsert and the message upsert and answers nothing yet. The callback of the
  message upsert issues one statement for every item of the four lists and one for each
  of the member, the message reference and the referenced message that are present, each
  with the fate of its own statement and the same statements whichever of them are going
  to fail, and it answers \<^verbatim>\<open>{success: true}\<close> before any of them has run. A child statement
  that fails leaves the database as it is and prints one line, \<^verbatim>\<open>Failed to insert\<close> with the
  kind of the child and the error; the statements waiting before and after it are still
  waiting. A child statement that does not fail prints nothing and adds its row: at the
  end of its table with the next key, or in place of the row of the same message. So, in
  whatever order the statements run, each of \<^verbatim>\<open>attachments\<close>, \<^verbatim>\<open>embeds\<close>, \<^verbatim>\<open>components\<close> and
  \<^verbatim>\<open>mentions\<close> receives exactly the rows of the items whose own INSERT does not fail, and
  what is printed is the lines of the author upsert and of the message and one line for
  every failing child statement: this holds of the rows and lines together with those
  still to come, and of the table and the console themselves when no statement is waiting
  at the beginning and none at the end.
\<close>

theorem child_insert_failures_are_only_logged:
  assumes "env_message body = Some m" and "msg_id m = Some mid" and "mid \<noteq> []"
    and "write_faults c MessageUpsert = None"
  shows "handle X c db0 (POST_messages body)
           = (None,
              map Background (author_jobs (write_faults c) m)
              @ [Message_upsert (msgValues (clock c) body m mid) None
                   (child_jobs (JSON_stringify X) (write_faults c) mid m)])
       \<and> complete (Message_upsert (msgValues (clock c) body m mid) None
                     (child_jobs (JSON_stringify X) (write_faults c) mid m)) db
           = (db\<lparr>messages := replace_into (\<lambda>x. Some (m_id x))
                                (msgValues (clock c) body m mid) (messages db)\<rparr>,
              [''Message record inserted: '' @ mid], Some Json_success,
              child_jobs (JSON_stringify X) (write_faults c) mid m)
       \<and> map fst (child_jobs (JSON_stringify X) (write_faults c) mid m)
           = map Attachment_insert (child_rows (JSON_stringify X) mid m Attachments)
             @ map Embed_insert (child_rows (JSON_stringify X) mid m Embeds)
             @ map Component_insert (child_rows (JSON_stringify X) mid m Components)
             @ (case msg_member m of
                  None \<Rightarrow> []
                | Some x \<Rightarrow> [Member_upsert (member_params (JSON_stringify X) mid x)])
             @ map Mention_insert (child_rows (JSON_stringify X) mid m Mentions)
             @ (case msg_message_reference m of
                  None \<Rightarrow> [] | Some x \<Rightarrow> [Reference_upsert (reference_params mid x)])
             @ (case msg_referenced_message m of
                  None \<Rightarrow> [] | Some x \<Rightarrow> [Referenced_upsert (referenced_params mid x)])
       \<and> map snd (child_jobs (JSON_stringify X) (write_faults c) mid m)
           = map (fault_at (write_faults c) Attachments)
               [0 ..< length (child_rows (JSON_stringify X) mid m Attachments)]
             @ map (fault_at (write_faults c) Embeds)
                 [0 ..< length (child_rows (JSON_stringify X) mid m Embeds)]
             @ map (fault_at (write_faults c) Components)
                 [0 ..< length (child_rows (JSON_stringify X) mid m Components)]
             @ (case msg_member m of None \<Rightarrow> [] | Some x \<Rightarrow> [write_faults c MemberUpsert])
             @ map (fault_at (write_faults c) Mentions)
                 [0 ..< length (child_rows (JSON_stringify X) mid m Mentions)]
             @ (case msg_message_reference m of
                  None \<Rightarrow> [] | Some x \<Rightarrow> [write_faults c ReferenceUpsert])
             @ (case msg_referenced_message m of
                  None \<Rightarrow> [] | Some x \<Rightarrow> [write_faults c ReferencedUpsert])
       \<and> map fst (child_jobs (JSON_stringify X) (write_faults c) mid m)
           = map fst (child_jobs (JSON_stringify X) no_fault mid m)
       \<and> complete (Background (s, Some e)) db = (db, [error_prefix s @ e], None, [])
       \<and> map error_prefix
             [Attachment_insert r, Embed_insert r, Component_insert r, Member_upsert r,
              Mention_insert r, Reference_upsert r, Referenced_upsert r]
           = [''Failed to insert attachment: '', ''Failed to insert embed: '',
              ''Failed to insert component: '', ''Failed to insert member: '',
              ''Failed to insert mention: '', ''Failed to insert message reference: '',
              ''Failed to insert referenced message: '']
       \<and> complete (Background (s, None)) db = (execute s db, success_lines s, None, [])
       \<and> concat (map success_lines
             [Attachment_insert r, Embed_insert r, Component_insert r, Member_upsert r,
              Mention_insert r, Reference_upsert r, Referenced_upsert r]) = []
       \<and> rows (attachments (execute (Attachment_insert r) db))
           = rows (attachments db) @ [(Suc (seq (attachments db)), r)]
       \<and> rows (embeds (execute (Embed_insert r) db))
           = rows (embeds db) @ [(Suc (seq (embeds db)), r)]
       \<and> rows (components (execute (Component_insert r) db))
           = rows (components db) @ [(Suc (seq (components db)), r)]
       \<and> rows (mentions (execute (Mention_insert r) db))
           = rows (mentions db) @ [(Suc (seq (mentions db)), r)]
       \<and> members (execute (Member_upsert r) db) = replace_into (column 0) r (members db)
       \<and> message_references (execute (Reference_upsert r) db)
           = replace_into (column 0) r (message_references db)
       \<and> referenced_messages (execute (Referenced_upsert r) db)
           = replace_into (column 0) r (referenced_messages db)
       \<and> step X \<lparr>database = db, queue = before @ Background (s, Some e) # after, printed = out\<rparr>
            (Completion (length before))
           = (\<lparr>database = db, queue = before @ after, printed = out @ [error_prefix s @ e]\<rparr>,
              None)
       \<and> rows_due T (serve X S (Request c (POST_messages body) # map Completion ns))
           = rows_due T S
             + mset (succeeding (fault_at (write_faults c) T) 0
                       (child_rows (JSON_stringify X) mid m T))
       \<and> lines_due (serve X S (Request c (POST_messages body) # map Completion ns))
           = lines_due S
             + mset (concat (map job_lines (author_jobs (write_faults c) m)))
             + {#''Message record inserted: '' @ mid#}
             + mset (concat (map job_lines
                        (child_jobs (JSON_stringify X) (write_faults c) mid m)))
       \<and> (queue S = [] \<and> queue (serve X S (Request c (POST_messages body) # map Completion ns)) = []
            \<longrightarrow>
              payloads (table_of T
                 (database (serve X S (Request c (POST_messages body) # map Completion ns))))
                = payloads (table_of T (database S))
                  + mset (succeeding (fault_at (write_faults c) T) 0
                            (child_rows (JSON_stringify X) mid m T))
            \<and> mset (printed (serve X S (Request c (POST_messages body) # map Completion ns)))
                = mset (printed S)
                  + mset (concat (map job_lines (author_jobs (write_faults c) m)))
                  + {#''Message record inserted: '' @ mid#}
                  + mset (concat (map job_lines
                             (child_jobs (JSON_stringify X) (write_faults c) mid m))))"
proof (intro conjI impI)
  show "handle X c db0 (POST_messages body)
           = (None,
              map Background (author_jobs (write_faults c) m)
              @ [Message_upsert (msgValues (clock c) body m mid) None
                   (child_jobs (JSON_stringify X) (write_faults c) mid m)])"
    using assms by (simp add: handle_POST_messages)
  show "complete (Message_upsert (msgValues (clock c) body m mid) None
                     (child_jobs (JSON_stringify X) (write_faults c) mid m)) db
           = (db\<lparr>messages := replace_into (\<lambda>x. Some (m_id x))
                                (msgValues (clock c) body m mid) (messages db)\<rparr>,
              [''Message record inserted: '' @ mid], Some Json_success,
              child_jobs (JSON_stringify X) (write_faults c) mid m)"
    by (simp add: msgValues_def)
  show "map fst (child_jobs (JSON_stringify X) (write_faults c) mid m)
           = map fst (child_jobs (JSON_stringify X) no_fault mid m)"
    by (rule child_jobs_statements)
  show "map fst (child_jobs (JSON_stringify X) (write_faults c) mid m)
           = map Attachment_insert (child_rows (JSON_stringify X) mid m Attachments)
             @ map Embed_insert (child_rows (JSON_stringify X) mid m Embeds)
             @ map Component_insert (child_rows (JSON_stringify X) mid m Components)
             @ (case msg_member m of
                  None \<Rightarrow> []
                | Some x \<Rightarrow> [Member_upsert (member_params (JSON_stringify X) mid x)])
             @ map Mention_insert (child_rows (JSON_stringify X) mid m Mentions)
             @ (case msg_message_reference m of
                  None \<Rightarrow> [] | Some x \<Rightarrow> [Reference_upsert (reference_params mid x)])
             @ (case msg_referenced_message m of
                  None \<Rightarrow> [] | Some x \<Rightarrow> [Referenced_upsert (referenced_params mid x)])"
    by (rule child_jobs_issued)
  show "map snd (child_jobs (JSON_stringify X) (write_faults c) mid m)
           = map (fault_at (write_faults c) Attachments)
               [0 ..< length (child_rows (JSON_stringify X) mid m Attachments)]
             @ map (fault_at (write_faults c) Embeds)
                 [0 ..< length (child_rows (JSON_stringify X) mid m Embeds)]
             @ map (fault_at (write_faults c) Components)
                 [0 ..< length (child_rows (JSON_stringify X) mid m Components)]
             @ (case msg_member m of None \<Rightarrow> [] | Some x \<Rightarrow> [write_faults c MemberUpsert])
             @ map (fault_at (write_faults c) Mentions)
                 [0 ..< length (child_rows (JSON_stringify X) mid m Mentions)]
             @ (case msg_message_reference m of
                  None \<Rightarrow> [] | Some x \<Rightarrow> [write_faults c ReferenceUpsert])
             @ (case msg_referenced_message m of
                  None \<Rightarrow> [] | Some x \<Rightarrow> [write_faults c ReferencedUpsert])"
    by (rule child_jobs_fates)
  show "map error_prefix
             [Attachment_insert r, Embed_insert r, Component_insert r, Member_upsert r,
              Mention_insert r, Reference_upsert r, Referenced_upsert r]
           = [''Failed to insert attachment: '', ''Failed to insert embed: '',
              ''Failed to insert component: '', ''Failed to insert member: '',
              ''Failed to insert mention: '', ''Failed to insert message reference: '',
              ''Failed to insert referenced message: '']"
    by simp
  show "concat (map success_lines
             [Attachment_insert r, Embed_insert r, Component_insert r, Member_upsert r,
              Mention_insert r, Reference_upsert r, Referenced_upsert r]) = []"
    by simp
  show "rows (attachments (execute (Attachment_insert r) db))
           = rows (attachments db) @ [(Suc (seq (attachments db)), r)]"
    by (simp add: rows_auto_insert)
  show "rows (embeds (execute (Embed_insert r) db))
           = rows (embeds db) @ [(Suc (seq (embeds db)), r)]"
    by (simp add: rows_auto_insert)
  show "rows (components (execute (Component_insert r) db))
           = rows (components db) @ [(Suc (seq (components db)), r)]"
    by (simp add: rows_auto_insert)
  show "rows (mentions (execute (Mention_insert r) db))
           = rows (mentions db) @ [(Suc (seq (mentions db)), r)]"
    by (simp add: rows_auto_insert)
  show "members (execute (Member_upsert r) db) = replace_into (column 0) r (members db)"
    by simp
  show "message_references (execute (Reference_upsert r) db)
           = replace_into (column 0) r (message_references db)"
    by simp
  show "referenced_messages (execute (Referenced_upsert r) db)
           = replace_into (column 0) r (referenced_messages db)"
    by simp
  show "complete (Background (s, Some e)) db = (db, [error_prefix s @ e], None, [])"
    by simp
  show "complete (Background (s, None)) db = (execute s db, success_lines s, None, [])"
    by simp
  show "step X \<lparr>database = db, queue = before @ Background (s, Some e) # after, printed = out\<rparr>
            (Completion (length before))
           = (\<lparr>database = db, queue = before @ after, printed = out @ [error_prefix s @ e]\<rparr>,
              None)"
    by (simp add: step_def)
  show "rows_due T (serve X S (Request c (POST_messages body) # map Completion ns))
           = rows_due T S
             + mset (succeeding (fault_at (write_faults c) T) 0
                       (child_rows (JSON_stringify X) mid m T))"
    by (rule serve_ingestion_rows_due [OF assms])
  show "lines_due (serve X S (Request c (POST_messages body) # map Completion ns))
           = lines_due S
             + mset (concat (map job_lines (author_jobs (write_faults c) m)))
             + {#''Message record inserted: '' @ mid#}
             + mset (concat (map job_lines
                        (child_jobs (JSON_stringify X) (write_faults c) mid m)))"
    by (simp add: serve_Completions_lines_due step_Request_lines_due to_print_issued [OF assms])
  then have lines: "lines_due (serve X S (Request c (POST_messages body) # map Completion ns))
           = lines_due S
             + mset (concat (map job_lines (author_jobs (write_faults c) m)))
             + {#''Message record inserted: '' @ mid#}
             + mset (concat (map job_lines
                        (child_jobs (JSON_stringify X) (write_faults c) mid m)))" .
  assume quiet: "queue S = []
    \<and> queue (serve X S (Request c (POST_messages body) # map Completion ns)) = []"
  have "rows_due T (serve X S (Request c (POST_messages body) # map Completion ns))
           = rows_due T S
             + mset (succeeding (fault_at (write_faults c) T) 0
                       (child_rows (JSON_stringify X) mid m T))"
    by (rule serve_ingestion_rows_due [OF assms])
  then show "payloads (table_of T
                 (database (serve X S (Request c (POST_messages body) # map Completion ns))))
                = payloads (table_of T (database S))
                  + mset (succeeding (fault_at (write_faults c) T) 0
                            (child_rows (JSON_stringify X) mid m T))"
    using quiet by (simp add: rows_due_def owed_def)
  show "mset (printed (serve X S (Request c (POST_messages body) # map Completion ns)))
                = mset (printed S)
                  + mset (concat (map job_lines (author_jobs (write_faults c) m)))
                  + {#''Message record inserted: '' @ mid#}
                  + mset (concat (map job_lines
                             (child_jobs (JSON_stringify X) (write_faults c) mid m)))"
    using lines quiet by (simp add: lines_due_def to_print_def)
qed

theorem child_insert_failures_witness:
  "env_message two_attachments_post = Some two_attachments
   \<and> msg_id two_attachments = Some ''m2'' \<and> ''m2'' \<noteq> []
   \<and> write_faults attachment_fails MessageUpsert = None
   \<and> write_faults attachment_fails (AttachmentInsert 0) = Some ''disk I/O error''
   \<and> snd (step plain_runtime
           (fst (step plain_runtime start
                   (Request attachment_fails (POST_messages two_attachments_post))))
           (Completion 0))
       = Some (Ingested Json_success)
   \<and> (let S = serve plain_runtime start failing_ingestion
        in rows (attachments (database S)) =
             [(1, attachment_params ''m2'' (blank_attachment\<lparr>att_filename := Some ''b.png''\<rparr>))]
         \<and> printed S =
             [''Message record inserted: m2'', ''Failed to insert attachment: disk I/O error'']
         \<and> queue S = []
         \<and> rows_due Attachments S =
             {#attachment_params ''m2'' (blank_attachment\<lparr>att_filename := Some ''b.png''\<rparr>)#}
         \<and> lines_due S =
             {#''Message record inserted: m2'', ''Failed to insert attachment: disk I/O error''#})"
proof -
  let ?S = "serve plain_runtime start failing_ingestion"
  have h1: "env_message two_attachments_post = Some two_attachments"
    by (simp add: two_attachments_post_def blank_envelope_def)
  have h2: "msg_id two_attachments = Some ''m2''"
    by (simp add: two_attachments_def blank_message_def)
  have h3: "''m2'' \<noteq> []"
    by simp
  have h4: "write_faults attachment_fails MessageUpsert = None"
    by (simp add: attachment_fails_def first_attachment_fails_def)
  have g: "write_faults attachment_fails (AttachmentInsert 0) = Some ''disk I/O error''"
    "write_faults attachment_fails (AttachmentInsert (Suc 0)) = None"
    by (simp_all add: attachment_fails_def first_attachment_fails_def)
  have fields:
    "items (msg_attachments two_attachments) =
       [blank_attachment\<lparr>att_filename := Some ''a.png''\<rparr>,
        blank_attachment\<lparr>att_filename := Some ''b.png''\<rparr>]"
    "msg_author two_attachments = None"
    by (simp_all add: two_attachments_def blank_message_def)
  have jobs: "child_jobs stringify_unit (write_faults attachment_fails) ''m2'' two_attachments =
      [(Attachment_insert (attachment_params ''m2'' (blank_attachment\<lparr>att_filename := Some ''a.png''\<rparr>)),
        Some ''disk I/O error''),
       (Attachment_insert (attachment_params ''m2'' (blank_attachment\<lparr>att_filename := Some ''b.png''\<rparr>)),
        None)]"
    by (simp add: child_jobs_def each_job_def one_job_def two_attachments_def blank_message_def g)
  have e: "rows_due Attachments start = {#}" "lines_due start = {#}"
    by (simp_all add: rows_due_def lines_due_def to_print_def start_def payloads_def owed_def
          empty_store_def empty_table_def)
  have S: "?S = serve plain_runtime start
             (Request attachment_fails (POST_messages two_attachments_post)
              # map Completion [0, 1, 0])"
    by (simp only: failing_ingestion_def)
  have js: "JSON_stringify plain_runtime = stringify_unit"
    by (simp add: plain_runtime_def)
  note T = child_insert_failures_are_only_logged
    [where X = plain_runtime and T = Attachments and S = start and ns = "[0, 1, 0]",
     OF h1 h2 h3 h4, folded S]
  have due: "rows_due Attachments ?S =
             {#attachment_params ''m2'' (blank_attachment\<lparr>att_filename := Some ''b.png''\<rparr>)#}"
    using T by (simp add: e fields g js)
  have lines: "lines_due ?S =
             {#''Message record inserted: m2'', ''Failed to insert attachment: disk I/O error''#}"
    using T by (simp add: e fields js jobs author_jobs_def)
  show ?thesis
    unfolding Let_def
    by (intro conjI h1 h2 h3 h4 g(1) failing_answer due lines)
       (simp_all add: failing_state)
qed

subsection \<open>Context assembly\<close>

lemma left_join_columns:
  assumes "j \<in> set (left_join as m)"
  shows "message_row.truncate j = m"
    and "m_id j = m_id m" and "channelId j = channelId m"
    and "message_timestamp j = message_timestamp m" and "content j = content m"
    and "created_at j = created_at m" and "author_id j = author_id m"
  using assms
  by (auto simp: left_join_def Let_def message_row.defs joined_row.defs split: if_splits)

lemma sql_eq_Some: "sql_eq x (Some y) \<longleftrightarrow> x = Some y"
  by (cases x) auto

lemma left_join_author:
  assumes "j \<in> set (left_join as m)"
  shows "(\<exists>a\<in>set as. author_id j = Some (a_id a) \<and> username j = a_username a
            \<and> avatar j = a_avatar a \<and> globalName j = a_globalName a)
         \<or> ((\<forall>a\<in>set as. author_id j \<noteq> Some (a_id a))
            \<and> username j = None \<and> avatar j = None \<and> globalName j = None)"
proof (cases "filter (\<lambda>a. sql_eq (author_id m) (Some (a_id a))) as = []")
  case True
  then have "\<forall>a\<in>set as. author_id m \<noteq> Some (a_id a)"
    by (simp add: filter_empty_conv sql_eq_Some)
  moreover have "j = message_row.extend m (joined_row.fields None None None)"
    using assms True by (simp add: left_join_def)
  ultimately show ?thesis
    by (simp add: message_row.defs joined_row.defs)
next
  case False
  then obtain a where a: "a \<in> set as" "sql_eq (author_id m) (Some (a_id a))"
    "j = message_row.extend m (joined_row.fields (a_username a) (a_avatar a) (a_globalName a))"
    using assms by (auto simp: left_join_def)
  have "author_id m = Some (a_id a)"
    using a(2) by (simp add: sql_eq_Some)
  then have "author_id j = Some (a_id a) \<and> username j = a_username a
            \<and> avatar j = a_avatar a \<and> globalName j = a_globalName a"
    by (simp add: a(3) message_row.defs joined_row.defs)
  then show ?thesis
    using a(1) by blast
qed

lemma left_join_not_Nil: "left_join as m \<noteq> []"
  by (simp add: left_join_def Let_def)

lemma select_joined_source:
  assumes "j \<in> set (select_joined db p)"
  shows "\<exists>m\<in>set (messages db). p m \<and> j \<in> set (left_join (authors db) m)"
  using assms by (auto simp: select_joined_def)

lemma select_joined_Nil:
  "select_joined db p = [] \<longleftrightarrow> (\<forall>m\<in>set (messages db). \<not> p m)"
  by (auto simp: select_joined_def left_join_not_Nil filter_empty_conv)

lemma sorted_take_order_by:
  "sorted (map c (take n (order_by c rs)))"
  by (simp add: order_by_def take_map [symmetric] sorted_wrt_take)

lemma at_most_one_match:
  "distinct (map f xs) \<Longrightarrow> length (filter (\<lambda>x. f x = k) xs) \<le> Suc 0"
  by (induction xs) (auto simp: filter_empty_conv image_iff)

lemma left_join_single:
  assumes "distinct (map a_id as)"
  shows "left_join as m = [hd (left_join as m)]"
proof -
  have "length (filter (\<lambda>a. sql_eq (author_id m) (Some (a_id a))) as) \<le> Suc 0"
  proof (cases "author_id m")
    case None
    then show ?thesis by simp
  next
    case (Some k)
    have "filter (\<lambda>a. sql_eq (author_id m) (Some (a_id a))) as = filter (\<lambda>a. a_id a = k) as"
      using Some by (auto intro: filter_cong)
    then show ?thesis using at_most_one_match [OF assms, of k] by (simp only:)
  qed
  then have "length (left_join as m) = Suc 0"
    by (auto simp: left_join_def Let_def le_Suc_eq)
  then show ?thesis
    by (cases "left_join as m") simp_all
qed

lemma select_joined_single:
  assumes "distinct (map a_id (authors db))"
  shows "select_joined db p = map (\<lambda>m. hd (left_join (authors db) m)) (filter p (messages db))"
proof -
  have "concat (map (left_join (authors db)) ms) = map (\<lambda>m. hd (left_join (authors db) m)) ms"
    for ms
  proof (induction ms)
    case Nil
    then show ?case by simp
  next
    case (Cons m ms)
    then show ?case using left_join_single [OF assms, of m] by simp
  qed
  then show ?thesis by (simp add: select_joined_def)
qed

lemma hd_left_join_columns:
  "message_row.truncate (hd (left_join as m)) = m"
  "message_timestamp (hd (left_join as m)) = message_timestamp m"
  "channelId (hd (left_join as m)) = channelId m"
  using left_join_columns [of "hd (left_join as m)" as m] left_join_not_Nil [of as m]
  by simp_all

lemma sort_two:
  fixes f :: "'a \<Rightarrow> 'k::linorder"
  assumes "mset xs = {#x, y#}" and "f x < f y"
  shows "sort_key f xs = [x, y]"
proof (rule properties_for_sort_key)
  show "mset [x, y] = mset xs"
    using assms(1) by simp
  show "sorted (map f [x, y])"
    using assms(2) by simp
  fix k
  assume k: "k \<in> set [x, y]"
  have x: "filter (\<lambda>z. f x = f z) xs = [x]"
  proof -
    have "mset (filter (\<lambda>z. f x = f z) xs) = {#x#}"
      using assms by (simp add: mset_filter)
    then show ?thesis by (simp only: mset_single_iff)
  qed
  have y: "filter (\<lambda>z. f y = f z) xs = [y]"
  proof -
    have "mset (filter (\<lambda>z. f y = f z) xs) = {#y#}"
      using assms by (simp add: mset_filter)
    then show ?thesis by (simp only: mset_single_iff)
  qed
  show "filter (\<lambda>z. f k = f z) [x, y] = filter (\<lambda>z. f k = f z) xs"
    using k x y assms(2) by auto
qed

lemma three_messages:
  assumes faults: "err 0 = None" "err (Suc 0) = None"
    and rows: "mset (messages db) = {#a, b, c#}"
    and ids: "m_id a \<noteq> m_id b" "m_id c \<noteq> m_id b"
    and chan: "channelId a = Some ch" "channelId b = Some ch" "channelId c = Some ch"
    and order: "message_timestamp a < message_timestamp c"
    and auth: "distinct (map a_id (authors db))"
  shows "\<exists>ctx. getMessageContext err db (m_id b) = Inr ctx
           \<and> map message_row.truncate (context_messages ctx) = [a, c]
           \<and> context_message_count ctx = 2"
proof -
  let ?J = "\<lambda>m. hd (left_join (authors db) m)"
  let ?other = "\<lambda>m. sql_eq (channelId m) (Some ch) \<and> m_id m \<noteq> m_id b"
  have "mset (filter (\<lambda>m. m_id m = m_id b) (messages db)) = {#b#}"
    using ids by (simp add: mset_filter rows)
  then have target: "filter (\<lambda>m. m_id m = m_id b) (messages db) = [b]"
    by (simp only: mset_single_iff)
  have "mset (filter ?other (messages db)) = {#a, c#}"
    using ids chan by (simp add: mset_filter rows)
  then have "mset (map ?J (filter ?other (messages db))) = {#?J a, ?J c#}"
    by (metis (no_types, lifting) mset_map image_mset_add_mset image_mset_empty)
  moreover have "message_timestamp (?J a) < message_timestamp (?J c)"
    using order by (simp add: hd_left_join_columns)
  ultimately have sorted:
    "sort_key message_timestamp (map ?J (filter ?other (messages db))) = [?J a, ?J c]"
    by (rule sort_two)
  show ?thesis
    using faults
    by (simp add: getMessageContext_def db_get_def db_all_def select_joined_single [OF auth]
          target hd_left_join_columns chan order_by_def sorted)
qed

lemma channel_store_tables:
  "messages channel_store = [late_row, early_row, mid_row]"
  "authors channel_store = [authorValues ''B1'' bob, authorValues ''A1'' ann]"
  by (simp_all add: channel_store_def late_post_def early_post_def mid_post_def chat_post_def
        chat_message_def blank_envelope_def blank_message_def example_defs
        late_row_def early_row_def mid_row_def
        ann_def bob_def blank_author_def authorValues_def msgValues_def author_id_of_def)

lemma truncate_columns:
  "m_id (message_row.truncate j) = m_id j"
  "channelId (message_row.truncate j) = channelId j"
  by (simp_all add: message_row.defs)

lemma context_found:
  assumes "err 0 = None" and "err (Suc 0) = None"
    and "\<exists>m\<in>set (messages db). m_id m = messageId"
  shows "\<exists>target rest.
           select_joined db (\<lambda>m. m_id m = messageId) = target # rest
         \<and> getMessageContext err db messageId =
             Inr \<lparr>message = target, channel_id = channelId target,
                  context_messages =
                    take 20 (order_by message_timestamp
                      (select_joined db
                         (\<lambda>m. sql_eq (channelId m) (channelId target) \<and> m_id m \<noteq> messageId))),
                  context_message_count =
                    length (take 20 (order_by message_timestamp
                      (select_joined db
                         (\<lambda>m. sql_eq (channelId m) (channelId target) \<and> m_id m \<noteq> messageId))))\<rparr>"
proof -
  have "select_joined db (\<lambda>m. m_id m = messageId) \<noteq> []"
    using assms(3) by (simp add: select_joined_Nil)
  then obtain target rest where "select_joined db (\<lambda>m. m_id m = messageId) = target # rest"
    by (cases "select_joined db (\<lambda>m. m_id m = messageId)") auto
  then show ?thesis
    using assms(1,2) by (simp add: getMessageContext_def db_get_def db_all_def)
qed

lemma left_join_timestamp:
  "left_join as (m\<lparr>message_timestamp := t\<rparr>) = map (\<lambda>j. j\<lparr>message_timestamp := t\<rparr>) (left_join as m)"
  by (simp add: left_join_def Let_def message_row.defs joined_row.defs)

lemma select_target_with_timestamp:
  "select_joined (with_timestamp i t db) (\<lambda>m. m_id m = i) =
     map (\<lambda>j. j\<lparr>message_timestamp := t\<rparr>) (select_joined db (\<lambda>m. m_id m = i))"
proof -
  have "concat (map (left_join as)
          (filter (\<lambda>m. m_id m = i)
             (map (\<lambda>m. if m_id m = i then m\<lparr>message_timestamp := t\<rparr> else m) ms)))
        = map (\<lambda>j. j\<lparr>message_timestamp := t\<rparr>)
            (concat (map (left_join as) (filter (\<lambda>m. m_id m = i) ms)))"
    for as ms
    by (induction ms) (simp_all add: left_join_timestamp)
  then show ?thesis
    by (simp add: select_joined_def with_timestamp_def)
qed

lemma select_others_with_timestamp:
  "select_joined (with_timestamp i t db) (\<lambda>m. sql_eq (channelId m) ch \<and> m_id m \<noteq> i) =
     select_joined db (\<lambda>m. sql_eq (channelId m) ch \<and> m_id m \<noteq> i)"
proof -
  have "filter (\<lambda>m. sql_eq (channelId m) ch \<and> m_id m \<noteq> i)
          (map (\<lambda>m. if m_id m = i then m\<lparr>message_timestamp := t\<rparr> else m) ms)
        = filter (\<lambda>m. sql_eq (channelId m) ch \<and> m_id m \<noteq> i) ms"
    for ms :: "message_row list"
    by (induction ms) simp_all
  then show ?thesis
    by (simp add: select_joined_def with_timestamp_def del: filter_map)
qed

lemma context_with_timestamp:
  "getMessageContext err (with_timestamp i t db) i =
     (case getMessageContext err db i of
        Inl e \<Rightarrow> Inl e
      | Inr ctx \<Rightarrow> Inr (ctx\<lparr>message := (message ctx)\<lparr>message_timestamp := t\<rparr>\<rparr>))"
  by (cases "select_joined db (\<lambda>m. m_id m = i)")
     (simp_all add: getMessageContext_def select_target_with_timestamp
        select_others_with_timestamp db_get_def db_all_def split: option.splits)

lemma context_ignores_target_timestamp:
  "getMessageContext err db i = Inr ctx \<Longrightarrow>
   \<exists>ctx'. getMessageContext err (with_timestamp i t db) i = Inr ctx'
        \<and> context_messages ctx' = context_messages ctx"
  by (simp add: context_with_timestamp)

lemma first_rows_are_least:
  fixes c :: "'r \<Rightarrow> ntext"
  assumes "x \<in> set (take n (order_by c rs))" and "y \<in> set rs"
    and "y \<notin> set (take n (order_by c rs))"
  shows "c x \<le> c y"
proof -
  have "sorted (map c (take n (order_by c rs) @ drop n (order_by c rs)))"
    by (simp add: order_by_def)
  then have "\<forall>a\<in>set (take n (order_by c rs)). \<forall>b\<in>set (drop n (order_by c rs)). c a \<le> c b"
    by (simp only: map_append sorted_append set_map) blast
  moreover have "y \<in> set (take n (order_by c rs) @ drop n (order_by c rs))"
    using assms(2) by (simp add: order_by_def)
  then have "y \<in> set (drop n (order_by c rs))"
    using assms(3) by (simp only: set_append) blast
  ultimately show ?thesis
    using assms(1) by blast
qed

text \<open>
  C2. \<^verbatim>\<open>getMessageContext\<close> on an id that no message row has fails, and with the message
  \<^verbatim>\<open>Message not found\<close> when the lookup query itself does not fail. On an id that a row has,
  and when neither query fails, it returns the row joined with its author (the columns of
  the \<^verbatim>\<open>messages\<close> row with this id, and as \<^verbatim>\<open>username\<close>, \<^verbatim>\<open>avatar\<close> and \<^verbatim>\<open>globalName\<close> those of
  an \<^verbatim>\<open>authors\<close> row whose id is the \<^verbatim>\<open>author_id\<close> of the message, or NULL when there is no
  such row; the context rows are joined in the same way), the channel id of that row, and
  as context the first 20 rows, in ascending order of \<^verbatim>\<open>message_timestamp\<close>,
  among the joined rows of the other messages of that channel: the selection does not look
  at the timestamp of the target: a qualifying row left out is no earlier than any row of
  the context, and the context stays the same when the timestamp of the target is changed.
  The order is that of the column as text. Every context row has another id, the channel
  of the target, and comes from the \<^verbatim>\<open>messages\<close> table; the count is the length of the list. In
  particular, when the table holds exactly three messages \<open>a\<close>, \<open>b\<close>, \<open>c\<close> of one channel with
  timestamps in this order (and author ids are unique), the context of \<open>b\<close> is \<open>[a, c]\<close>.
\<close>

theorem getMessageContext_contract:
  "((\<forall>m\<in>set (messages db). m_id m \<noteq> messageId) \<longrightarrow>
       isl (getMessageContext err db messageId)
     \<and> (err 0 = None \<longrightarrow> getMessageContext err db messageId = Inl ''Message not found''))
   \<and> (err 0 = None \<and> err 1 = None \<and> (\<exists>m\<in>set (messages db). m_id m = messageId) \<longrightarrow>
        (\<exists>ctx. getMessageContext err db messageId = Inr ctx
           \<and> (\<exists>m\<in>set (messages db).
                 m_id m = messageId \<and> message ctx \<in> set (left_join (authors db) m))
           \<and> m_id (message ctx) = messageId
           \<and> message_row.truncate (message ctx) \<in> set (messages db)
           \<and> (\<forall>j\<in>set (message ctx # context_messages ctx).
                 (\<exists>a\<in>set (authors db).
                    author_id j = Some (a_id a) \<and> username j = a_username a
                    \<and> avatar j = a_avatar a \<and> globalName j = a_globalName a)
                 \<or> ((\<forall>a\<in>set (authors db). author_id j \<noteq> Some (a_id a))
                    \<and> username j = None \<and> avatar j = None \<and> globalName j = None))
           \<and> channel_id ctx = channelId (message ctx)
           \<and> context_messages ctx =
                take 20 (order_by message_timestamp
                  (select_joined db
                     (\<lambda>m. sql_eq (channelId m) (channel_id ctx) \<and> m_id m \<noteq> messageId)))
           \<and> length (context_messages ctx) \<le> 20
           \<and> (\<forall>c\<in>set (context_messages ctx).
                 m_id c \<noteq> messageId \<and> sql_eq (channelId c) (channel_id ctx)
                 \<and> message_row.truncate c \<in> set (messages db))
           \<and> sorted (map message_timestamp (context_messages ctx))
           \<and> (\<forall>x\<in>set (context_messages ctx).
                 \<forall>y\<in>set (select_joined db
                          (\<lambda>m. sql_eq (channelId m) (channel_id ctx) \<and> m_id m \<noteq> messageId)).
                   y \<notin> set (context_messages ctx) \<longrightarrow>
                   message_timestamp x \<le> message_timestamp y)
           \<and> (\<exists>ctx'. getMessageContext err (with_timestamp messageId t db) messageId = Inr ctx'
                 \<and> context_messages ctx' = context_messages ctx)
           \<and> context_message_count ctx = length (context_messages ctx)))
   \<and> (err 0 = None \<and> err 1 = None \<and> mset (messages db) = {#a, b, c#}
        \<and> m_id a \<noteq> m_id b \<and> m_id c \<noteq> m_id b
        \<and> channelId a = Some ch \<and> channelId b = Some ch \<and> channelId c = Some ch
        \<and> message_timestamp a < message_timestamp b
        \<and> message_timestamp b < message_timestamp c
        \<and> distinct (map a_id (authors db)) \<longrightarrow>
        (\<exists>ctx. getMessageContext err db (m_id b) = Inr ctx
           \<and> map message_row.truncate (context_messages ctx) = [a, c]
           \<and> context_message_count ctx = 2))"
proof (intro conjI impI)
  assume none: "\<forall>m\<in>set (messages db). m_id m \<noteq> messageId"
  then have empty: "select_joined db (\<lambda>m. m_id m = messageId) = []"
    by (simp add: select_joined_Nil)
  show "isl (getMessageContext err db messageId)"
    by (simp add: getMessageContext_def db_get_def empty split: option.splits)
  show "getMessageContext err db messageId = Inl ''Message not found''" if "err 0 = None"
    using that by (simp add: getMessageContext_def db_get_def empty)
next
  assume "err 0 = None \<and> err 1 = None \<and> (\<exists>m\<in>set (messages db). m_id m = messageId)"
  then have h: "err 0 = None" "err (Suc 0) = None" "\<exists>m\<in>set (messages db). m_id m = messageId"
    by simp_all
  from context_found [OF h] obtain target rest where
    sel: "select_joined db (\<lambda>m. m_id m = messageId) = target # rest" and
    res: "getMessageContext err db messageId =
             Inr \<lparr>message = target, channel_id = channelId target,
                  context_messages =
                    take 20 (order_by message_timestamp
                      (select_joined db
                         (\<lambda>m. sql_eq (channelId m) (channelId target) \<and> m_id m \<noteq> messageId))),
                  context_message_count =
                    length (take 20 (order_by message_timestamp
                      (select_joined db
                         (\<lambda>m. sql_eq (channelId m) (channelId target) \<and> m_id m \<noteq> messageId))))\<rparr>"
    by blast
  let ?others = "select_joined db
                   (\<lambda>m. sql_eq (channelId m) (channelId target) \<and> m_id m \<noteq> messageId)"
  have "target \<in> set (select_joined db (\<lambda>m. m_id m = messageId))"
    by (simp add: sel)
  then have origin:
    "\<exists>m\<in>set (messages db). m_id m = messageId \<and> target \<in> set (left_join (authors db) m)"
    by (rule select_joined_source)
  have each: "m_id c \<noteq> messageId \<and> sql_eq (channelId c) (channelId target)
                \<and> message_row.truncate c \<in> set (messages db)"
    if "c \<in> set (take 20 (order_by message_timestamp ?others))" for c
  proof -
    have "c \<in> set ?others"
      using that by (auto simp: order_by_def dest: in_set_takeD)
    then obtain m where m: "m \<in> set (messages db)"
        "sql_eq (channelId m) (channelId target) \<and> m_id m \<noteq> messageId"
        "c \<in> set (left_join (authors db) m)"
      using select_joined_source by blast
    then show ?thesis
      using left_join_columns [OF m(3)] by simp
  qed
  have target_row: "m_id target = messageId" "message_row.truncate target \<in> set (messages db)"
  proof -
    from origin obtain m where m: "m \<in> set (messages db)" "m_id m = messageId"
        "target \<in> set (left_join (authors db) m)"
      by (elim bexE conjE)
    show "m_id target = messageId" "message_row.truncate target \<in> set (messages db)"
      using left_join_columns [OF m(3)] m(1,2) by simp_all
  qed
  have joined: "\<forall>j\<in>set (target # take 20 (order_by message_timestamp ?others)).
      (\<exists>a\<in>set (authors db).
         author_id j = Some (a_id a) \<and> username j = a_username a
         \<and> avatar j = a_avatar a \<and> globalName j = a_globalName a)
      \<or> ((\<forall>a\<in>set (authors db). author_id j \<noteq> Some (a_id a))
         \<and> username j = None \<and> avatar j = None \<and> globalName j = None)"
  proof
    fix j
    assume "j \<in> set (target # take 20 (order_by message_timestamp ?others))"
    then have "j = target \<or> j \<in> set ?others"
      by (auto simp: order_by_def dest: in_set_takeD)
    then obtain m where "j \<in> set (left_join (authors db) m)"
      using origin select_joined_source [of j db] by blast
    then show "(\<exists>a\<in>set (authors db).
         author_id j = Some (a_id a) \<and> username j = a_username a
         \<and> avatar j = a_avatar a \<and> globalName j = a_globalName a)
      \<or> ((\<forall>a\<in>set (authors db). author_id j \<noteq> Some (a_id a))
         \<and> username j = None \<and> avatar j = None \<and> globalName j = None)"
      by (rule left_join_author)
  qed
  let ?cm = "take 20 (order_by message_timestamp ?others)"
  let ?ctx = "\<lparr>message = target, channel_id = channelId target, context_messages = ?cm,
                context_message_count = length ?cm\<rparr>"
  have least: "\<forall>x\<in>set ?cm. \<forall>y\<in>set ?others.
      y \<notin> set ?cm \<longrightarrow> message_timestamp x \<le> message_timestamp y"
  proof (intro ballI impI)
    fix x y
    assume "x \<in> set ?cm" "y \<in> set ?others" "y \<notin> set ?cm"
    then show "message_timestamp x \<le> message_timestamp y"
      by (rule first_rows_are_least)
  qed
  have indep: "\<exists>ctx'. getMessageContext err (with_timestamp messageId t db) messageId = Inr ctx'
      \<and> context_messages ctx' = ?cm"
    using context_ignores_target_timestamp [OF res] by simp
  show "\<exists>ctx. getMessageContext err db messageId = Inr ctx
           \<and> (\<exists>m\<in>set (messages db).
                 m_id m = messageId \<and> message ctx \<in> set (left_join (authors db) m))
           \<and> m_id (message ctx) = messageId
           \<and> message_row.truncate (message ctx) \<in> set (messages db)
           \<and> (\<forall>j\<in>set (message ctx # context_messages ctx).
                 (\<exists>a\<in>set (authors db).
                    author_id j = Some (a_id a) \<and> username j = a_username a
                    \<and> avatar j = a_avatar a \<and> globalName j = a_globalName a)
                 \<or> ((\<forall>a\<in>set (authors db). author_id j \<noteq> Some (a_id a))
                    \<and> username j = None \<and> avatar j = None \<and> globalName j = None))
           \<and> channel_id ctx = channelId (message ctx)
           \<and> context_messages ctx =
                take 20 (order_by message_timestamp
                  (select_joined db
                     (\<lambda>m. sql_eq (channelId m) (channel_id ctx) \<and> m_id m \<noteq> messageId)))
           \<and> length (context_messages ctx) \<le> 20
           \<and> (\<forall>c\<in>set (context_messages ctx).
                 m_id c \<noteq> messageId \<and> sql_eq (channelId c) (channel_id ctx)
                 \<and> message_row.truncate c \<in> set (messages db))
           \<and> sorted (map message_timestamp (context_messages ctx))
           \<and> (\<forall>x\<in>set (context_messages ctx).
                 \<forall>y\<in>set (select_joined db
                          (\<lambda>m. sql_eq (channelId m) (channel_id ctx) \<and> m_id m \<noteq> messageId)).
                   y \<notin> set (context_messages ctx) \<longrightarrow>
                   message_timestamp x \<le> message_timestamp y)
           \<and> (\<exists>ctx'. getMessageContext err (with_timestamp messageId t db) messageId = Inr ctx'
                 \<and> context_messages ctx' = context_messages ctx)
           \<and> context_message_count ctx = length (context_messages ctx)"
  proof (rule exI [of _ ?ctx], intro conjI)
    show "getMessageContext err db messageId = Inr ?ctx"
      by (rule res)
    show "\<exists>m\<in>set (messages db).
            m_id m = messageId \<and> message ?ctx \<in> set (left_join (authors db) m)"
      using origin by simp
    show "m_id (message ?ctx) = messageId"
      using target_row by simp
    show "message_row.truncate (message ?ctx) \<in> set (messages db)"
      using target_row by simp
    show "\<forall>j\<in>set (message ?ctx # context_messages ?ctx).
            (\<exists>a\<in>set (authors db).
               author_id j = Some (a_id a) \<and> username j = a_username a
               \<and> avatar j = a_avatar a \<and> globalName j = a_globalName a)
            \<or> ((\<forall>a\<in>set (authors db). author_id j \<noteq> Some (a_id a))
               \<and> username j = None \<and> avatar j = None \<and> globalName j = None)"
      using joined by (simp only: MessageContext.select_convs)
    show "channel_id ?ctx = channelId (message ?ctx)"
      by simp
    show "context_messages ?ctx =
            take 20 (order_by message_timestamp
              (select_joined db
                 (\<lambda>m. sql_eq (channelId m) (channel_id ?ctx) \<and> m_id m \<noteq> messageId)))"
      by simp
    show "length (context_messages ?ctx) \<le> 20"
      by simp
    show "\<forall>c\<in>set (context_messages ?ctx).
            m_id c \<noteq> messageId \<and> sql_eq (channelId c) (channel_id ?ctx)
            \<and> message_row.truncate c \<in> set (messages db)"
      using each by simp
    show "sorted (map message_timestamp (context_messages ?ctx))"
      by (simp add: sorted_take_order_by)
    show "\<forall>x\<in>set (context_messages ?ctx).
            \<forall>y\<in>set (select_joined db
                     (\<lambda>m. sql_eq (channelId m) (channel_id ?ctx) \<and> m_id m \<noteq> messageId)).
              y \<notin> set (context_messages ?ctx) \<longrightarrow>
              message_timestamp x \<le> message_timestamp y"
      using least by (simp only: MessageContext.select_convs)
    show "\<exists>ctx'. getMessageContext err (with_timestamp messageId t db) messageId = Inr ctx'
            \<and> context_messages ctx' = context_messages ?ctx"
      using indep by (simp only: MessageContext.select_convs)
    show "context_message_count ?ctx = length (context_messages ?ctx)"
      by simp
  qed
next
  assume "err 0 = None \<and> err 1 = None \<and> mset (messages db) = {#a, b, c#}
        \<and> m_id a \<noteq> m_id b \<and> m_id c \<noteq> m_id b
        \<and> channelId a = Some ch \<and> channelId b = Some ch \<and> channelId c = Some ch
        \<and> message_timestamp a < message_timestamp b
        \<and> message_timestamp b < message_timestamp c
        \<and> distinct (map a_id (authors db))"
  then show "\<exists>ctx. getMessageContext err db (m_id b) = Inr ctx
           \<and> map message_row.truncate (context_messages ctx) = [a, c]
           \<and> context_message_count ctx = 2"
    by (intro three_messages) auto
qed

lemma example_rows:
  "m_id late_row = ''late''" "m_id early_row = ''early''" "m_id mid_row = ''mid''"
  "channelId late_row = Some ''C''" "channelId early_row = Some ''C''"
  "channelId mid_row = Some ''C''"
  "message_timestamp late_row = Some ''2025-01-01T10:10:00.000Z''"
  "message_timestamp early_row = Some ''2025-01-01T10:00:00.000Z''"
  "message_timestamp mid_row = Some ''2025-01-01T10:01:00.000Z''"
  by (simp_all add: late_row_def early_row_def mid_row_def msgValues_def late_post_def
        early_post_def mid_post_def chat_post_def chat_message_def blank_envelope_def
        blank_message_def)

lemma joined_example:
  "select_joined channel_store p =
     concat (map (\<lambda>m. if p m then left_join (authors channel_store) m else [])
       [late_row, early_row, mid_row])"
  by (simp add: select_joined_def channel_store_tables)

lemma example_authors:
  "author_id late_row = Some ''A1''" "author_id early_row = Some ''B1''"
  "author_id mid_row = Some ''A1''"
  by (simp_all add: late_row_def early_row_def mid_row_def msgValues_def author_id_of_def
        chat_message_def blank_message_def ann_def bob_def blank_author_def)

lemma example_joins:
  "left_join (authors channel_store) late_row =
     [message_row.extend late_row (joined_row.fields (Some ''ann'') (Some ''ann.png'') (Some ''Ann''))]"
  "left_join (authors channel_store) early_row =
     [message_row.extend early_row (joined_row.fields (Some ''bob'') None None)]"
  "left_join (authors channel_store) mid_row =
     [message_row.extend mid_row (joined_row.fields (Some ''ann'') (Some ''ann.png'') (Some ''Ann''))]"
  by (simp_all add: left_join_def channel_store_tables example_authors authorValues_def
        ann_def bob_def blank_author_def)

lemma extend_columns:
  "m_id (message_row.extend r x) = m_id r"
  "channelId (message_row.extend r x) = channelId r"
  "message_timestamp (message_row.extend r x) = message_timestamp r"
  "content (message_row.extend r x) = content r"
  "created_at (message_row.extend r x) = created_at r"
  "author_id (message_row.extend r x) = author_id r"
  "username (message_row.extend r (joined_row.fields u a g)) = u"
  "avatar (message_row.extend r (joined_row.fields u a g)) = a"
  "globalName (message_row.extend r (joined_row.fields u a g)) = g"
  "message_row.truncate (message_row.extend r x) = r"
  by (simp_all add: message_row.defs joined_row.defs)

lemma example_context:
  "getMessageContext no_fault channel_store ''mid'' =
     Inr \<lparr>message = message_row.extend mid_row
                      (joined_row.fields (Some ''ann'') (Some ''ann.png'') (Some ''Ann'')),
          channel_id = Some ''C'',
          context_messages =
            [message_row.extend early_row (joined_row.fields (Some ''bob'') None None),
             message_row.extend late_row (joined_row.fields (Some ''ann'') (Some ''ann.png'') (Some ''Ann''))],
          context_message_count = 2\<rparr>"
  by (simp add: getMessageContext_def db_get_def db_all_def no_fault_def joined_example
        example_rows example_joins extend_columns order_by_def)

theorem getMessageContext_contract_witness:
  "''nope'' \<notin> set (map m_id (messages channel_store))
   \<and> getMessageContext no_fault channel_store ''nope'' = Inl ''Message not found''
   \<and> (no_fault :: read_faults) 0 = None \<and> (no_fault :: read_faults) 1 = None
   \<and> (\<exists>m\<in>set (messages channel_store). m_id m = ''mid'')
   \<and> mset (messages channel_store) = {#early_row, mid_row, late_row#}
   \<and> m_id early_row \<noteq> m_id mid_row \<and> m_id late_row \<noteq> m_id mid_row
   \<and> channelId early_row = Some ''C'' \<and> channelId mid_row = Some ''C''
   \<and> channelId late_row = Some ''C''
   \<and> message_timestamp early_row < message_timestamp mid_row
   \<and> message_timestamp mid_row < message_timestamp late_row
   \<and> distinct (map a_id (authors channel_store))
   \<and> (\<exists>ctx. getMessageContext no_fault channel_store ''mid'' = Inr ctx
         \<and> map message_row.truncate (context_messages ctx) = [early_row, late_row]
         \<and> map m_id (context_messages ctx) = [''early'', ''late'']
         \<and> length (context_messages ctx) \<le> 20
         \<and> context_message_count ctx = 2
         \<and> message_row.truncate (message ctx) = mid_row
         \<and> author_id (message ctx) = Some ''A1''
         \<and> username (message ctx) = Some ''ann''
         \<and> avatar (message ctx) = Some ''ann.png''
         \<and> globalName (message ctx) = Some ''Ann''
         \<and> channel_id ctx = Some ''C''
         \<and> map username (context_messages ctx) = [Some ''bob'', Some ''ann'']
         \<and> map avatar (context_messages ctx) = [None, Some ''ann.png'']
         \<and> map globalName (context_messages ctx) = [None, Some ''Ann''])"
proof -
  have nope: "\<forall>m\<in>set (messages channel_store). m_id m \<noteq> ''nope''"
    by (simp add: channel_store_tables example_rows)
  have f: "(no_fault :: read_faults) 0 = None" "(no_fault :: read_faults) 1 = None"
    by (simp_all add: no_fault_def)
  have mid: "\<exists>m\<in>set (messages channel_store). m_id m = ''mid''"
    by (simp add: channel_store_tables example_rows)
  have three: "mset (messages channel_store) = {#early_row, mid_row, late_row#}"
    by (simp add: channel_store_tables)
  have ids: "m_id early_row \<noteq> m_id mid_row" "m_id late_row \<noteq> m_id mid_row"
    by (simp_all add: example_rows)
  have chan: "channelId early_row = Some ''C''" "channelId mid_row = Some ''C''"
    "channelId late_row = Some ''C''"
    by (simp_all add: example_rows)
  have ts: "message_timestamp early_row < message_timestamp mid_row"
    "message_timestamp mid_row < message_timestamp late_row"
    by (simp_all add: example_rows)
  have auth: "distinct (map a_id (authors channel_store))"
    by (simp add: channel_store_tables authorValues_def)
  from getMessageContext_contract
    [where db = channel_store and messageId = "''nope''" and err = no_fault, THEN conjunct1]
    nope f(1)
  have absent: "getMessageContext no_fault channel_store ''nope'' = Inl ''Message not found''"
    by blast
  have H: "(no_fault :: read_faults) 0 = None \<and> (no_fault :: read_faults) 1 = None
        \<and> mset (messages channel_store) = {#early_row, mid_row, late_row#}
        \<and> m_id early_row \<noteq> m_id mid_row \<and> m_id late_row \<noteq> m_id mid_row
        \<and> channelId early_row = Some ''C'' \<and> channelId mid_row = Some ''C''
        \<and> channelId late_row = Some ''C''
        \<and> message_timestamp early_row < message_timestamp mid_row
        \<and> message_timestamp mid_row < message_timestamp late_row
        \<and> distinct (map a_id (authors channel_store))"
    by (intro conjI f three ids chan ts auth)
  have "\<exists>ctx. getMessageContext no_fault channel_store (m_id mid_row) = Inr ctx
           \<and> map message_row.truncate (context_messages ctx) = [early_row, late_row]
           \<and> context_message_count ctx = 2"
    by (rule getMessageContext_contract
         [where db = channel_store and err = no_fault and a = early_row and b = mid_row
            and c = late_row and ch = "''C''" and messageId = "''mid''",
          THEN conjunct2, THEN conjunct2, THEN mp, OF H])
  then obtain ctx where ctx: "getMessageContext no_fault channel_store (m_id mid_row) = Inr ctx"
    "map message_row.truncate (context_messages ctx) = [early_row, late_row]"
    "context_message_count ctx = 2"
    by (elim exE conjE) (rule that)
  have "map m_id (context_messages ctx) = map m_id (map message_row.truncate (context_messages ctx))"
    by (simp add: truncate_columns)
  then have names: "map m_id (context_messages ctx) = [''early'', ''late'']"
    by (simp add: ctx(2) example_rows)
  have "length (context_messages ctx) = length (map message_row.truncate (context_messages ctx))"
    by simp
  then have short: "length (context_messages ctx) \<le> 20"
    by (simp add: ctx(2))
  have whole: "ctx =
     \<lparr>message = message_row.extend mid_row
                      (joined_row.fields (Some ''ann'') (Some ''ann.png'') (Some ''Ann'')),
          channel_id = Some ''C'',
          context_messages =
            [message_row.extend early_row (joined_row.fields (Some ''bob'') None None),
             message_row.extend late_row
               (joined_row.fields (Some ''ann'') (Some ''ann.png'') (Some ''Ann''))],
          context_message_count = 2\<rparr>"
    using ctx(1) by (simp add: example_rows example_context)
  have target: "message_row.truncate (message ctx) = mid_row"
    "author_id (message ctx) = Some ''A1''"
    "username (message ctx) = Some ''ann''" "avatar (message ctx) = Some ''ann.png''"
    "globalName (message ctx) = Some ''Ann''" "channel_id ctx = Some ''C''"
    "map username (context_messages ctx) = [Some ''bob'', Some ''ann'']"
    "map avatar (context_messages ctx) = [None, Some ''ann.png'']"
    "map globalName (context_messages ctx) = [None, Some ''Ann'']"
    by (simp_all add: whole extend_columns example_authors)
  have here: "getMessageContext no_fault channel_store ''mid'' = Inr ctx"
    using ctx(1) by (simp add: example_rows)
  have found: "\<exists>ctx. getMessageContext no_fault channel_store ''mid'' = Inr ctx
         \<and> map message_row.truncate (context_messages ctx) = [early_row, late_row]
         \<and> map m_id (context_messages ctx) = [''early'', ''late'']
         \<and> length (context_messages ctx) \<le> 20
         \<and> context_message_count ctx = 2
         \<and> message_row.truncate (message ctx) = mid_row
         \<and> author_id (message ctx) = Some ''A1''
         \<and> username (message ctx) = Some ''ann''
         \<and> avatar (message ctx) = Some ''ann.png''
         \<and> globalName (message ctx) = Some ''Ann''
         \<and> channel_id ctx = Some ''C''
         \<and> map username (context_messages ctx) = [Some ''bob'', Some ''ann'']
         \<and> map avatar (context_messages ctx) = [None, Some ''ann.png'']
         \<and> map globalName (context_messages ctx) = [None, Some ''Ann'']"
    by (rule exI [of _ ctx], intro conjI here ctx(2) names short ctx(3) target)
  have nope': "''nope'' \<notin> set (map m_id (messages channel_store))"
    by (simp add: channel_store_tables example_rows)
  show ?thesis
    by (intro conjI nope' absent f mid three ids chan ts auth found)
qed

subsection \<open>The transcript\<close>

lemma mset_insert_before: "mset (insert_before lt x ys) = add_mset x (mset ys)"
  by (induction ys) simp_all

lemma mset_insertion_sort: "mset (foldr (insert_before lt) xs []) = mset xs"
  by (induction xs) (simp_all add: mset_insert_before)

lemma mset_put_in: "mset (take k ys @ x # drop k ys) = add_mset x (mset ys)"
proof -
  have "mset (take k ys) + mset (drop k ys) = mset (take k ys @ drop k ys)"
    by (simp only: mset_append)
  also have "\<dots> = mset ys"
    by (simp only: append_take_drop_id)
  finally show ?thesis
    by simp
qed

lemma mset_arrange: "mset (arrange ns xs) = mset xs"
  by (induction ns xs rule: arrange.induct) (simp_all add: Let_def mset_put_in del: mset_append)

lemma mset_js_sort: "mset (js_sort X xs) = mset xs"
  by (simp add: js_sort_def Let_def mset_insertion_sort mset_arrange)

lemma set_js_sort: "set (js_sort X xs) = set xs"
  using mset_js_sort [of X xs] by (metis set_mset_mset)

lemma length_js_sort: "length (js_sort X xs) = length xs"
  using mset_js_sort [of X xs] by (metis size_mset)

lemma js_sort_Nil: "js_sort X [] = []"
  by (simp add: js_sort_def)

lemma those_Some: "those xs = Some ys \<longleftrightarrow> xs = map Some ys"
  by (induction xs arbitrary: ys) (auto split: option.splits)

lemma those_map_Some: "those (map Some ls) = Some ls"
  by (induction ls) simp_all

lemma all_defined:
  "\<forall>x\<in>set xs. f x \<noteq> None \<Longrightarrow> \<exists>ls. map f xs = map Some ls"
proof (induction xs)
  case Nil
  then show ?case by simp
next
  case (Cons x xs)
  then obtain ls where ls: "map f xs = map Some ls"
    by auto
  from Cons.prems obtain y where y: "f x = Some y"
    by auto
  have "map f (x # xs) = map Some (y # ls)"
    by (simp add: ls y)
  then show ?case ..
qed

lemma getChatLog_failed:
  "getMessageContext err db messageId = Inl e \<Longrightarrow> getChatLog X err db messageId = []"
  by (simp add: getChatLog_def)

lemma getChatLog_lines:
  assumes "getMessageContext err db messageId = Inr ctx"
    and "line \<in> set (getChatLog X err db messageId)"
  shows "map Some (getChatLog X err db messageId) =
           map (log_line X) (js_sort X (context_messages ctx))"
proof (cases "those (map (log_line X) (js_sort X (context_messages ctx)))")
  case None
  then show ?thesis using assms by (simp add: getChatLog_def)
next
  case (Some ls)
  then show ?thesis using assms(1) by (auto simp: getChatLog_def those_Some those_map_Some)
qed

lemma getChatLog_line_source:
  assumes "getMessageContext err db messageId = Inr ctx"
    and "line \<in> set (getChatLog X err db messageId)"
  shows "\<exists>msg\<in>set (context_messages ctx). log_line X msg = Some line"
proof -
  have "Some line \<in> set (map Some (getChatLog X err db messageId))"
    using assms(2) by simp
  then have "Some line \<in> set (map (log_line X) (js_sort X (context_messages ctx)))"
    by (simp only: getChatLog_lines [OF assms])
  then show ?thesis
    by (auto simp: set_js_sort)
qed

lemma getChatLog_rendered:
  assumes "getMessageContext err db messageId = Inr ctx"
    and "\<forall>msg\<in>set (context_messages ctx). timeString X msg \<noteq> None"
  shows "map Some (getChatLog X err db messageId) =
           map (log_line X) (js_sort X (context_messages ctx))"
proof -
  have "\<forall>msg\<in>set (js_sort X (context_messages ctx)). log_line X msg \<noteq> None"
    using assms(2) by (simp add: set_js_sort log_line_def)
  then obtain ls where ls: "map (log_line X) (js_sort X (context_messages ctx)) = map Some ls"
    using all_defined by blast
  then show ?thesis
    using assms(1) by (simp add: getChatLog_def those_map_Some)
qed

lemma log_line_format:
  assumes "log_line X msg = Some line"
  shows "\<exists>hhmm. line = ''['' @ hhmm @ ''] ''
                    @ template (if truthy_text (globalName msg) then globalName msg
                                else username msg)
                    @ '': '' @ template (content msg)
           \<and> (truthy_text (created_at msg) \<longrightarrow>
                 (\<exists>c. created_at msg = Some c \<and> hhmm = take 5 (drop 11 c)))
           \<and> (\<not> truthy_text (created_at msg) \<longrightarrow>
                 (\<exists>t iso. (case message_timestamp msg of
                              None \<Rightarrow> t = 0 | Some ts \<Rightarrow> Date_parse X ts = Some t)
                    \<and> toISOString X t = Some iso \<and> hhmm = take 5 (drop 11 iso)))"
proof -
  from assms obtain hhmm where t: "timeString X msg = Some hhmm"
    and l: "line = ''['' @ hhmm @ ''] '' @ template (display_name msg) @ '': ''
                  @ template (content msg)"
    by (auto simp: log_line_def)
  have "truthy_text (created_at msg) \<longrightarrow>
          (\<exists>c. created_at msg = Some c \<and> hhmm = take 5 (drop 11 c))"
    using t by (auto simp: timeString_def slice_def split: option.splits if_splits)
  moreover have "\<not> truthy_text (created_at msg) \<longrightarrow>
          (\<exists>t iso. (case message_timestamp msg of
                       None \<Rightarrow> t = 0 | Some ts \<Rightarrow> Date_parse X ts = Some t)
             \<and> toISOString X t = Some iso \<and> hhmm = take 5 (drop 11 iso))"
    using t
    by (auto simp: timeString_def substr_def getTime_def bind_eq_Some_conv
          split: option.splits if_splits)
  ultimately show ?thesis
    using l by (auto simp: display_name_def)
qed

lemma timeString_created:
  "truthy_text (created_at msg) \<Longrightarrow> timeString X msg \<noteq> None"
  by (auto simp: timeString_def split: option.splits)

lemma timeString_defined:
  assumes "truthy_text (created_at msg)
           \<or> (\<exists>t iso. (case message_timestamp msg of
                          None \<Rightarrow> t = 0 | Some ts \<Rightarrow> Date_parse X ts = Some t)
                \<and> toISOString X t = Some iso)"
  shows "timeString X msg \<noteq> None"
proof (cases "truthy_text (created_at msg)")
  case True
  then show ?thesis by (auto simp: timeString_def split: option.splits)
next
  case False
  with assms obtain t iso where
    "case message_timestamp msg of None \<Rightarrow> t = 0 | Some ts \<Rightarrow> Date_parse X ts = Some t"
    "toISOString X t = Some iso"
    by blast
  then have "Option.bind (getTime X (message_timestamp msg)) (toISOString X) = Some iso"
    by (cases "message_timestamp msg") (simp_all add: getTime_def)
  then show ?thesis
    by (simp add: timeString_def split: option.splits)
qed

lemma timeString_undefined:
  assumes "\<not> truthy_text (created_at msg)"
    and "\<not> (\<exists>t iso. (case message_timestamp msg of
                          None \<Rightarrow> t = 0 | Some ts \<Rightarrow> Date_parse X ts = Some t)
                \<and> toISOString X t = Some iso)"
  shows "timeString X msg = None"
proof -
  have "Option.bind (getTime X (message_timestamp msg)) (toISOString X) = None"
  proof (cases "Option.bind (getTime X (message_timestamp msg)) (toISOString X)")
    case None
    then show ?thesis .
  next
    case (Some iso)
    then obtain t where "getTime X (message_timestamp msg) = Some t" "toISOString X t = Some iso"
      by (auto simp: bind_eq_Some_conv)
    then have "(case message_timestamp msg of
                  None \<Rightarrow> t = 0 | Some ts \<Rightarrow> Date_parse X ts = Some t)
               \<and> toISOString X t = Some iso"
      by (cases "message_timestamp msg") (auto simp: getTime_def)
    with assms(2) show ?thesis by blast
  qed
  then show ?thesis
    using assms(1) by (cases "created_at msg") (simp_all add: timeString_def)
qed

lemma those_None: "None \<in> set xs \<Longrightarrow> those xs = None"
  by (induction xs) (auto split: option.splits)

lemma getChatLog_unrendered:
  assumes "getMessageContext err db messageId = Inr ctx"
    and "msg \<in> set (context_messages ctx)" and "timeString X msg = None"
  shows "getChatLog X err db messageId = []"
proof -
  have "log_line X msg = None"
    using assms(3) by (simp add: log_line_def)
  then have "None \<in> set (map (log_line X) (js_sort X (context_messages ctx)))"
    using assms(2) by (simp add: set_js_sort image_iff) (metis)
  then show ?thesis
    using assms(1) by (simp add: getChatLog_def those_None)
qed

text \<open>
  C5. Whenever \<^verbatim>\<open>getMessageContext\<close> fails, whatever the error, \<^verbatim>\<open>getChatLog\<close> returns the empty
  list; its result type has no error. An id that no message row has is such a case,
  whether the lookup query fails or finds nothing. A message without any context message
  gives the empty list as well, so the empty list does not tell the two apart.
\<close>

theorem getChatLog_swallows_failure:
  "(getMessageContext err db messageId = Inl e \<longrightarrow> getChatLog X err db messageId = [])
   \<and> ((\<forall>m\<in>set (messages db). m_id m \<noteq> messageId) \<longrightarrow>
         isl (getMessageContext err db messageId) \<and> getChatLog X err db messageId = [])
   \<and> (getMessageContext err db messageId = Inr ctx \<and> context_messages ctx = [] \<longrightarrow>
         getChatLog X err db messageId = [])"
proof (intro conjI impI)
  assume "getMessageContext err db messageId = Inl e"
  then show "getChatLog X err db messageId = []"
    by (rule getChatLog_failed)
next
  assume "\<forall>m\<in>set (messages db). m_id m \<noteq> messageId"
  then have "select_joined db (\<lambda>m. m_id m = messageId) = []"
    by (simp add: select_joined_Nil)
  then show fails: "isl (getMessageContext err db messageId)"
    by (simp add: getMessageContext_def db_get_def split: option.splits)
  then obtain e' where "getMessageContext err db messageId = Inl e'"
    by (cases "getMessageContext err db messageId") simp_all
  then show "getChatLog X err db messageId = []"
    by (rule getChatLog_failed)
next
  assume "getMessageContext err db messageId = Inr ctx \<and> context_messages ctx = []"
  then show "getChatLog X err db messageId = []"
    by (simp add: getChatLog_def js_sort_Nil)
qed

text \<open>
  C6. When the context is assembled, every line of the transcript is
  \<^verbatim>\<open>[\<close>\<open>hhmm\<close>\<^verbatim>\<open>] \<close>\<open>name\<close>\<^verbatim>\<open>: \<close>\<open>content\<close> for one of the context messages: \<open>name\<close> is its \<^verbatim>\<open>globalName\<close>
  when that is present (not NULL and not empty) and its \<^verbatim>\<open>username\<close> otherwise; \<open>hhmm\<close> is
  the five characters from position 11 of \<^verbatim>\<open>created_at\<close> when that is present, and otherwise
  the five characters from position 11 of \<^verbatim>\<open>new Date(message_timestamp).toISOString()\<close>,
  where a NULL timestamp is the epoch. A NULL name or content prints as \<^verbatim>\<open>null\<close>. When
  every context message has \<^verbatim>\<open>created_at\<close> or a timestamp that is a valid date, each of
  them gets its line, those without \<^verbatim>\<open>created_at\<close> too: the lines are those of the context
  messages, one for each, in the order in which the sort leaves the messages. When a
  context message has neither, \<^verbatim>\<open>toISOString\<close> throws and the transcript is empty.
\<close>

theorem transcript_line_format:
  assumes "getMessageContext err db messageId = Inr ctx"
  shows "(\<forall>line\<in>set (getChatLog X err db messageId).
            \<exists>msg\<in>set (context_messages ctx). \<exists>hhmm.
              line = ''['' @ hhmm @ ''] ''
                     @ template (if truthy_text (globalName msg) then globalName msg
                                 else username msg)
                     @ '': '' @ template (content msg)
              \<and> (truthy_text (created_at msg) \<longrightarrow>
                    (\<exists>c. created_at msg = Some c \<and> hhmm = take 5 (drop 11 c)))
              \<and> (\<not> truthy_text (created_at msg) \<longrightarrow>
                    (\<exists>t iso. (case message_timestamp msg of
                                 None \<Rightarrow> t = 0 | Some ts \<Rightarrow> Date_parse X ts = Some t)
                       \<and> toISOString X t = Some iso \<and> hhmm = take 5 (drop 11 iso))))
       \<and> ((\<forall>msg\<in>set (context_messages ctx).
              truthy_text (created_at msg)
              \<or> (\<exists>t iso. (case message_timestamp msg of
                             None \<Rightarrow> t = 0 | Some ts \<Rightarrow> Date_parse X ts = Some t)
                   \<and> toISOString X t = Some iso)) \<longrightarrow>
             (\<forall>msg\<in>set (context_messages ctx). \<exists>hhmm.
                ''['' @ hhmm @ ''] ''
                  @ template (if truthy_text (globalName msg) then globalName msg
                              else username msg)
                  @ '': '' @ template (content msg)
                  \<in> set (getChatLog X err db messageId)
                \<and> (truthy_text (created_at msg) \<longrightarrow>
                      (\<exists>c. created_at msg = Some c \<and> hhmm = take 5 (drop 11 c)))
                \<and> (\<not> truthy_text (created_at msg) \<longrightarrow>
                      (\<exists>t iso. (case message_timestamp msg of
                                   None \<Rightarrow> t = 0 | Some ts \<Rightarrow> Date_parse X ts = Some t)
                         \<and> toISOString X t = Some iso \<and> hhmm = take 5 (drop 11 iso))))
           \<and> map Some (getChatLog X err db messageId)
               = map (log_line X) (js_sort X (context_messages ctx))
           \<and> mset (map Some (getChatLog X err db messageId))
               = image_mset (log_line X) (mset (context_messages ctx))
           \<and> length (getChatLog X err db messageId) = length (context_messages ctx))
       \<and> ((\<exists>msg\<in>set (context_messages ctx).
              \<not> truthy_text (created_at msg)
              \<and> \<not> (\<exists>t iso. (case message_timestamp msg of
                               None \<Rightarrow> t = 0 | Some ts \<Rightarrow> Date_parse X ts = Some t)
                     \<and> toISOString X t = Some iso)) \<longrightarrow>
             getChatLog X err db messageId = [])"
proof (intro conjI ballI impI)
  fix line
  assume "line \<in> set (getChatLog X err db messageId)"
  then obtain msg where msg: "msg \<in> set (context_messages ctx)" "log_line X msg = Some line"
    using getChatLog_line_source [OF assms] by blast
  from log_line_format [OF msg(2)] msg(1)
  show "\<exists>msg\<in>set (context_messages ctx). \<exists>hhmm.
              line = ''['' @ hhmm @ ''] ''
                     @ template (if truthy_text (globalName msg) then globalName msg
                                 else username msg)
                     @ '': '' @ template (content msg)
              \<and> (truthy_text (created_at msg) \<longrightarrow>
                    (\<exists>c. created_at msg = Some c \<and> hhmm = take 5 (drop 11 c)))
              \<and> (\<not> truthy_text (created_at msg) \<longrightarrow>
                    (\<exists>t iso. (case message_timestamp msg of
                                 None \<Rightarrow> t = 0 | Some ts \<Rightarrow> Date_parse X ts = Some t)
                       \<and> toISOString X t = Some iso \<and> hhmm = take 5 (drop 11 iso)))"
    by (intro bexI [of _ msg])
next
  assume renderable: "\<forall>msg\<in>set (context_messages ctx).
              truthy_text (created_at msg)
              \<or> (\<exists>t iso. (case message_timestamp msg of
                             None \<Rightarrow> t = 0 | Some ts \<Rightarrow> Date_parse X ts = Some t)
                   \<and> toISOString X t = Some iso)"
  have all: "\<forall>msg\<in>set (context_messages ctx). timeString X msg \<noteq> None"
  proof
    fix msg
    assume "msg \<in> set (context_messages ctx)"
    with renderable have "truthy_text (created_at msg)
              \<or> (\<exists>t iso. (case message_timestamp msg of
                             None \<Rightarrow> t = 0 | Some ts \<Rightarrow> Date_parse X ts = Some t)
                   \<and> toISOString X t = Some iso)"
      by (rule bspec)
    then show "timeString X msg \<noteq> None"
      by (rule timeString_defined)
  qed
  show eq: "map Some (getChatLog X err db messageId) =
               map (log_line X) (js_sort X (context_messages ctx))"
    by (rule getChatLog_rendered [OF assms all])
  {
    fix msg
    assume msg: "msg \<in> set (context_messages ctx)"
    then have "log_line X msg \<noteq> None"
      using all by (simp add: log_line_def)
    then obtain line where line: "log_line X msg = Some line"
      by (cases "log_line X msg") simp_all
    have "msg \<in> set (js_sort X (context_messages ctx))"
      using msg by (simp add: set_js_sort)
    then have "Some line \<in> set (map (log_line X) (js_sort X (context_messages ctx)))"
      using line by (metis image_eqI set_map)
    then have "Some line \<in> set (map Some (getChatLog X err db messageId))"
      by (simp only: eq)
    then have here: "line \<in> set (getChatLog X err db messageId)"
      by auto
    from log_line_format [OF line] obtain hhmm where
      "line = ''['' @ hhmm @ ''] ''
                @ template (if truthy_text (globalName msg) then globalName msg
                            else username msg)
                @ '': '' @ template (content msg)"
      "truthy_text (created_at msg) \<longrightarrow>
         (\<exists>c. created_at msg = Some c \<and> hhmm = take 5 (drop 11 c))"
      "\<not> truthy_text (created_at msg) \<longrightarrow>
         (\<exists>t iso. (case message_timestamp msg of
                      None \<Rightarrow> t = 0 | Some ts \<Rightarrow> Date_parse X ts = Some t)
            \<and> toISOString X t = Some iso \<and> hhmm = take 5 (drop 11 iso))"
      by (elim exE conjE)
    with here
    show "\<exists>hhmm.
                ''['' @ hhmm @ ''] ''
                  @ template (if truthy_text (globalName msg) then globalName msg
                              else username msg)
                  @ '': '' @ template (content msg)
                  \<in> set (getChatLog X err db messageId)
                \<and> (truthy_text (created_at msg) \<longrightarrow>
                      (\<exists>c. created_at msg = Some c \<and> hhmm = take 5 (drop 11 c)))
                \<and> (\<not> truthy_text (created_at msg) \<longrightarrow>
                      (\<exists>t iso. (case message_timestamp msg of
                                   None \<Rightarrow> t = 0 | Some ts \<Rightarrow> Date_parse X ts = Some t)
                         \<and> toISOString X t = Some iso \<and> hhmm = take 5 (drop 11 iso)))"
      by (intro exI [of _ hhmm] conjI) simp_all
  }
  have "mset (map (log_line X) (js_sort X (context_messages ctx)))
          = image_mset (log_line X) (mset (context_messages ctx))"
    by (simp only: mset_map mset_js_sort)
  then show "mset (map Some (getChatLog X err db messageId))
               = image_mset (log_line X) (mset (context_messages ctx))"
    by (simp only: eq)
  have "length (map Some (getChatLog X err db messageId)) = length (context_messages ctx)"
    by (simp only: eq length_map length_js_sort)
  then show "length (getChatLog X err db messageId) = length (context_messages ctx)"
    by simp
next
  assume "\<exists>msg\<in>set (context_messages ctx).
              \<not> truthy_text (created_at msg)
              \<and> \<not> (\<exists>t iso. (case message_timestamp msg of
                               None \<Rightarrow> t = 0 | Some ts \<Rightarrow> Date_parse X ts = Some t)
                     \<and> toISOString X t = Some iso)"
  then obtain msg where msg: "msg \<in> set (context_messages ctx)"
      "\<not> truthy_text (created_at msg)"
      "\<not> (\<exists>t iso. (case message_timestamp msg of
                      None \<Rightarrow> t = 0 | Some ts \<Rightarrow> Date_parse X ts = Some t)
            \<and> toISOString X t = Some iso)"
    by (elim bexE conjE)
  have "timeString X msg = None"
    by (rule timeString_undefined [OF msg(2,3)])
  then show "getChatLog X err db messageId = []"
    by (rule getChatLog_unrendered [OF assms msg(1)])
qed

lemma example_content:
  "content early_row = Some ''hi''" "content late_row = Some ''bye''"
  "created_at early_row = Some ''2025-01-01 10:12:02''"
  "created_at late_row = Some ''2025-01-01 10:12:01''"
  by (simp_all add: late_row_def early_row_def msgValues_def chat_message_def blank_message_def)

lemma example_log:
  "getChatLog plain_runtime no_fault channel_store ''mid'' =
     [''[10:12] bob: hi'', ''[10:12] Ann: bye'']"
  by (simp add: getChatLog_def example_context js_sort_def earlier_def
        getTime_def plain_runtime_def log_line_def timeString_def slice_def display_name_def
        extend_columns example_rows example_content)

theorem getChatLog_swallows_failure_witness:
  "getMessageContext (\<lambda>q. Some ''SQLITE_BUSY'') channel_store ''mid''
     = Inl ''Database error: SQLITE_BUSY''
   \<and> getChatLog plain_runtime (\<lambda>q. Some ''SQLITE_BUSY'') channel_store ''mid'' = []
   \<and> ''nope'' \<notin> set (map m_id (messages channel_store))
   \<and> getMessageContext no_fault channel_store ''nope'' = Inl ''Message not found''
   \<and> getChatLog plain_runtime no_fault channel_store ''nope'' = []
   \<and> (\<exists>ctx. getMessageContext no_fault lonely_store ''m1'' = Inr ctx
          \<and> context_messages ctx = []
          \<and> getChatLog plain_runtime no_fault lonely_store ''m1'' = [])"
proof -
  have busy: "getMessageContext (\<lambda>q. Some ''SQLITE_BUSY'') channel_store ''mid''
     = Inl ''Database error: SQLITE_BUSY''"
    by (simp add: getMessageContext_def db_get_def)
  have a: "getChatLog plain_runtime (\<lambda>q. Some ''SQLITE_BUSY'') channel_store ''mid'' = []"
    by (rule getChatLog_swallows_failure [THEN conjunct1, THEN mp, OF busy])
  have nope: "\<forall>m\<in>set (messages channel_store). m_id m \<noteq> ''nope''"
    by (simp add: channel_store_tables example_rows)
  have missing: "getMessageContext no_fault channel_store ''nope'' = Inl ''Message not found''"
    by (simp add: getMessageContext_def db_get_def no_fault_def joined_example example_rows)
  have b: "getChatLog plain_runtime no_fault channel_store ''nope'' = []"
    by (rule getChatLog_swallows_failure
          [THEN conjunct2, THEN conjunct1, THEN mp, OF nope, THEN conjunct2])
  have lonely: "messages lonely_store =
      [msgValues ''2025-01-01 10:00:00'' first_post first_message ''m1'']"
    by (simp add: lonely_store_def example_defs msgValues_def)
  have f: "(no_fault :: read_faults) 0 = None" "(no_fault :: read_faults) (Suc 0) = None"
    by (simp_all add: no_fault_def)
  have present: "\<exists>m\<in>set (messages lonely_store). m_id m = ''m1''"
    by (simp add: lonely msgValues_def)
  have alone: "select_joined lonely_store (\<lambda>m. sql_eq (channelId m) ch \<and> m_id m \<noteq> ''m1'') = []"
    for ch
    by (simp add: select_joined_Nil lonely msgValues_def)
  from context_found [OF f present]
  obtain ctx where ctx: "getMessageContext no_fault lonely_store ''m1'' = Inr ctx"
    "context_messages ctx = []"
    by (auto simp: alone order_by_def)
  have c: "getChatLog plain_runtime no_fault lonely_store ''m1'' = []"
    by (rule getChatLog_swallows_failure
          [THEN conjunct2, THEN conjunct2, THEN mp, OF conjI [OF ctx]])
  have "\<exists>ctx. getMessageContext no_fault lonely_store ''m1'' = Inr ctx
          \<and> context_messages ctx = []
          \<and> getChatLog plain_runtime no_fault lonely_store ''m1'' = []"
    by (intro exI [of _ ctx] conjI ctx c)
  moreover have "''nope'' \<notin> set (map m_id (messages channel_store))"
    by (simp add: channel_store_tables example_rows)
  ultimately show ?thesis
    by (intro conjI busy a missing b)
qed

lemma legacy_tables:
  "messages legacy_store =
     [late_row\<lparr>created_at := None\<rparr>, early_row\<lparr>created_at := None\<rparr>,
      mid_row\<lparr>created_at := None\<rparr>]"
  "authors legacy_store = authors channel_store"
  by (simp_all add: legacy_store_def channel_store_tables)

lemma legacy_joined:
  "select_joined legacy_store p =
     concat (map (\<lambda>m. if p m then left_join (authors channel_store) m else [])
       [late_row\<lparr>created_at := None\<rparr>, early_row\<lparr>created_at := None\<rparr>,
        mid_row\<lparr>created_at := None\<rparr>])"
  by (simp add: select_joined_def legacy_tables)

lemma legacy_joins:
  "left_join (authors channel_store) (late_row\<lparr>created_at := None\<rparr>) =
     [message_row.extend (late_row\<lparr>created_at := None\<rparr>)
        (joined_row.fields (Some ''ann'') (Some ''ann.png'') (Some ''Ann''))]"
  "left_join (authors channel_store) (early_row\<lparr>created_at := None\<rparr>) =
     [message_row.extend (early_row\<lparr>created_at := None\<rparr>)
        (joined_row.fields (Some ''bob'') None None)]"
  "left_join (authors channel_store) (mid_row\<lparr>created_at := None\<rparr>) =
     [message_row.extend (mid_row\<lparr>created_at := None\<rparr>)
        (joined_row.fields (Some ''ann'') (Some ''ann.png'') (Some ''Ann''))]"
  by (simp_all add: left_join_def channel_store_tables example_authors authorValues_def
        ann_def bob_def blank_author_def)

lemma legacy_context:
  "getMessageContext no_fault legacy_store ''mid'' =
     Inr \<lparr>message = message_row.extend (mid_row\<lparr>created_at := None\<rparr>)
                      (joined_row.fields (Some ''ann'') (Some ''ann.png'') (Some ''Ann'')),
          channel_id = Some ''C'',
          context_messages =
            [message_row.extend (early_row\<lparr>created_at := None\<rparr>)
               (joined_row.fields (Some ''bob'') None None),
             message_row.extend (late_row\<lparr>created_at := None\<rparr>)
               (joined_row.fields (Some ''ann'') (Some ''ann.png'') (Some ''Ann''))],
          context_message_count = 2\<rparr>"
  by (simp add: getMessageContext_def db_get_def db_all_def no_fault_def legacy_joined
        example_rows legacy_joins extend_columns order_by_def)

lemma legacy_log:
  "getChatLog iso_runtime no_fault legacy_store ''mid'' =
     [''[10:00] bob: hi'', ''[10:10] Ann: bye'']"
  by (simp add: getChatLog_def legacy_context js_sort_def earlier_def
        getTime_def iso_runtime_def plain_runtime_def log_line_def timeString_def substr_def
        display_name_def extend_columns example_rows example_content)

theorem transcript_line_format_witness:
  "\<exists>ctx. getMessageContext no_fault legacy_store ''mid'' = Inr ctx
     \<and> map created_at (context_messages ctx) = [None, None]
     \<and> map message_timestamp (context_messages ctx)
         = [Some ''2025-01-01T10:00:00.000Z'', Some ''2025-01-01T10:10:00.000Z'']
     \<and> map username (context_messages ctx) = [Some ''bob'', Some ''ann'']
     \<and> map globalName (context_messages ctx) = [None, Some ''Ann'']
     \<and> map content (context_messages ctx) = [Some ''hi'', Some ''bye'']
     \<and> Date_parse iso_runtime ''2025-01-01T10:00:00.000Z'' = Some 1735725600000
     \<and> toISOString iso_runtime 1735725600000 = Some ''2025-01-01T10:00:00.000Z''
     \<and> getChatLog iso_runtime no_fault legacy_store ''mid''
         = [''[10:00] bob: hi'', ''[10:10] Ann: bye'']
     \<and> getChatLog plain_runtime no_fault legacy_store ''mid'' = []
     \<and> getChatLog plain_runtime no_fault channel_store ''mid''
         = [''[10:12] bob: hi'', ''[10:12] Ann: bye'']
     \<and> (\<forall>line\<in>set (getChatLog iso_runtime no_fault legacy_store ''mid'').
            \<exists>msg\<in>set (context_messages ctx). \<exists>hhmm.
              line = ''['' @ hhmm @ ''] ''
                     @ template (if truthy_text (globalName msg) then globalName msg
                                 else username msg)
                     @ '': '' @ template (content msg)
              \<and> (truthy_text (created_at msg) \<longrightarrow>
                    (\<exists>c. created_at msg = Some c \<and> hhmm = take 5 (drop 11 c)))
              \<and> (\<not> truthy_text (created_at msg) \<longrightarrow>
                    (\<exists>t iso. (case message_timestamp msg of
                                 None \<Rightarrow> t = 0
                               | Some ts \<Rightarrow> Date_parse iso_runtime ts = Some t)
                       \<and> toISOString iso_runtime t = Some iso
                       \<and> hhmm = take 5 (drop 11 iso))))
     \<and> mset (map Some (getChatLog iso_runtime no_fault legacy_store ''mid''))
         = image_mset (log_line iso_runtime) (mset (context_messages ctx))
     \<and> length (getChatLog iso_runtime no_fault legacy_store ''mid'')
         = length (context_messages ctx)"
proof -
  let ?ctx = "\<lparr>message = message_row.extend (mid_row\<lparr>created_at := None\<rparr>)
                      (joined_row.fields (Some ''ann'') (Some ''ann.png'') (Some ''Ann'')),
          channel_id = Some ''C'',
          context_messages =
            [message_row.extend (early_row\<lparr>created_at := None\<rparr>)
               (joined_row.fields (Some ''bob'') None None),
             message_row.extend (late_row\<lparr>created_at := None\<rparr>)
               (joined_row.fields (Some ''ann'') (Some ''ann.png'') (Some ''Ann''))],
          context_message_count = 2\<rparr>"
  have ctx: "getMessageContext no_fault legacy_store ''mid'' = Inr ?ctx"
    by (rule legacy_context)
  have columns:
    "map created_at (context_messages ?ctx) = [None, None]"
    "map message_timestamp (context_messages ?ctx)
       = [Some ''2025-01-01T10:00:00.000Z'', Some ''2025-01-01T10:10:00.000Z'']"
    "map username (context_messages ?ctx) = [Some ''bob'', Some ''ann'']"
    "map globalName (context_messages ?ctx) = [None, Some ''Ann'']"
    "map content (context_messages ?ctx) = [Some ''hi'', Some ''bye'']"
    by (simp_all add: extend_columns example_rows example_content)
  have dates: "Date_parse iso_runtime ''2025-01-01T10:00:00.000Z'' = Some 1735725600000"
    "toISOString iso_runtime 1735725600000 = Some ''2025-01-01T10:00:00.000Z''"
    "Date_parse iso_runtime ''2025-01-01T10:10:00.000Z'' = Some 1735726200000"
    "toISOString iso_runtime 1735726200000 = Some ''2025-01-01T10:10:00.000Z''"
    by (simp_all add: iso_runtime_def plain_runtime_def)
  have renderable: "\<forall>msg\<in>set (context_messages ?ctx).
              truthy_text (created_at msg)
              \<or> (\<exists>t iso. (case message_timestamp msg of
                             None \<Rightarrow> t = 0 | Some ts \<Rightarrow> Date_parse iso_runtime ts = Some t)
                   \<and> toISOString iso_runtime t = Some iso)"
    by (simp add: extend_columns example_rows dates)
  have unrenderable: "\<exists>msg\<in>set (context_messages ?ctx).
              \<not> truthy_text (created_at msg)
              \<and> \<not> (\<exists>t iso. (case message_timestamp msg of
                               None \<Rightarrow> t = 0 | Some ts \<Rightarrow> Date_parse plain_runtime ts = Some t)
                     \<and> toISOString plain_runtime t = Some iso)"
    by (simp add: extend_columns example_rows plain_runtime_def)
  note T = transcript_line_format [OF ctx, where X = iso_runtime]
  note U = transcript_line_format [OF ctx, where X = plain_runtime]
  note R = T [THEN conjunct2, THEN conjunct1, THEN mp, OF renderable]
  have every: "mset (map Some (getChatLog iso_runtime no_fault legacy_store ''mid''))
         = image_mset (log_line iso_runtime) (mset (context_messages ?ctx))"
    "length (getChatLog iso_runtime no_fault legacy_store ''mid'')
         = length (context_messages ?ctx)"
    by (rule R [THEN conjunct2, THEN conjunct2, THEN conjunct1])
       (rule R [THEN conjunct2, THEN conjunct2, THEN conjunct2])
  have silent: "getChatLog plain_runtime no_fault legacy_store ''mid'' = []"
    by (rule U [THEN conjunct2, THEN conjunct2, THEN mp, OF unrenderable])
  note first = T [THEN conjunct1]
  show ?thesis
    by (rule exI [of _ ?ctx], intro conjI)
       (fact ctx columns dates(1,2) legacy_log silent example_log first every)+
qed

lemma with_content_authors: "authors (with_content i c db) = authors db"
  by (simp add: with_content_def)

lemma left_join_content:
  "left_join as (m\<lparr>content := c\<rparr>) = map (\<lambda>j. j\<lparr>content := c\<rparr>) (left_join as m)"
  by (simp add: left_join_def Let_def message_row.defs joined_row.defs)

lemma select_target_with_content:
  "select_joined (with_content i c db) (\<lambda>m. m_id m = i) =
     map (\<lambda>j. j\<lparr>content := c\<rparr>) (select_joined db (\<lambda>m. m_id m = i))"
proof -
  have "concat (map (left_join as)
          (filter (\<lambda>m. m_id m = i) (map (\<lambda>m. if m_id m = i then m\<lparr>content := c\<rparr> else m) ms)))
        = map (\<lambda>j. j\<lparr>content := c\<rparr>) (concat (map (left_join as) (filter (\<lambda>m. m_id m = i) ms)))"
    for as ms
    by (induction ms) (simp_all add: left_join_content)
  then show ?thesis
    by (simp add: select_joined_def with_content_def)
qed

lemma select_others_with_content:
  "select_joined (with_content i c db) (\<lambda>m. sql_eq (channelId m) ch \<and> m_id m \<noteq> i) =
     select_joined db (\<lambda>m. sql_eq (channelId m) ch \<and> m_id m \<noteq> i)"
proof -
  have "filter (\<lambda>m. sql_eq (channelId m) ch \<and> m_id m \<noteq> i)
          (map (\<lambda>m. if m_id m = i then m\<lparr>content := c\<rparr> else m) ms)
        = filter (\<lambda>m. sql_eq (channelId m) ch \<and> m_id m \<noteq> i) ms"
    for ms :: "message_row list"
    by (induction ms) simp_all
  then show ?thesis
    by (simp add: select_joined_def with_content_def del: filter_map)
qed

lemma context_with_content:
  "getMessageContext err (with_content i c db) i =
     (case getMessageContext err db i of
        Inl e \<Rightarrow> Inl e
      | Inr ctx \<Rightarrow> Inr (ctx\<lparr>message := (message ctx)\<lparr>content := c\<rparr>\<rparr>))"
  by (cases "select_joined db (\<lambda>m. m_id m = i)")
     (simp_all add: getMessageContext_def select_target_with_content
        select_others_with_content db_get_def db_all_def split: option.splits)

lemma getChatLog_with_content:
  "getChatLog X err (with_content i c db) i = getChatLog X err db i"
  by (simp add: getChatLog_def context_with_content split: sum.splits)

lemma context_rows_are_others:
  assumes "getMessageContext err db i = Inr ctx" and "msg \<in> set (context_messages ctx)"
  shows "m_id msg \<noteq> i"
proof -
  from assms obtain ch where "msg \<in> set (take 20 (order_by message_timestamp
      (select_joined db (\<lambda>m. sql_eq (channelId m) ch \<and> m_id m \<noteq> i))))"
    by (auto simp: getMessageContext_def db_get_def db_all_def
          split: option.splits list.splits)
  then have "msg \<in> set (select_joined db (\<lambda>m. sql_eq (channelId m) ch \<and> m_id m \<noteq> i))"
    by (auto simp: order_by_def dest: in_set_takeD)
  then obtain m where "m_id m \<noteq> i" "msg \<in> set (left_join (authors db) m)"
    using select_joined_source by blast
  then show ?thesis
    using left_join_columns(2) by metis
qed

lemma getChatLog_length:
  assumes "getMessageContext err db i = Inr ctx"
  shows "length (getChatLog X err db i) \<le> length (context_messages ctx)"
proof (cases "getChatLog X err db i")
  case Nil
  then show ?thesis by simp
next
  case (Cons l ls)
  then have "l \<in> set (getChatLog X err db i)"
    by simp
  from getChatLog_lines [OF assms this]
  have "length (map Some (getChatLog X err db i)) =
          length (map (log_line X) (js_sort X (context_messages ctx)))"
    by (rule arg_cong)
  then show ?thesis
    by (simp add: length_js_sort)
qed

lemma getChatLog_length_rendered:
  assumes "getMessageContext err db i = Inr ctx"
    and "\<forall>msg\<in>set (context_messages ctx). truthy_text (created_at msg)"
  shows "length (getChatLog X err db i) = length (context_messages ctx)"
proof -
  have "\<forall>msg\<in>set (context_messages ctx). timeString X msg \<noteq> None"
    using assms(2) timeString_created by blast
  from getChatLog_rendered [OF assms(1) this]
  have "length (map Some (getChatLog X err db i)) =
          length (map (log_line X) (js_sort X (context_messages ctx)))"
    by (rule arg_cong)
  then show ?thesis
    by (simp add: length_js_sort)
qed

text \<open>
  C10. The transcript has at most one line per context message, exactly one when every
  context message has \<^verbatim>\<open>created_at\<close>, and each line is rendered from a context message,
  whose id is never the id asked for: the target is not rendered.
  The prompt of \<^verbatim>\<open>POST /messages/tone\<close> is built from this transcript alone, and both are
  the same whatever the content of the target row is: the text of the target never enters
  the prompt. (A context message with the same characters as the target contributes its
  own text.)
\<close>

theorem transcript_excludes_target:
  "(getMessageContext err db messageId = Inl e \<longrightarrow> getChatLog X err db messageId = [])
   \<and> (getMessageContext err db messageId = Inr ctx \<longrightarrow>
         (\<forall>line\<in>set (getChatLog X err db messageId).
            \<exists>msg\<in>set (context_messages ctx). m_id msg \<noteq> messageId \<and> log_line X msg = Some line)
       \<and> (\<forall>msg\<in>set (context_messages ctx). m_id msg \<noteq> messageId)
       \<and> length (getChatLog X err db messageId) \<le> length (context_messages ctx)
       \<and> ((\<forall>msg\<in>set (context_messages ctx). truthy_text (created_at msg)) \<longrightarrow>
             length (getChatLog X err db messageId) = length (context_messages ctx)))
   \<and> getChatLog X err (with_content messageId c db) messageId = getChatLog X err db messageId
   \<and> (env_message body = Some m \<and> msg_id m = Some messageId \<longrightarrow>
         queryMessage X err db body = Some (tone_prompt X (getChatLog X err db messageId))
       \<and> queryMessage X err (with_content messageId c db) body = queryMessage X err db body)"
proof (intro conjI impI ballI)
  assume "getMessageContext err db messageId = Inl e"
  then show "getChatLog X err db messageId = []"
    by (rule getChatLog_failed)
next
  fix line
  assume ctx: "getMessageContext err db messageId = Inr ctx"
    and "line \<in> set (getChatLog X err db messageId)"
  then obtain msg where msg: "msg \<in> set (context_messages ctx)" "log_line X msg = Some line"
    using getChatLog_line_source by blast
  then have "m_id msg \<noteq> messageId \<and> log_line X msg = Some line"
    using context_rows_are_others [OF ctx] by simp
  then show "\<exists>msg\<in>set (context_messages ctx). m_id msg \<noteq> messageId \<and> log_line X msg = Some line"
    using msg(1) by (rule bexI)
next
  fix msg
  assume "getMessageContext err db messageId = Inr ctx" and "msg \<in> set (context_messages ctx)"
  then show "m_id msg \<noteq> messageId"
    by (rule context_rows_are_others)
next
  assume "getMessageContext err db messageId = Inr ctx"
  then show "length (getChatLog X err db messageId) \<le> length (context_messages ctx)"
    by (rule getChatLog_length)
next
  assume "getMessageContext err db messageId = Inr ctx"
    and "\<forall>msg\<in>set (context_messages ctx). truthy_text (created_at msg)"
  then show "length (getChatLog X err db messageId) = length (context_messages ctx)"
    by (rule getChatLog_length_rendered)
next
  show "getChatLog X err (with_content messageId c db) messageId = getChatLog X err db messageId"
    by (rule getChatLog_with_content)
next
  assume "env_message body = Some m \<and> msg_id m = Some messageId"
  then show "queryMessage X err db body = Some (tone_prompt X (getChatLog X err db messageId))"
    by (simp add: queryMessage_def)
next
  assume "env_message body = Some m \<and> msg_id m = Some messageId"
  then show "queryMessage X err (with_content messageId c db) body = queryMessage X err db body"
    by (simp add: queryMessage_def getChatLog_with_content)
qed

theorem transcript_excludes_target_witness:
  "getMessageContext (\<lambda>q. Some ''SQLITE_BUSY'') channel_store ''mid''
     = Inl ''Database error: SQLITE_BUSY''
   \<and> getChatLog plain_runtime (\<lambda>q. Some ''SQLITE_BUSY'') channel_store ''mid'' = []
   \<and> env_message mid_post = Some (chat_message ''mid'' ''2025-01-01T10:01:00.000Z'' ann ''hello'')
   \<and> msg_id (chat_message ''mid'' ''2025-01-01T10:01:00.000Z'' ann ''hello'') = Some ''mid''
   \<and> (\<exists>ctx. getMessageContext no_fault channel_store ''mid'' = Inr ctx
         \<and> (\<forall>msg\<in>set (context_messages ctx). m_id msg \<noteq> ''mid'')
         \<and> length (getChatLog plain_runtime no_fault channel_store ''mid'')
              \<le> length (context_messages ctx))
   \<and> getChatLog plain_runtime no_fault channel_store ''mid''
        = [''[10:12] bob: hi'', ''[10:12] Ann: bye'']
   \<and> getChatLog plain_runtime no_fault (with_content ''mid'' (Some ''changed'') channel_store)
        ''mid'' = [''[10:12] bob: hi'', ''[10:12] Ann: bye'']
   \<and> queryMessage plain_runtime no_fault channel_store mid_post
        = Some (tone_prompt plain_runtime [''[10:12] bob: hi'', ''[10:12] Ann: bye''])
   \<and> queryMessage plain_runtime no_fault
        (with_content ''mid'' (Some ''changed'') channel_store) mid_post
        = Some (tone_prompt plain_runtime [''[10:12] bob: hi'', ''[10:12] Ann: bye''])"
proof -
  have busy: "getMessageContext (\<lambda>q. Some ''SQLITE_BUSY'') channel_store ''mid''
     = Inl ''Database error: SQLITE_BUSY''"
    by (simp add: getMessageContext_def db_get_def)
  have a: "getChatLog plain_runtime (\<lambda>q. Some ''SQLITE_BUSY'') channel_store ''mid'' = []"
    by (rule transcript_excludes_target [THEN conjunct1, THEN mp, OF busy])
  have b1: "env_message mid_post
      = Some (chat_message ''mid'' ''2025-01-01T10:01:00.000Z'' ann ''hello'')"
    by (simp add: mid_post_def chat_post_def blank_envelope_def)
  have b2: "msg_id (chat_message ''mid'' ''2025-01-01T10:01:00.000Z'' ann ''hello'') = Some ''mid''"
    by (simp add: chat_message_def blank_message_def)
  obtain ctx where ctx: "getMessageContext no_fault channel_store ''mid'' = Inr ctx"
    using example_context by simp
  note T = transcript_excludes_target
    [where err = no_fault and db = channel_store and messageId = "''mid''" and X = plain_runtime
       and c = "Some ''changed''" and body = mid_post
       and m = "chat_message ''mid'' ''2025-01-01T10:01:00.000Z'' ann ''hello''"]
  note second = T [THEN conjunct2, THEN conjunct1, THEN mp, OF ctx]
  have c: "\<exists>ctx. getMessageContext no_fault channel_store ''mid'' = Inr ctx
         \<and> (\<forall>msg\<in>set (context_messages ctx). m_id msg \<noteq> ''mid'')
         \<and> length (getChatLog plain_runtime no_fault channel_store ''mid'')
              \<le> length (context_messages ctx)"
    by (intro exI [of _ ctx] conjI ctx second [THEN conjunct2, THEN conjunct1]
          second [THEN conjunct2, THEN conjunct2, THEN conjunct1])
  have d: "getChatLog plain_runtime no_fault (with_content ''mid'' (Some ''changed'') channel_store)
        ''mid'' = [''[10:12] bob: hi'', ''[10:12] Ann: bye'']"
    using T [THEN conjunct2, THEN conjunct2, THEN conjunct1] by (simp only: example_log)
  note last = T [THEN conjunct2, THEN conjunct2, THEN conjunct2, THEN mp, OF conjI [OF b1 b2]]
  have e: "queryMessage plain_runtime no_fault channel_store mid_post
        = Some (tone_prompt plain_runtime [''[10:12] bob: hi'', ''[10:12] Ann: bye''])"
    using last [THEN conjunct1] by (simp only: example_log)
  have f: "queryMessage plain_runtime no_fault
        (with_content ''mid'' (Some ''changed'') channel_store) mid_post
        = Some (tone_prompt plain_runtime [''[10:12] bob: hi'', ''[10:12] Ann: bye''])"
    using last [THEN conjunct2] e by (simp only:)
  show ?thesis
    by (intro conjI busy a b1 b2 c example_log d e f)
qed

subsection \<open>The read endpoints, the classifier bridge and the insights\<close>

lemma respond_all_never_404: "respond_all err rs \<noteq> Json_error 404 e"
  by (simp add: respond_all_def db_all_def split: option.splits)

lemma respond_get_never_404: "respond_get err rs \<noteq> Json_error 404 e"
  by (simp add: respond_get_def db_get_def split: option.splits)

lemma respond_all_empty: "respond_all None [] = Json (Many [])"
  by (simp add: respond_all_def db_all_def)

lemma respond_get_empty: "respond_get None [] = Json (First None)"
  by (simp add: respond_get_def db_get_def)

lemma select_auto_Nil:
  "(\<forall>kr\<in>set (rows t). column 0 (snd kr) \<noteq> Some i) \<Longrightarrow> select_auto t i = []"
  by (auto simp: select_auto_def of_message_def filter_empty_conv elim: sql_eq.elims)

lemma keyed_Nil:
  "(\<forall>r\<in>set t. column n r \<noteq> Some i) \<Longrightarrow> filter (of_message n i) t = []"
  by (auto simp: of_message_def filter_empty_conv elim: sql_eq.elims)

text \<open>
  C7, as stated, fails: the lookup of the member of a message is a per-entity child lookup,
  and when no row matches it answers with no row at all (\<^verbatim>\<open>db.get\<close> passes \<^verbatim>\<open>undefined\<close>, and
  \<^verbatim>\<open>res.json\<close> drops the key), not with an empty list.
\<close>

theorem member_lookup_answers_no_list:
  "get_member no_fault empty_store ''m1'' = Json (First None)
   \<and> get_member no_fault empty_store ''m1'' \<noteq> Json (Many [])"
  by (simp add: get_member_def respond_get_def db_get_def no_fault_def empty_store_def)

text \<open>
  C7, amended. Among the read endpoints 1 to 12, \<^verbatim>\<open>GET /messages/:id\<close> and
  \<^verbatim>\<open>GET /authors/:id\<close> answer 404 when their lookup succeeds and finds no row, and only
  then; no other read endpoint ever answers 404. When nothing matches and the query
  succeeds, the endpoints read with \<^verbatim>\<open>db.all\<close> (all messages, messages by author, authors,
  attachments, embeds, components, mentions) answer with the empty list, and the endpoints
  read with \<^verbatim>\<open>db.get\<close> (member, message reference, referenced message) answer with no row.
\<close>

theorem read_api_not_found:
  "(err 0 = None \<and> (\<forall>m\<in>set (messages db). m_id m \<noteq> i) \<longrightarrow>
       get_message err db i = Json_error 404 ''Message not found'')
   \<and> (err 0 = None \<and> (\<forall>a\<in>set (authors db). a_id a \<noteq> i) \<longrightarrow>
       get_author err db i = Json_error 404 ''Author not found'')
   \<and> (get_message err db i = Json_error 404 e \<longrightarrow> (\<forall>m\<in>set (messages db). m_id m \<noteq> i))
   \<and> (get_author err db i = Json_error 404 e \<longrightarrow> (\<forall>a\<in>set (authors db). a_id a \<noteq> i))
   \<and> get_messages err db \<noteq> Json_error 404 e
   \<and> get_messages_by_user err db i \<noteq> Json_error 404 e
   \<and> get_authors err db \<noteq> Json_error 404 e
   \<and> get_attachments err db i \<noteq> Json_error 404 e
   \<and> get_embeds err db i \<noteq> Json_error 404 e
   \<and> get_components err db i \<noteq> Json_error 404 e
   \<and> get_member err db i \<noteq> Json_error 404 e
   \<and> get_mentions err db i \<noteq> Json_error 404 e
   \<and> get_message_reference err db i \<noteq> Json_error 404 e
   \<and> get_referenced_message err db i \<noteq> Json_error 404 e
   \<and> (err 0 = None \<and> messages db = [] \<longrightarrow> get_messages err db = Json (Many []))
   \<and> (err 0 = None \<and> (\<forall>m\<in>set (messages db). author_id m \<noteq> Some i) \<longrightarrow>
         get_messages_by_user err db i = Json (Many []))
   \<and> (err 0 = None \<and> authors db = [] \<longrightarrow> get_authors err db = Json (Many []))
   \<and> (err 0 = None \<and> (\<forall>kr\<in>set (rows (attachments db)). column 0 (snd kr) \<noteq> Some i) \<longrightarrow>
         get_attachments err db i = Json (Many []))
   \<and> (err 0 = None \<and> (\<forall>kr\<in>set (rows (embeds db)). column 0 (snd kr) \<noteq> Some i) \<longrightarrow>
         get_embeds err db i = Json (Many []))
   \<and> (err 0 = None \<and> (\<forall>kr\<in>set (rows (components db)). column 0 (snd kr) \<noteq> Some i) \<longrightarrow>
         get_components err db i = Json (Many []))
   \<and> (err 0 = None \<and> (\<forall>kr\<in>set (rows (mentions db)). column 0 (snd kr) \<noteq> Some i) \<longrightarrow>
         get_mentions err db i = Json (Many []))
   \<and> (err 0 = None \<and> (\<forall>r\<in>set (members db). column 0 r \<noteq> Some i) \<longrightarrow>
         get_member err db i = Json (First None))
   \<and> (err 0 = None \<and> (\<forall>r\<in>set (message_references db). column 0 r \<noteq> Some i) \<longrightarrow>
         get_message_reference err db i = Json (First None))
   \<and> (err 0 = None \<and> (\<forall>r\<in>set (referenced_messages db). column 1 r \<noteq> Some i) \<longrightarrow>
         get_referenced_message err db i = Json (First None))"
proof (intro conjI impI)
  assume "err 0 = None \<and> (\<forall>m\<in>set (messages db). m_id m \<noteq> i)"
  then show "get_message err db i = Json_error 404 ''Message not found''"
    by (simp add: get_message_def db_get_def select_joined_Nil [THEN iffD2])
next
  assume "err 0 = None \<and> (\<forall>a\<in>set (authors db). a_id a \<noteq> i)"
  then have "err 0 = None" "filter (\<lambda>a. a_id a = i) (authors db) = []"
    by (auto simp: filter_empty_conv)
  then show "get_author err db i = Json_error 404 ''Author not found''"
    by (simp add: get_author_def db_get_def)
next
  assume a: "get_message err db i = Json_error 404 e"
  have "select_joined db (\<lambda>m. m_id m = i) = []"
  proof (rule ccontr)
    assume "select_joined db (\<lambda>m. m_id m = i) \<noteq> []"
    then obtain j js where "select_joined db (\<lambda>m. m_id m = i) = j # js"
      by (cases "select_joined db (\<lambda>m. m_id m = i)") auto
    then show False
      using a by (simp add: get_message_def db_get_def split: option.splits)
  qed
  then show "\<forall>m\<in>set (messages db). m_id m \<noteq> i"
    by (simp add: select_joined_Nil)
next
  assume a: "get_author err db i = Json_error 404 e"
  have "filter (\<lambda>a. a_id a = i) (authors db) = []"
  proof (rule ccontr)
    assume "filter (\<lambda>a. a_id a = i) (authors db) \<noteq> []"
    then obtain j js where "filter (\<lambda>a. a_id a = i) (authors db) = j # js"
      by (cases "filter (\<lambda>a. a_id a = i) (authors db)") auto
    then show False
      using a by (simp add: get_author_def db_get_def split: option.splits)
  qed
  then show "\<forall>a\<in>set (authors db). a_id a \<noteq> i"
    by (simp add: filter_empty_conv)
next
  show "get_messages err db \<noteq> Json_error 404 e"
    by (simp add: get_messages_def respond_all_never_404)
  show "get_messages_by_user err db i \<noteq> Json_error 404 e"
    by (simp add: get_messages_by_user_def respond_all_never_404)
  show "get_authors err db \<noteq> Json_error 404 e"
    by (simp add: get_authors_def respond_all_never_404)
  show "get_attachments err db i \<noteq> Json_error 404 e"
    by (simp add: get_attachments_def respond_all_never_404)
  show "get_embeds err db i \<noteq> Json_error 404 e"
    by (simp add: get_embeds_def respond_all_never_404)
  show "get_components err db i \<noteq> Json_error 404 e"
    by (simp add: get_components_def respond_all_never_404)
  show "get_member err db i \<noteq> Json_error 404 e"
    by (simp add: get_member_def respond_get_never_404)
  show "get_mentions err db i \<noteq> Json_error 404 e"
    by (simp add: get_mentions_def respond_all_never_404)
  show "get_message_reference err db i \<noteq> Json_error 404 e"
    by (simp add: get_message_reference_def respond_get_never_404)
  show "get_referenced_message err db i \<noteq> Json_error 404 e"
    by (simp add: get_referenced_message_def respond_get_never_404)
next
  assume "err 0 = None \<and> messages db = []"
  then show "get_messages err db = Json (Many [])"
    by (simp add: get_messages_def select_joined_def order_by_desc_def respond_all_empty)
next
  assume "err 0 = None \<and> (\<forall>m\<in>set (messages db). author_id m \<noteq> Some i)"
  then have "err 0 = None" "select_joined db (\<lambda>m. sql_eq (author_id m) (Some i)) = []"
    by (simp_all add: select_joined_Nil sql_eq_Some)
  then show "get_messages_by_user err db i = Json (Many [])"
    by (simp add: get_messages_by_user_def order_by_desc_def respond_all_empty)
next
  assume "err 0 = None \<and> authors db = []"
  then show "get_authors err db = Json (Many [])"
    by (simp add: get_authors_def order_by_def respond_all_empty)
next
  assume "err 0 = None \<and> (\<forall>kr\<in>set (rows (attachments db)). column 0 (snd kr) \<noteq> Some i)"
  then show "get_attachments err db i = Json (Many [])"
    by (simp add: get_attachments_def select_auto_Nil respond_all_empty)
next
  assume "err 0 = None \<and> (\<forall>kr\<in>set (rows (embeds db)). column 0 (snd kr) \<noteq> Some i)"
  then show "get_embeds err db i = Json (Many [])"
    by (simp add: get_embeds_def select_auto_Nil respond_all_empty)
next
  assume "err 0 = None \<and> (\<forall>kr\<in>set (rows (components db)). column 0 (snd kr) \<noteq> Some i)"
  then show "get_components err db i = Json (Many [])"
    by (simp add: get_components_def select_auto_Nil respond_all_empty)
next
  assume "err 0 = None \<and> (\<forall>kr\<in>set (rows (mentions db)). column 0 (snd kr) \<noteq> Some i)"
  then show "get_mentions err db i = Json (Many [])"
    by (simp add: get_mentions_def select_auto_Nil respond_all_empty)
next
  assume "err 0 = None \<and> (\<forall>r\<in>set (members db). column 0 r \<noteq> Some i)"
  then show "get_member err db i = Json (First None)"
    by (simp add: get_member_def keyed_Nil respond_get_empty)
next
  assume "err 0 = None \<and> (\<forall>r\<in>set (message_references db). column 0 r \<noteq> Some i)"
  then show "get_message_reference err db i = Json (First None)"
    by (simp add: get_message_reference_def keyed_Nil respond_get_empty)
next
  assume "err 0 = None \<and> (\<forall>r\<in>set (referenced_messages db). column 1 r \<noteq> Some i)"
  then show "get_referenced_message err db i = Json (First None)"
    by (simp add: get_referenced_message_def keyed_Nil respond_get_empty)
qed

lemma empty_store_tables:
  "messages empty_store = []" "authors empty_store = []"
  "rows (attachments empty_store) = []" "rows (embeds empty_store) = []"
  "rows (components empty_store) = []" "rows (mentions empty_store) = []"
  "members empty_store = []" "message_references empty_store = []"
  "referenced_messages empty_store = []" "user_insights empty_store = empty_table"
  by (simp_all add: empty_store_def empty_table_def)

theorem read_api_not_found_witness:
  "get_message no_fault empty_store ''m1'' = Json_error 404 ''Message not found''
   \<and> get_author no_fault empty_store ''m1'' = Json_error 404 ''Author not found''
   \<and> messages empty_store = [] \<and> authors empty_store = []
   \<and> get_messages no_fault empty_store = Json (Many [])
   \<and> get_messages_by_user no_fault empty_store ''m1'' = Json (Many [])
   \<and> get_authors no_fault empty_store = Json (Many [])
   \<and> get_attachments no_fault empty_store ''m1'' = Json (Many [])
   \<and> get_embeds no_fault empty_store ''m1'' = Json (Many [])
   \<and> get_components no_fault empty_store ''m1'' = Json (Many [])
   \<and> get_mentions no_fault empty_store ''m1'' = Json (Many [])
   \<and> get_member no_fault empty_store ''m1'' = Json (First None)
   \<and> get_message_reference no_fault empty_store ''m1'' = Json (First None)
   \<and> get_referenced_message no_fault empty_store ''m1'' = Json (First None)"
  using read_api_not_found
    [where err = no_fault and db = empty_store and i = "''m1''" and e = "''Message not found''"]
  by (simp add: no_fault_def empty_store_tables)

lemma join_append_separator:
  "texts \<noteq> [] \<Longrightarrow> join sep texts @ sep = concat (map (\<lambda>t. t @ sep) texts)"
  by (induction sep texts rule: join.induct) simp_all

text \<open>
  C8. \<^verbatim>\<open>POST /messages/classifier\<close> posts to the classifier the texts joined with newlines,
  the character with code 10: two texts are sent as the first, one newline, the second;
  for a non-empty list, every text but the last is followed by one newline, and a single
  text is sent as it is. The answer is the classifier's answer to exactly this text. For
  the empty list the text is the empty string, and the classifier is still called with it.
\<close>

theorem classifier_forwards_joined_texts:
  "fst (post_classifier X texts) = join [CHR 0x0A] texts
   \<and> snd (post_classifier X texts) = predict X (join [CHR 0x0A] texts)
   \<and> (texts \<noteq> [] \<longrightarrow>
         fst (post_classifier X texts) @ [CHR 0x0A]
           = concat (map (\<lambda>t. t @ [CHR 0x0A]) texts))
   \<and> fst (post_classifier X [a, b]) = a @ [CHR 0x0A] @ b
   \<and> fst (post_classifier X [''hello'', ''world'']) = ''hello'' @ [CHR 0x0A] @ ''world''
   \<and> fst (post_classifier X [a]) = a
   \<and> fst (post_classifier X []) = []
   \<and> snd (post_classifier X []) = predict X []"
  by (simp add: post_classifier_def Let_def join_append_separator)

theorem classifier_forwards_joined_texts_witness:
  "[''hello'', ''world''] \<noteq> []
   \<and> fst (post_classifier plain_runtime [''hello'', ''world''])
       = [CHR ''h'', CHR ''e'', CHR ''l'', CHR ''l'', CHR ''o'', CHR 0x0A,
          CHR ''w'', CHR ''o'', CHR ''r'', CHR ''l'', CHR ''d'']
   \<and> fst (post_classifier plain_runtime [''hello'', ''world'']) @ [CHR 0x0A]
       = ''hello'' @ [CHR 0x0A] @ ''world'' @ [CHR 0x0A]
   \<and> snd (post_classifier (plain_runtime\<lparr>predict := Some\<rparr>) [''hello'', ''world''])
       = Some (''hello'' @ [CHR 0x0A] @ ''world'')"
  using classifier_forwards_joined_texts [where X = plain_runtime and texts = "[''hello'', ''world'']"]
    classifier_forwards_joined_texts
      [where X = "plain_runtime\<lparr>predict := Some\<rparr>" and texts = "[''hello'', ''world'']"]
  by simp

lemma step_read_only:
  "(\<forall>body. req \<noteq> POST_messages body) \<Longrightarrow> fst (step X S (Request c req)) = S"
  by (simp add: step_Request handle_reads)

text \<open>
  C9. No event changes the table \<^verbatim>\<open>user_insights\<close>: no request, and no statement that a
  request has left to run. In particular \<^verbatim>\<open>POST /user_insights/generate/:user_id\<close> leaves the
  whole server as it is: the database, the statements waiting and what is printed. So
  after any sequence of events on a new database the table is empty, and
  \<^verbatim>\<open>GET /user_insights/generate/:user_id\<close> answers, for every user and whenever its query
  does not fail, with \<^verbatim>\<open>{user_id, insights: [], message}\<close>.
\<close>

theorem user_insights_stay_empty:
  "user_insights (database (fst (step X S ev))) = user_insights (database S)
   \<and> fst (step X S (Request c (POST_user_insights u))) = S
   \<and> user_insights (database (serve X start evs)) = empty_table
   \<and> (err 0 = None \<longrightarrow>
         get_user_insights err (database (serve X start evs)) u = Json (No_insights u))
   \<and> (query_faults c 0 = None \<longrightarrow>
         snd (step X (serve X start evs) (Request c (GET_user_insights u)))
           = Some (Insights_stored (Json (No_insights u))))"
proof (intro conjI impI)
  show "user_insights (database (fst (step X S ev))) = user_insights (database S)"
    by (rule step_user_insights)
  show "fst (step X S (Request c (POST_user_insights u))) = S"
    by (simp add: step_read_only)
  show empty: "user_insights (database (serve X start evs)) = empty_table"
    by (simp add: serve_user_insights start_def empty_store_tables)
  show stored: "get_user_insights err (database (serve X start evs)) u = Json (No_insights u)"
    if "err 0 = None" for err
    using that
    by (simp add: get_user_insights_def empty select_auto_def empty_table_def db_all_def
          order_by_def)
  show "snd (step X (serve X start evs) (Request c (GET_user_insights u)))
           = Some (Insights_stored (Json (No_insights u)))"
    if "query_faults c 0 = None"
    using stored [where err = "query_faults c", OF that] by (simp add: step_Request handle_def)
qed

lemma busy_state:
  "serve iso_runtime start busy_day =
     \<lparr>database = empty_store\<lparr>messages := [late_row],
                    authors := [authorValues ''A1'' ann]\<rparr>,
      queue = [],
      printed = [''Author record updated: A1'', ''Message record inserted: late'']\<rparr>"
  by (simp add: busy_day_def calm_def late_post_def chat_post_def chat_message_def
        iso_runtime_def example_defs late_row_def ann_def blank_author_def authorValues_def
        msgValues_def author_id_of_def)

lemma busy_generated:
  "snd (step iso_runtime (serve iso_runtime start busy_day)
          (Request calm (POST_user_insights ''A1'')))
     = Some (Insights_generated
         (Json (Generated ''A1'' 1
            [(''message_count'', ''1''), (''channels_posted_in'', ''1'')]
            [\<lparr>bundle_message = late_row, related_messages = []\<rparr>])))"
  unfolding busy_state
  by (simp add: step_Request handle_def calm_def no_fault_def post_user_insights_def
        db_all_def empty_store_def example_authors window_def getTime_def example_rows
        iso_runtime_def plain_runtime_def related_query_def order_by_def)

theorem user_insights_stay_empty_witness:
  "(no_fault :: read_faults) 0 = None \<and> query_faults calm 0 = None
   \<and> messages (database (serve iso_runtime start busy_day)) = [late_row]
   \<and> snd (step iso_runtime (serve iso_runtime start busy_day)
            (Request calm (POST_user_insights ''A1'')))
       = Some (Insights_generated
           (Json (Generated ''A1'' 1
              [(''message_count'', ''1''), (''channels_posted_in'', ''1'')]
              [\<lparr>bundle_message = late_row, related_messages = []\<rparr>])))
   \<and> fst (step iso_runtime (serve iso_runtime start busy_day)
            (Request calm (POST_user_insights ''A1'')))
       = serve iso_runtime start busy_day
   \<and> user_insights (database (serve iso_runtime start busy_day)) = empty_table
   \<and> get_user_insights no_fault (database (serve iso_runtime start busy_day)) ''A1''
        = Json (No_insights ''A1'')
   \<and> snd (step iso_runtime (serve iso_runtime start busy_day)
             (Request calm (GET_user_insights ''A1'')))
        = Some (Insights_stored (Json (No_insights ''A1'')))"
  using user_insights_stay_empty
    [where X = iso_runtime and evs = busy_day and err = no_fault and c = calm
       and u = "''A1''" and S = "serve iso_runtime start busy_day"]
    busy_generated
  unfolding busy_state
  by (simp add: no_fault_def calm_def empty_store_def)

end
